(* ===== verification/Go_Prelude.thy ===== *)
theory Go_Prelude
  imports Main "HOL-Library.List_Lexorder" "HOL-Library.Char_ord" "HOL-Library.Sublist" "HOL-Library.Multiset"
begin

text \<open>
  What the components use of the Go language and of its standard library: signed 64-bit
  arithmetic, instants and durations, byte strings with the functions of the packages
  \<open>strings\<close> and \<open>unicode/utf8\<close>, and JSON documents with \<open>json.Marshal\<close>. The lemmas are the
  generic facts the component theories share; the ones that rewrite are declared \<open>[simp]\<close>
  or collected in \<open>go_int\<close> and \<open>go_string\<close>.
\<close>

named_theorems go_int \<open>facts on wrapping and truncating 64-bit arithmetic\<close>
named_theorems go_string \<open>definitions of the string functions, for evaluation\<close>

section \<open>Signed 64-bit integers\<close>

text \<open>
  An \<open>int64\<close> or an \<open>int\<close> of a 64-bit platform is an \<^typ>\<open>int\<close>; \<open>wrap64\<close> is the
  reduction every Go operation applies to its exact result. It is written where a result can
  leave the range.
\<close>

abbreviation max_int64 :: int where
  "max_int64 \<equiv> 9223372036854775807"

abbreviation min_int64 :: int where
  "min_int64 \<equiv> - 9223372036854775808"

definition int64 :: "int \<Rightarrow> bool" where
  "int64 x \<longleftrightarrow> min_int64 \<le> x \<and> x \<le> max_int64"

definition wrap64 :: "int \<Rightarrow> int" where
  "wrap64 x = (x + 9223372036854775808) mod 18446744073709551616 - 9223372036854775808"

text \<open>Go's \<open>/\<close> truncates towards zero; division by zero panics and is guarded where it is used.\<close>

definition go_div :: "int \<Rightarrow> int \<Rightarrow> int" where
  "go_div a b = sgn a * sgn b * (\<bar>a\<bar> div \<bar>b\<bar>)"

lemma wrap64_id [go_int, simp]: "int64 x \<Longrightarrow> wrap64 x = x"
  unfolding int64_def wrap64_def by (simp add: mod_pos_pos_trivial)

lemma int64_wrap64 [simp]: "int64 (wrap64 x)"
proof -
  have "0 \<le> (x + 9223372036854775808) mod 18446744073709551616"
    and "(x + 9223372036854775808) mod 18446744073709551616 < 18446744073709551616"
    by simp_all
  then show ?thesis unfolding int64_def wrap64_def by linarith
qed

lemma wrap64_add [go_int]: "wrap64 (wrap64 x + y) = wrap64 (x + y)"
proof -
  have "(wrap64 x + y + 9223372036854775808) mod 18446744073709551616
      = ((x + 9223372036854775808) mod 18446744073709551616 + y) mod 18446744073709551616"
    by (simp add: wrap64_def)
  also have "\<dots> = (x + 9223372036854775808 + y) mod 18446744073709551616" by (rule mod_add_left_eq)
  finally have "wrap64 (wrap64 x + y) = (x + 9223372036854775808 + y) mod 18446744073709551616 - 9223372036854775808"
    by (simp only: wrap64_def [of "wrap64 x + y"])
  then show ?thesis by (simp add: wrap64_def ac_simps)
qed

lemma wrap64_eq_0 [go_int]: "wrap64 x = 0 \<longleftrightarrow> 18446744073709551616 dvd x"
proof -
  have "wrap64 x = 0 \<longleftrightarrow>
      (x + 9223372036854775808) mod 18446744073709551616
        = 9223372036854775808 mod 18446744073709551616"
    by (simp add: wrap64_def)
  also have "\<dots> \<longleftrightarrow> 18446744073709551616 dvd (x + 9223372036854775808) - 9223372036854775808"
    by (rule mod_eq_dvd_iff)
  finally show ?thesis by simp
qed

lemma go_div_nonneg [go_int]: "0 \<le> a \<Longrightarrow> 0 < b \<Longrightarrow> go_div a b = a div b"
  by (cases "a = 0") (auto simp: go_div_def sgn_if)

lemma int64_nonneg_le: "0 \<le> x \<Longrightarrow> x \<le> y \<Longrightarrow> int64 y \<Longrightarrow> int64 x"
  by (auto simp: int64_def)

section \<open>Instants and durations\<close>

text \<open>
  A \<open>time.Time\<close> is the number of nanoseconds since Go's zero instant (so \<open>IsZero\<close> is \<open>= 0\<close>), a \<open>time.Duration\<close> a
  number of nanoseconds. Adding a duration to an instant is exact; \<open>Time.Sub\<close> saturates at
  the range of \<open>Duration\<close>.
\<close>

type_synonym gtime = int
type_synonym duration = int

abbreviation microsecond :: duration where "microsecond \<equiv> 1000"
abbreviation millisecond :: duration where "millisecond \<equiv> 1000000"
abbreviation second :: duration where "second \<equiv> 1000000000"
abbreviation minute :: duration where "minute \<equiv> 60000000000"
abbreviation hour :: duration where "hour \<equiv> 3600000000000"

definition time_sub :: "gtime \<Rightarrow> gtime \<Rightarrow> duration" where
  "time_sub a b = max min_int64 (min max_int64 (a - b))"

definition milliseconds :: "duration \<Rightarrow> int" where
  "milliseconds d = go_div d millisecond"

lemma int64_time_sub [simp]: "int64 (time_sub a b)"
  by (auto simp: time_sub_def int64_def)

lemma time_sub_pos_iff [simp]: "0 < time_sub a b \<longleftrightarrow> b < a"
  by (auto simp: time_sub_def)

lemma time_sub_exact: "int64 (a - b) \<Longrightarrow> time_sub a b = a - b"
  by (auto simp: time_sub_def int64_def)

section \<open>Byte strings\<close>

text \<open>
  A Go string is its bytes, so \<open>length\<close> is \<open>len\<close>. \<open>strings.TrimSpace\<close> removes the runes of
  \<open>unicode.IsSpace\<close>; in UTF-8 these are the encodings below, and because the first byte of an
  encoding is never a continuation byte, removing encodings from either end of the bytes is
  what decoding rune by rune does.
\<close>

definition space_encodings :: "string list" where
  "space_encodings = map (map char_of) ([[9], [10], [11], [12], [13], [32], [0xC2, 0x85], [0xC2, 0xA0],
     [0xE1, 0x9A, 0x80], [0xE2, 0x80, 0xA8], [0xE2, 0x80, 0xA9], [0xE2, 0x80, 0xAF],
     [0xE2, 0x81, 0x9F], [0xE3, 0x80, 0x80 :: nat]] @ map (\<lambda>b. [0xE2, 0x80, b]) [0x80..<0x8B])"

fun strip_prefix :: "string \<Rightarrow> string \<Rightarrow> string option" where
  "strip_prefix [] s = Some s"
| "strip_prefix (p # ps) [] = None"
| "strip_prefix (p # ps) (c # cs) = (if p = c then strip_prefix ps cs else None)"

fun strip_first :: "string list \<Rightarrow> string \<Rightarrow> string option" where
  "strip_first [] s = None"
| "strip_first (e # es) s = (case strip_prefix e s of Some t \<Rightarrow> Some t | None \<Rightarrow> strip_first es s)"

lemma strip_prefix_Some: "strip_prefix p s = Some t \<longleftrightarrow> s = p @ t"
  by (induction p s rule: strip_prefix.induct) auto

lemma strip_first_Some: "strip_first es s = Some t \<Longrightarrow> \<exists>e \<in> set es. s = e @ t"
  by (induction es) (auto simp: strip_prefix_Some split: option.splits)

lemma strip_first_None: "strip_first es s = None \<longleftrightarrow> (\<forall>e \<in> set es. strip_prefix e s = None)"
  by (induction es) (auto split: option.splits)

function trim_with :: "string list \<Rightarrow> string \<Rightarrow> string" where
  "trim_with es s = (case strip_first es s of None \<Rightarrow> s
     | Some t \<Rightarrow> (if length t < length s then trim_with es t else s))"
  by pat_completeness simp
termination
  by (relation "measure (\<lambda>(es, s). length s)") (simp_all only: wf_measure in_measure prod.case)

declare trim_with.simps [simp del]

definition trim_left :: "string \<Rightarrow> string" where
  "trim_left s = trim_with space_encodings s"

definition trim_right :: "string \<Rightarrow> string" where
  "trim_right s = rev (trim_with (map rev space_encodings) (rev s))"

definition trim_space :: "string \<Rightarrow> string" where
  "trim_space s = trim_right (trim_left s)"

text \<open>
  Lower-casing rune by rune: the ASCII letters, and the non-ASCII runes (given by their
  encodings) whose image is ASCII. The image of every other non-ASCII rune is not ASCII; the
  model leaves those bytes as they are, which no comparison with an ASCII literal can tell
  apart from the Go result.
\<close>

definition ascii_lower :: "char \<Rightarrow> char" where
  "ascii_lower c = (let n = of_char c :: nat in if 65 \<le> n \<and> n \<le> 90 then char_of (n + 32) else c)"

fun match_encoding :: "(string \<times> char) list \<Rightarrow> string \<Rightarrow> (char \<times> string) option" where
  "match_encoding [] s = None"
| "match_encoding ((e, r) # es) s =
     (case strip_prefix e s of Some t \<Rightarrow> Some (r, t) | None \<Rightarrow> match_encoding es s)"

function lower_with :: "(string \<times> char) list \<Rightarrow> string \<Rightarrow> string" where
  "lower_with tbl [] = []"
| "lower_with tbl (c # cs) =
     (case match_encoding tbl (c # cs) of
        Some (r, t) \<Rightarrow> (if length t \<le> length cs then r # lower_with tbl t else c # cs)
      | None \<Rightarrow> ascii_lower c # lower_with tbl cs)"
  by pat_completeness auto
termination
  by (relation "measure (\<lambda>(tbl, s). length s)") auto

text \<open>
  \<open>strings.ToLower\<close>: the Kelvin sign (U+212A) and the dotted capital I (U+0130) are the two
  non-ASCII runes with an ASCII lower case. The case folding of \<open>encoding/json\<close> on object
  keys identifies the Kelvin sign with k and the long s (U+017F) with s.
\<close>

definition kelvin_bytes :: string where
  "kelvin_bytes = map char_of [0xE2, 0x84, 0xAA :: nat]"

definition dotted_i_bytes :: string where
  "dotted_i_bytes = map char_of [0xC4, 0xB0 :: nat]"

definition long_s_bytes :: string where
  "long_s_bytes = map char_of [0xC5, 0xBF :: nat]"

definition to_lower :: "string \<Rightarrow> string" where
  "to_lower s = lower_with [(kelvin_bytes, CHR ''k''), (dotted_i_bytes, CHR ''i'')] s"

definition fold_name :: "string \<Rightarrow> string" where
  "fold_name s = lower_with [(kelvin_bytes, CHR ''k''), (long_s_bytes, CHR ''s'')] s"

definition has_prefix :: "string \<Rightarrow> string \<Rightarrow> bool" where
  "has_prefix s p \<longleftrightarrow> strip_prefix p s \<noteq> None"

text \<open>\<open>strings.ReplaceAll\<close> with a one-byte pattern, and \<open>strings.Cut\<close> at a byte.\<close>

definition replace_byte :: "char \<Rightarrow> string \<Rightarrow> string \<Rightarrow> string" where
  "replace_byte c r s = concat (map (\<lambda>x. if x = c then r else [x]) s)"

definition cut_at :: "char \<Rightarrow> string \<Rightarrow> string \<times> string \<times> bool" where
  "cut_at c s = (takeWhile (\<lambda>x. x \<noteq> c) s, drop 1 (dropWhile (\<lambda>x. x \<noteq> c) s), c \<in> set s)"

declare space_encodings_def [go_string] trim_left_def [go_string] trim_right_def [go_string]
  trim_space_def [go_string] trim_with.simps [go_string] ascii_lower_def [go_string]
  kelvin_bytes_def [go_string] dotted_i_bytes_def [go_string] long_s_bytes_def [go_string]
  to_lower_def [go_string] fold_name_def [go_string] has_prefix_def [go_string]
  replace_byte_def [go_string] cut_at_def [go_string]

lemma trim_with_None: "strip_first es s = None \<Longrightarrow> trim_with es s = s"
  by (simp add: trim_with.simps [of es s])

lemma trim_with_Some:
  "strip_first es s = Some t \<Longrightarrow> length t < length s \<Longrightarrow> trim_with es s = trim_with es t"
  by (simp add: trim_with.simps [of es s])

lemma trim_with_stop:
  "strip_first es s = Some t \<Longrightarrow> \<not> length t < length s \<Longrightarrow> trim_with es s = s"
  by (simp add: trim_with.simps [of es s])

lemma trim_with_suffix: "suffix (trim_with es s) s"
proof (induction es s rule: trim_with.induct)
  case (1 es s)
  show ?case
  proof (cases "strip_first es s")
    case None
    then show ?thesis by (simp add: trim_with_None)
  next
    case (Some t)
    then obtain e where "s = e @ t" using strip_first_Some by blast
    then have t: "suffix t s" by (simp add: suffix_def)
    show ?thesis
    proof (cases "length t < length s")
      case True
      with "1.IH" [OF Some] have "suffix (trim_with es t) t" by blast
      from this t have "suffix (trim_with es t) s" by (rule suffix_order.trans)
      then show ?thesis by (simp only: trim_with_Some [OF Some True])
    next
      case False
      then show ?thesis by (simp only: trim_with_stop [OF Some False] suffix_order.refl)
    qed
  qed
qed

lemma trim_with_no_prefix:
  assumes "e \<in> set es" and "\<forall>x \<in> set es. x \<noteq> []"
  shows "strip_prefix e (trim_with es s) = None"
  using assms
proof (induction es s rule: trim_with.induct)
  case (1 es s)
  show ?case
  proof (cases "strip_first es s")
    case None
    with "1.prems" have "strip_prefix e s = None" by (simp only: strip_first_None)
    then show ?thesis by (simp only: trim_with_None [OF None])
  next
    case (Some t)
    then obtain x where "x \<in> set es" "s = x @ t" using strip_first_Some by blast
    with "1.prems"(2) have len: "length t < length s" by simp
    from "1.IH" [OF Some len "1.prems"] show ?thesis
      by (simp only: trim_with_Some [OF Some len])
  qed
qed

lemma trim_space_sublist: "sublist (trim_space s) s"
proof -
  have left: "suffix (trim_left s) s"
    unfolding trim_left_def by (rule trim_with_suffix)
  have "suffix (trim_with (map rev space_encodings) (rev (trim_left s))) (rev (trim_left s))"
    by (rule trim_with_suffix)
  then have "prefix (trim_space s) (trim_left s)"
    unfolding trim_space_def trim_right_def by (simp add: suffix_to_prefix)
  with left show ?thesis
    by (meson prefix_imp_sublist sublist_order.order.trans suffix_imp_sublist)
qed

lemma length_trim_space: "length (trim_space s) \<le> length s"
  using sublist_length_le [OF trim_space_sublist] .

text \<open>A string that begins and ends with visible ASCII characters has nothing to trim.\<close>

definition graph_char :: "char \<Rightarrow> bool" where
  "graph_char c \<longleftrightarrow> 33 \<le> (of_char c :: nat) \<and> (of_char c :: nat) < 128"

lemma space_encodings_ends: "\<forall>e \<in> set space_encodings. e \<noteq> [] \<and> \<not> graph_char (hd e) \<and> \<not> graph_char (last e)"
  unfolding space_encodings_def by (simp add: graph_char_def)

lemma trim_with_graph:
  assumes "\<forall>e \<in> set es. e \<noteq> [] \<and> \<not> graph_char (hd e)" and "s = [] \<or> graph_char (hd s)"
  shows "trim_with es s = s"
proof (rule trim_with_None)
  have "strip_prefix e s = None" if "e \<in> set es" for e
  proof (rule ccontr)
    assume "strip_prefix e s \<noteq> None"
    then obtain t where "s = e @ t" using strip_prefix_Some by blast
    with assms that show False by (cases e) auto
  qed
  then show "strip_first es s = None" by (simp add: strip_first_None)
qed

lemma trim_space_graph:
  assumes "s = [] \<or> graph_char (hd s) \<and> graph_char (last s)"
  shows "trim_space s = s"
proof -
  have "trim_left s = s" unfolding trim_left_def
    using assms space_encodings_ends by (intro trim_with_graph) auto
  moreover have "trim_with (map rev space_encodings) (rev s) = rev s"
    using assms space_encodings_ends by (intro trim_with_graph) (auto simp: hd_rev)
  ultimately show ?thesis by (simp add: trim_space_def trim_right_def)
qed

text \<open>Most texts have nothing to trim: evaluation looks at both ends first.\<close>

lemma trim_space_code [code]:
  "trim_space s = (if s = [] \<or> graph_char (hd s) \<and> graph_char (last s) then s else trim_right (trim_left s))"
  using trim_space_graph [of s] by (auto simp: trim_space_def)

lemma set_replace_byte_Nil [simp]: "set (replace_byte c [] s) = set s - {c}"
  by (induction s) (auto simp: replace_byte_def)

section \<open>Decimal numbers\<close>

text \<open>\<open>strconv\<close>: printing an integer and \<open>ParseInt(s, 10, 64)\<close> on the literals of JSON.\<close>

definition digit_char :: "nat \<Rightarrow> char" where
  "digit_char d = char_of (48 + d)"

fun show_nat :: "nat \<Rightarrow> string" where
  "show_nat n = (if n < 10 then [digit_char n] else show_nat (n div 10) @ [digit_char (n mod 10)])"

declare show_nat.simps [simp del]

definition show_int :: "int \<Rightarrow> string" where
  "show_int i = (if i < 0 then CHR ''-'' # show_nat (nat (- i)) else show_nat (nat i))"

definition is_digit :: "char \<Rightarrow> bool" where
  "is_digit c \<longleftrightarrow> 48 \<le> (of_char c :: nat) \<and> (of_char c :: nat) \<le> 57"

definition digit_val :: "char \<Rightarrow> nat" where
  "digit_val c = of_char c - 48"

definition digits_val :: "string \<Rightarrow> nat" where
  "digits_val s = foldl (\<lambda>acc c. 10 * acc + digit_val c) 0 s"

definition parse_nat :: "string \<Rightarrow> nat option" where
  "parse_nat s = (if s \<noteq> [] \<and> list_all is_digit s then Some (digits_val s) else None)"

definition parse_int64 :: "string \<Rightarrow> int option" where
  "parse_int64 s =
     (case s of
        [] \<Rightarrow> None
      | c # cs \<Rightarrow>
          (case (if c = CHR ''-'' then map_option (\<lambda>n. - int n) (parse_nat cs)
                 else map_option int (parse_nat s)) of
             None \<Rightarrow> None
           | Some i \<Rightarrow> (if int64 i then Some i else None)))"

lemma digit_char_facts:
  assumes "d < 10"
  shows "is_digit (digit_char d)" and "digit_val (digit_char d) = d" and "digit_char d \<noteq> CHR ''-''"
proof -
  have n: "of_char (digit_char d) = (48 + d :: nat)" using assms by (simp add: digit_char_def)
  then show "is_digit (digit_char d)" "digit_val (digit_char d) = d"
    using assms by (simp_all add: is_digit_def digit_val_def)
  from n show "digit_char d \<noteq> CHR ''-''" by auto
qed

lemma digits_val_snoc: "digits_val (s @ [c]) = 10 * digits_val s + digit_val c"
  by (simp add: digits_val_def)

lemma show_nat_facts:
  "show_nat n \<noteq> [] \<and> list_all is_digit (show_nat n) \<and> digits_val (show_nat n) = n
   \<and> hd (show_nat n) \<noteq> CHR ''-''"
proof (induction n rule: show_nat.induct)
  case (1 n)
  show ?case
  proof (cases "n < 10")
    case True
    then show ?thesis
      by (simp add: show_nat.simps [of n] digit_char_facts digits_val_def)
  next
    case False
    with 1 have IH: "show_nat (n div 10) \<noteq> []" "list_all is_digit (show_nat (n div 10))"
      "digits_val (show_nat (n div 10)) = n div 10" "hd (show_nat (n div 10)) \<noteq> CHR ''-''"
      by blast+
    with False show ?thesis
      by (simp add: show_nat.simps [of n] digit_char_facts digits_val_snoc)
  qed
qed

lemma parse_nat_show_nat [simp]: "parse_nat (show_nat n) = Some n"
  using show_nat_facts [of n] by (simp add: parse_nat_def)

lemma parse_show_int:
  assumes "int64 i" shows "parse_int64 (show_int i) = Some i"
proof (cases "i < 0")
  case True
  with assms show ?thesis by (simp add: show_int_def parse_int64_def)
next
  case False
  obtain c cs where "show_nat (nat i) = c # cs" and "c \<noteq> CHR ''-''"
    using show_nat_facts [of "nat i"] by (cases "show_nat (nat i)") auto
  moreover have "parse_nat (show_nat (nat i)) = Some (nat i)" by simp
  ultimately show ?thesis using False assms by (simp add: show_int_def parse_int64_def)
qed

end
