(* ===== verification/Go_Json.thy ===== *)
theory Go_Json
  imports Go_Prelude
begin

text \<open>
  UTF-8 decoding as \<open>utf8.DecodeRune\<close> does it, and the JSON values of \<open>encoding/json\<close>: a
  decoded \<open>any\<close> is a \<open>json\<close> tree, a \<open>map[string]any\<close> an association list in the order in
  which a \<open>range\<close> loop visits it (Go leaves that order open, so statements over an
  arbitrary list hold for every order). Numbers keep the text \<open>json.Number\<close> carries.
\<close>

section \<open>Runes\<close>

definition cont_byte :: "nat \<Rightarrow> bool" where
  "cont_byte b \<longleftrightarrow> 0x80 \<le> b \<and> b \<le> 0xBF"

definition rune_error :: nat where
  "rune_error = 0xFFFD"

fun decode_bytes :: "nat list \<Rightarrow> nat \<times> nat" where
  "decode_bytes [] = (rune_error, 0)"
| "decode_bytes (b0 # bs) =
     (if b0 < 0x80 then (b0, 1)
      else if 0xC2 \<le> b0 \<and> b0 \<le> 0xDF then
        (case bs of b1 # _ \<Rightarrow>
           (if cont_byte b1 then ((b0 - 0xC0) * 0x40 + (b1 - 0x80), 2) else (rune_error, 1))
         | [] \<Rightarrow> (rune_error, 1))
      else if 0xE0 \<le> b0 \<and> b0 \<le> 0xEF then
        (case bs of b1 # b2 # _ \<Rightarrow>
           (if cont_byte b1 \<and> cont_byte b2 \<and> (b0 = 0xE0 \<longrightarrow> 0xA0 \<le> b1) \<and> (b0 = 0xED \<longrightarrow> b1 \<le> 0x9F)
            then ((b0 - 0xE0) * 0x1000 + (b1 - 0x80) * 0x40 + (b2 - 0x80), 3) else (rune_error, 1))
         | _ \<Rightarrow> (rune_error, 1))
      else if 0xF0 \<le> b0 \<and> b0 \<le> 0xF4 then
        (case bs of b1 # b2 # b3 # _ \<Rightarrow>
           (if cont_byte b1 \<and> cont_byte b2 \<and> cont_byte b3 \<and> (b0 = 0xF0 \<longrightarrow> 0x90 \<le> b1)
               \<and> (b0 = 0xF4 \<longrightarrow> b1 \<le> 0x8F)
            then ((b0 - 0xF0) * 0x40000 + (b1 - 0x80) * 0x1000 + (b2 - 0x80) * 0x40 + (b3 - 0x80), 4)
            else (rune_error, 1))
         | _ \<Rightarrow> (rune_error, 1))
      else (rune_error, 1))"

definition decode_rune :: "string \<Rightarrow> nat \<times> nat" where
  "decode_rune s = decode_bytes (map of_char (take 4 s))"

lemma decode_bytes_size: "bs \<noteq> [] \<Longrightarrow> 0 < snd (decode_bytes bs) \<and> snd (decode_bytes bs) \<le> length bs"
  by (cases bs) (auto split: list.splits)

lemma decode_rune_size: "s \<noteq> [] \<Longrightarrow> 0 < snd (decode_rune s) \<and> snd (decode_rune s) \<le> length s"
  using decode_bytes_size [of "map of_char (take 4 s)"] by (auto simp: decode_rune_def)

text \<open>A \<open>for range\<close> loop over a string and the conversion \<open>[]rune(s)\<close> see these runes.\<close>

function runes :: "string \<Rightarrow> nat list" where
  "runes s = (if s = [] then [] else fst (decode_rune s) # runes (drop (snd (decode_rune s)) s))"
  by pat_completeness simp
termination
proof (relation "measure length")
  show "wf (measure length)" by (rule wf_measure)
  fix s :: string
  assume "s \<noteq> []"
  with decode_rune_size [OF this]
  show "(drop (snd (decode_rune s)) s, s) \<in> measure length" by simp
qed

declare runes.simps [simp del]

lemma runes_Nil [simp]: "runes [] = []"
  by (simp add: runes.simps)

lemma runes_ascii: "of_char c < (0x80 :: nat) \<Longrightarrow> runes (c # s) = of_char c # runes s"
  by (subst runes.simps) (simp add: decode_rune_def)

section \<open>JSON values\<close>

datatype json =
    JNull
  | JBool bool
  | JNumber string
  | JString string
  | JArray "json list"
  | JObject "(string \<times> json) list"

type_synonym json_map = "(string \<times> json) list"

text \<open>A Go map holds a key once: the objects of a decoded value have distinct keys.\<close>

fun wf_json :: "json \<Rightarrow> bool" where
  "wf_json (JArray xs) \<longleftrightarrow> list_all wf_json xs"
| "wf_json (JObject kvs) \<longleftrightarrow> distinct (map fst kvs) \<and> list_all wf_json (map snd kvs)"
| "wf_json _ \<longleftrightarrow> True"

definition has_key :: "('k \<times> 'v) list \<Rightarrow> 'k \<Rightarrow> bool" where
  "has_key m k \<longleftrightarrow> map_of m k \<noteq> None"

text \<open>Indexing a \<open>map[string]any\<close> with an absent key gives \<open>nil\<close>.\<close>

definition get_any :: "json_map \<Rightarrow> string \<Rightarrow> json" where
  "get_any m k = (case map_of m k of Some v \<Rightarrow> v | None \<Rightarrow> JNull)"

lemma has_key_iff: "has_key m k \<longleftrightarrow> k \<in> fst ` set m"
  by (simp add: has_key_def map_of_eq_None_iff)

lemma map_of_perm:
  assumes "mset m = mset m'" and "distinct (map fst m)"
  shows "map_of m = map_of m'"
proof (rule map_of_inject_set [THEN iffD2])
  show "distinct (map fst m)" by fact
  have "mset (map fst m) = mset (map fst m')" using assms(1) by simp
  with assms(2) show "distinct (map fst m')" by (metis mset_eq_imp_distinct_iff)
  show "set m = set m'" using assms(1) by (rule mset_eq_setD)
qed

section \<open>Encoding\<close>

definition hex_digit :: "nat \<Rightarrow> char" where
  "hex_digit n = ''0123456789abcdef'' ! (n mod 16)"

definition escape_ascii :: "nat \<Rightarrow> string" where
  "escape_ascii b =
     (if b = 0x5C \<or> b = 0x22 then [CHR 0x5C, char_of b]
      else if b = 8 then [CHR 0x5C, CHR ''b'']
      else if b = 12 then [CHR 0x5C, CHR ''f'']
      else if b = 10 then [CHR 0x5C, CHR ''n'']
      else if b = 13 then [CHR 0x5C, CHR ''r'']
      else if b = 9 then [CHR 0x5C, CHR ''t'']
      else if b < 0x20 \<or> b = 0x3C \<or> b = 0x3E \<or> b = 0x26
        then CHR 0x5C # ''u00'' @ [hex_digit (b div 16), hex_digit b]
      else [char_of b])"

function json_escape :: "string \<Rightarrow> string" where
  "json_escape s = (if s = [] then []
     else (let (r, n) = decode_rune s in
       (if of_char (hd s) < (0x80 :: nat) then escape_ascii (of_char (hd s))
        else if r = rune_error \<and> n = 1 then CHR 0x5C # ''ufffd''
        else if r = 0x2028 \<or> r = 0x2029 then CHR 0x5C # ''u202'' @ [hex_digit r]
        else take n s) @ json_escape (drop (snd (decode_rune s)) s)))"
  by pat_completeness simp
termination
proof (relation "measure length")
  show "wf (measure length)" by (rule wf_measure)
  fix s :: string
  assume "s \<noteq> []"
  with decode_rune_size [OF this]
  show "(drop (snd (decode_rune s)) s, s) \<in> measure length" by simp
qed

declare json_escape.simps [simp del]

definition json_quote :: "string \<Rightarrow> string" where
  "json_quote s = CHR 0x22 # json_escape s @ [CHR 0x22]"

definition join_with :: "string \<Rightarrow> string list \<Rightarrow> string" where
  "join_with sep xs = (case xs of [] \<Rightarrow> [] | x # rest \<Rightarrow> x @ concat (map (\<lambda>y. sep @ y) rest))"

text \<open>\<open>json.Marshal\<close> writes the keys of a map in increasing byte order.\<close>

fun json_marshal :: "json \<Rightarrow> string" where
  "json_marshal JNull = ''null''"
| "json_marshal (JBool b) = (if b then ''true'' else ''false'')"
| "json_marshal (JNumber n) = n"
| "json_marshal (JString s) = json_quote s"
| "json_marshal (JArray xs) = ''['' @ join_with '','' (map json_marshal xs) @ '']''"
| "json_marshal (JObject kvs) = ''{'' @ join_with '',''
     (map (\<lambda>(k, t). json_quote k @ '':'' @ t)
       (sort_key fst (map (\<lambda>(k, v). (k, json_marshal v)) kvs))) @ ''}''"

end
