(* ===== verification/Go_Float.thy ===== *)
theory Go_Float
  imports Go_Prelude "HOL-Library.Log_Nat" Complex_Main
begin

text \<open>
  The binary64 arithmetic of Go's \<open>float64\<close>: a value is not a number, an infinity or a
  rational, and every operation rounds its exact rational result to the nearest value with a
  53-bit significand, ties to even, with gradual underflow and overflow to infinity. The two
  zeros are identified; no modelled operation divides by a zero or reads its sign.
\<close>

datatype float64 = NaN | PosInf | NegInf | Fin rat

section \<open>Rounding\<close>

definition rhe :: "rat \<Rightarrow> int" where
  "rhe x = (let f = \<lfloor>x\<rfloor>; d = x - of_int f in
     if d < 1/2 then f else if 1/2 < d then f + 1 else if even f then f else f + 1)"

definition ilog2 :: "rat \<Rightarrow> int" where
  "ilog2 r = (let (n, d) = quotient_of r;
                  k = int (floorlog 2 (nat n)) - int (floorlog 2 (nat d))
              in if 2 powi k \<le> r then k else k - 1)"

definition f64_quantum :: "rat \<Rightarrow> rat" where
  "f64_quantum r = 2 powi (max (ilog2 r - 52) (- 1074))"

definition f64_round :: "rat \<Rightarrow> float64" where
  "f64_round r =
     (if r = 0 then Fin 0
      else let q = f64_quantum \<bar>r\<bar>; v = of_int (rhe (\<bar>r\<bar> / q)) * q
           in if 2 ^ 1024 \<le> v then (if 0 < r then PosInf else NegInf) else Fin (sgn r * v))"

section \<open>Operations\<close>

fun f64_neg :: "float64 \<Rightarrow> float64" where
  "f64_neg NaN = NaN"
| "f64_neg PosInf = NegInf"
| "f64_neg NegInf = PosInf"
| "f64_neg (Fin a) = Fin (- a)"

definition inf_of :: "bool \<Rightarrow> float64" where
  "inf_of pos = (if pos then PosInf else NegInf)"

fun f64_add :: "float64 \<Rightarrow> float64 \<Rightarrow> float64" where
  "f64_add (Fin a) (Fin b) = f64_round (a + b)"
| "f64_add NaN y = NaN"
| "f64_add x NaN = NaN"
| "f64_add PosInf NegInf = NaN"
| "f64_add NegInf PosInf = NaN"
| "f64_add PosInf y = PosInf"
| "f64_add NegInf y = NegInf"
| "f64_add (Fin a) y = y"

fun f64_sign :: "float64 \<Rightarrow> int" where
  "f64_sign NaN = 0"
| "f64_sign PosInf = 1"
| "f64_sign NegInf = - 1"
| "f64_sign (Fin a) = (if 0 < a then 1 else if a < 0 then - 1 else 0)"

definition f64_mul :: "float64 \<Rightarrow> float64 \<Rightarrow> float64" where
  "f64_mul x y = (case (x, y) of
     (Fin a, Fin b) \<Rightarrow> f64_round (a * b)
   | _ \<Rightarrow> (if x = NaN \<or> y = NaN \<or> f64_sign x * f64_sign y = 0 then NaN
           else inf_of (0 < f64_sign x * f64_sign y)))"

text \<open>Division by a finite non-zero number, the only division the code performs.\<close>

fun f64_div_by :: "float64 \<Rightarrow> rat \<Rightarrow> float64" where
  "f64_div_by (Fin a) b = f64_round (a / b)"
| "f64_div_by x b = (if 0 < b then x else f64_neg x)"

definition f64_of_int :: "int \<Rightarrow> float64" where
  "f64_of_int i = f64_round (of_int i)"

text \<open>\<open>math.Floor\<close> and \<open>math.Round\<close> (halves away from zero) are exact on binary64 values.\<close>

fun math_floor :: "float64 \<Rightarrow> float64" where
  "math_floor (Fin a) = Fin (of_int \<lfloor>a\<rfloor>)"
| "math_floor x = x"

definition round_away :: "rat \<Rightarrow> int" where
  "round_away a = (if 0 \<le> a then \<lfloor>a + 1/2\<rfloor> else - \<lfloor>- a + 1/2\<rfloor>)"

fun math_round :: "float64 \<Rightarrow> float64" where
  "math_round (Fin a) = Fin (of_int (round_away a))"
| "math_round x = x"

fun f64_less :: "float64 \<Rightarrow> float64 \<Rightarrow> bool" where
  "f64_less (Fin a) (Fin b) \<longleftrightarrow> a < b"
| "f64_less NegInf (Fin b) \<longleftrightarrow> True"
| "f64_less NegInf PosInf \<longleftrightarrow> True"
| "f64_less (Fin a) PosInf \<longleftrightarrow> True"
| "f64_less x y \<longleftrightarrow> False"

definition is_inf :: "float64 \<Rightarrow> bool" where
  "is_inf x \<longleftrightarrow> x = PosInf \<or> x = NegInf"

text \<open>\<open>int64(f)\<close> for a finite \<open>f\<close> in range truncates; out of range the result is the
  implementation's and the callers here never reach it.\<close>

definition f64_to_int64 :: "float64 \<Rightarrow> int" where
  "f64_to_int64 x = (case x of Fin a \<Rightarrow> (if 0 \<le> a then \<lfloor>a\<rfloor> else \<lceil>a\<rceil>) | _ \<Rightarrow> min_int64)"

section \<open>Facts on rounding\<close>

lemma rhe_of_int [simp]: "rhe (of_int i) = i"
  by (simp add: rhe_def)

lemma rhe_lower:
  assumes "of_int a \<le> x" shows "a \<le> rhe x"
proof -
  from assms have "a \<le> \<lfloor>x\<rfloor>" by (simp add: le_floor_iff)
  then show ?thesis by (auto simp: rhe_def Let_def)
qed

lemma rhe_upper:
  assumes "x \<le> of_int b" shows "rhe x \<le> b"
proof (cases "x = of_int b")
  case True
  then show ?thesis by simp
next
  case False
  with assms have "\<lfloor>x\<rfloor> < b" by (simp add: floor_less_iff)
  then show ?thesis by (auto simp: rhe_def Let_def)
qed

lemma ilog2_bounds:
  assumes "0 < r"
  shows "2 powi (ilog2 r) \<le> r" and "r < 2 powi (ilog2 r + 1)"
proof -
  obtain n d where nd: "quotient_of r = (n, d)" by fastforce
  then have d: "0 < d" and r: "r = of_int n / of_int d"
    by (auto simp: quotient_of_denom_pos quotient_of_div)
  with assms have n: "0 < n" by (simp add: zero_less_divide_iff)
  define a where "a = floorlog 2 (nat n)"
  define b where "b = floorlog 2 (nat d)"
  have fl: "2 ^ (floorlog 2 m - 1) \<le> m \<and> m < 2 ^ floorlog 2 m \<and> 0 < floorlog 2 m" if "0 < m" for m :: nat
    using that floorlog_bounds [of m 2] by (auto simp: floorlog_def)
  from fl [of "nat n"] n have a: "2 ^ (a - 1) \<le> nat n" "nat n < 2 ^ a" "0 < a" by (auto simp: a_def)
  from fl [of "nat d"] d have b: "2 ^ (b - 1) \<le> nat d" "nat d < 2 ^ b" "0 < b" by (auto simp: b_def)
  have n1: "(2::rat) ^ (a - 1) \<le> of_int n" and n2: "of_int n < (2::rat) ^ a"
    and d1: "(2::rat) ^ (b - 1) \<le> of_int d" and d2: "of_int d < (2::rat) ^ b"
    using a(1,2) b(1,2) n d
    by (metis of_nat_le_iff of_nat_less_iff of_nat_numeral of_nat_power of_nat_nat less_imp_le)+
  define k where "k = int a - int b"
  have upper: "r < 2 powi (k + 1)"
  proof -
    have "r \<le> of_int n / 2 ^ (b - 1)" unfolding r using n d d1 by (intro divide_left_mono) auto
    also have "\<dots> < 2 ^ a / 2 ^ (b - 1)" using n2 by (simp add: divide_strict_right_mono)
    also have "\<dots> = (2::rat) powi (int a - int (b - 1))"
      by (simp add: power_int_diff)
    also have "int a - int (b - 1) = k + 1" using b(3) by (simp add: k_def of_nat_diff)
    finally show ?thesis .
  qed
  have lower: "2 powi (k - 1) \<le> r"
  proof -
    have "k - 1 = int (a - 1) - int b" using a(3) by (simp add: k_def of_nat_diff)
    then have "(2::rat) powi (k - 1) = 2 ^ (a - 1) / 2 ^ b"
      by (simp only:) (simp add: power_int_diff)
    also have "\<dots> \<le> of_int n / 2 ^ b" using n1 by (simp add: divide_right_mono)
    also have "\<dots> \<le> r" unfolding r using n d2 d by (intro divide_left_mono) auto
    finally show ?thesis .
  qed
  have il: "ilog2 r = (if 2 powi k \<le> r then k else k - 1)"
    by (simp add: ilog2_def nd k_def a_def b_def)
  show "2 powi (ilog2 r) \<le> r" using lower by (simp add: il)
  show "r < 2 powi (ilog2 r + 1)" using upper by (simp add: il)
qed

lemma ilog2_le:
  assumes "0 < r" and "r < 2 ^ n" shows "ilog2 r < int n"
proof (rule ccontr)
  assume "\<not> ilog2 r < int n"
  then have "(2::rat) powi int n \<le> 2 powi (ilog2 r)" by (intro power_int_increasing) auto
  with ilog2_bounds(1) [OF assms(1)] assms(2) show False by simp
qed

lemma f64_quantum_pos [simp]: "0 < f64_quantum r"
  by (simp add: f64_quantum_def)

lemma f64_round_nonneg:
  assumes "0 \<le> r"
  shows "f64_round r = PosInf \<or> (\<exists>v \<ge> 0. f64_round r = Fin v)"
proof (cases "r = 0")
  case True
  then show ?thesis by (simp add: f64_round_def)
next
  case False
  with assms have r: "0 < r" by simp
  have "0 \<le> rhe (\<bar>r\<bar> / f64_quantum \<bar>r\<bar>)" by (rule rhe_lower) (simp add: less_imp_le)
  then have "0 \<le> of_int (rhe (\<bar>r\<bar> / f64_quantum \<bar>r\<bar>)) * f64_quantum \<bar>r\<bar>"
    by (simp add: less_imp_le)
  with r show ?thesis by (auto simp: f64_round_def Let_def)
qed

text \<open>Below \<open>2^53\<close> the quantum divides every integer, so rounding never crosses one.\<close>

lemma f64_round_between:
  assumes "0 \<le> a" and "of_int a \<le> r" and "r \<le> of_int b" and "b < 2 ^ 53"
  shows "\<exists>v. f64_round r = Fin v \<and> of_int a \<le> v \<and> v \<le> of_int b"
proof (cases "r = 0")
  case True
  with assms show ?thesis by (auto simp: f64_round_def)
next
  case False
  from assms(1,2) have "0 \<le> r" by (meson of_int_0_le_iff order_trans)
  with False have r: "0 < r" by simp
  define e where "e = max (ilog2 r - 52) (- 1074)"
  have "(of_int b :: rat) < of_int (2 ^ 53)" using assms(4) by (simp only: of_int_less_iff)
  then have "(of_int b :: rat) < 2 ^ 53" by simp
  then have "r < 2 ^ 53" using assms(3) by linarith
  from ilog2_le [OF r this] have e0: "e \<le> 0" by (simp add: e_def)
  define m where "m = nat (- e)"
  have q: "f64_quantum r = 1 / 2 ^ m"
    using e0 by (simp add: f64_quantum_def e_def [symmetric] m_def power_int_def field_simps)
  have div: "of_int i / f64_quantum r = of_int (i * 2 ^ m)" for i :: int by (simp add: q)
  have "of_int (a * 2 ^ m) \<le> r / f64_quantum r" and "r / f64_quantum r \<le> of_int (b * 2 ^ m)"
    using assms(2,3) by (simp_all add: q mult_right_mono)
  then have *: "a * 2 ^ m \<le> rhe (r / f64_quantum r)" "rhe (r / f64_quantum r) \<le> b * 2 ^ m"
    by (auto intro: rhe_lower rhe_upper)
  define v where "v = of_int (rhe (r / f64_quantum r)) * f64_quantum r"
  have "of_int (a * 2 ^ m) * f64_quantum r \<le> v" and "v \<le> of_int (b * 2 ^ m) * f64_quantum r"
    unfolding v_def using * by (auto intro!: mult_right_mono simp: less_imp_le simp flip: of_int_mult of_int_power)
  then have v: "of_int a \<le> v" "v \<le> of_int b" by (simp_all add: q)
  have "v < 2 ^ 1024"
  proof -
    have "(2::rat) ^ 53 \<le> 2 ^ 1024" by (intro power_increasing) auto
    with v(2) \<open>of_int b < 2 ^ 53\<close> show ?thesis by linarith
  qed
  with r v show ?thesis by (auto simp: f64_round_def Let_def v_def)
qed

lemma f64_round_int:
  assumes "0 \<le> i" and "i < 2 ^ 53" shows "f64_round (of_int i) = Fin (of_int i)"
  using f64_round_between [of i "of_int i" i] assms by (auto intro: antisym)

lemma f64_round_finite:
  assumes "0 \<le> r" and "r \<le> 2 ^ n" and "n \<le> 1023"
  shows "\<exists>v \<ge> 0. f64_round r = Fin v"
proof (cases "r = 0")
  case True
  then show ?thesis by (simp add: f64_round_def)
next
  case False
  with assms have r: "0 < r" by simp
  have "r < 2 ^ Suc n"
  proof -
    have "(2::rat) ^ n < 2 ^ Suc n" by simp
    with assms(2) show ?thesis by linarith
  qed
  from ilog2_le [OF r this] have il: "ilog2 r \<le> int n" by simp
  define e where "e = max (ilog2 r - 52) (- 1074)"
  have e: "e \<le> int n" using il by (simp add: e_def)
  have q: "f64_quantum r = 2 powi e" by (simp add: f64_quantum_def e_def)
  have "2 ^ n / f64_quantum r = 2 powi (int n - e)" by (simp add: q power_int_diff)
  also have "\<dots> = of_int (2 ^ nat (int n - e))" using e by (simp add: power_int_def)
  finally have pn: "2 ^ n / f64_quantum r = of_int (2 ^ nat (int n - e))" .
  have "r / f64_quantum r \<le> of_int (2 ^ nat (int n - e))"
    using assms(2) by (simp only: pn [symmetric]) (simp add: divide_right_mono less_imp_le)
  then have "rhe (r / f64_quantum r) \<le> 2 ^ nat (int n - e)" by (rule rhe_upper)
  then have "of_int (rhe (r / f64_quantum r)) \<le> 2 ^ n / f64_quantum r" by (simp only: pn of_int_le_iff)
  then have "of_int (rhe (r / f64_quantum r)) * f64_quantum r \<le> 2 ^ n" by (simp add: pos_le_divide_eq)
  also have "(2::rat) ^ n < 2 ^ 1024" using assms(3) by (intro power_strict_increasing) auto
  finally have "f64_round r \<noteq> PosInf" using r by (simp add: f64_round_def Let_def)
  with f64_round_nonneg [OF assms(1)] show ?thesis by blast
qed

lemma round_away_nonneg: "0 \<le> a \<Longrightarrow> 0 \<le> round_away a"
  by (simp add: round_away_def)

end
