(* ===== verification/Retry.thy ===== *)
theory Retry
  imports Go_Json Go_Float
begin

text \<open>
  The package \<open>internal/retry\<close>: the recovery policy with its validation and its JSON form,
  the classification of a failed provider attempt, and the back-off delay. JSON enters and
  leaves as a \<open>json\<close> tree (the text layer is \<open>encoding/json\<close>'s); in an incoming object the
  association list is the document order and may repeat a key, as a document may.
\<close>

section \<open>Errors\<close>

text \<open>
  A Go error value: the two context errors, an error made of a text, a wrapping error
  (\<open>fmt.Errorf\<close> with \<open>%w\<close>), and \<open>*retry.ProviderError\<close>, whose \<open>Unwrap\<close> is its \<open>Err\<close>.
\<close>

type_synonym category = string

datatype go_error =
    ErrCanceled
  | ErrDeadlineExceeded
  | ErrText string
  | ErrWrap string go_error
  | ErrProvider (pe_err: "go_error option") (pe_category: category) (pe_code: string)
      (pe_type: string) (pe_request_id: string) (pe_raw: string) (pe_status: int)
      (pe_retry_after: duration)

fun errors_is :: "go_error \<Rightarrow> go_error \<Rightarrow> bool" where
  "errors_is (ErrWrap m e) t \<longleftrightarrow> ErrWrap m e = t \<or> errors_is e t"
| "errors_is (ErrProvider (Some e) c d ty i r s a) t \<longleftrightarrow>
     ErrProvider (Some e) c d ty i r s a = t \<or> errors_is e t"
| "errors_is e t \<longleftrightarrow> e = t"

fun errors_as_provider :: "go_error \<Rightarrow> go_error option" where
  "errors_as_provider (ErrWrap m e) = errors_as_provider e"
| "errors_as_provider (ErrProvider e c d ty i r s a) = Some (ErrProvider e c d ty i r s a)"
| "errors_as_provider _ = None"

fun error_text :: "go_error \<Rightarrow> string" where
  "error_text ErrCanceled = ''context canceled''"
| "error_text ErrDeadlineExceeded = ''context deadline exceeded''"
| "error_text (ErrText m) = m"
| "error_text (ErrWrap m e) = m"
| "error_text (ErrProvider (Some e) c d ty i r s a) = error_text e"
| "error_text (ErrProvider None c d ty i r s a) =
     (if d \<noteq> [] then d
      else if s \<noteq> 0 then ''provider returned HTTP '' @ show_int s
      else ''provider error'')"

datatype validation_error = ValidationError (ve_field: string) (ve_message: string)

definition validation_text :: "validation_error \<Rightarrow> string" where
  "validation_text e = ve_field e @ '': '' @ ve_message e"

section \<open>The policy\<close>

abbreviation CategorySuccess :: category where "CategorySuccess \<equiv> ''success''"
abbreviation CategoryNetwork :: category where "CategoryNetwork \<equiv> ''network''"
abbreviation CategoryRateLimit :: category where "CategoryRateLimit \<equiv> ''rate_limit''"
abbreviation CategoryServer :: category where "CategoryServer \<equiv> ''server_error''"
abbreviation CategoryEmpty :: category where "CategoryEmpty \<equiv> ''empty_response''"
abbreviation CategoryProvider :: category where "CategoryProvider \<equiv> ''provider_retry''"
abbreviation CategoryParse :: category where "CategoryParse \<equiv> ''parse_error''"
abbreviation CategoryRefusal :: category where "CategoryRefusal \<equiv> ''refusal''"
abbreviation CategoryTimeout :: category where "CategoryTimeout \<equiv> ''timeout''"
abbreviation CategoryCanceled :: category where "CategoryCanceled \<equiv> ''canceled''"
abbreviation CategoryOther :: category where "CategoryOther \<equiv> ''other''"

text \<open>A nil map or slice is \<open>None\<close>, an allocated one \<open>Some\<close>.\<close>

record recovery_target =
  rt_connection_id :: string
  rt_source :: string
  rt_model_id :: string
  rt_reasoning_effort :: string
  rt_provider_options :: "json_map option"

record repair_plan =
  rp_initial :: recovery_target
  rp_escalation :: "recovery_target option"

record rerun_plan =
  rr_target :: recovery_target
  rr_json_repair :: "repair_plan option"

record backoff =
  base_delay_ms :: int
  max_delay_ms :: int

record policy =
  max_attempts :: int
  retry_on :: "category list option"
  pol_backoff :: backoff
  json_repair :: "repair_plan option"
  rerun :: "rerun_plan option"
  explicit_plan :: bool

definition uses_explicit_plan :: "policy \<Rightarrow> bool" where
  "uses_explicit_plan p \<longleftrightarrow> explicit_plan p \<or> json_repair p \<noteq> None \<or> rerun p \<noteq> None"

definition zero_target :: recovery_target where
  "zero_target = \<lparr>rt_connection_id = [], rt_source = [], rt_model_id = [],
     rt_reasoning_effort = [], rt_provider_options = None\<rparr>"

definition options_len :: "json_map option \<Rightarrow> nat" where
  "options_len m = (case m of None \<Rightarrow> 0 | Some kvs \<Rightarrow> length kvs)"

definition target_is_zero :: "recovery_target \<Rightarrow> bool" where
  "target_is_zero t \<longleftrightarrow> rt_source t = [] \<and> rt_connection_id t = [] \<and> rt_model_id t = []
     \<and> rt_reasoning_effort t = [] \<and> options_len (rt_provider_options t) = 0"

definition default_policy :: policy where
  "default_policy = (let generation = zero_target\<lparr>rt_source := ''generation''\<rparr> in
     \<lparr>max_attempts = 4,
      retry_on = Some [CategoryNetwork, CategoryRateLimit, CategoryServer, CategoryEmpty, CategoryProvider],
      pol_backoff = \<lparr>base_delay_ms = milliseconds (500 * millisecond), max_delay_ms = milliseconds (8 * second)\<rparr>,
      json_repair = Some \<lparr>rp_initial = generation, rp_escalation = Some generation\<rparr>,
      rerun = None, explicit_plan = True\<rparr>)"

section \<open>Validation\<close>

definition secret_prefixes :: "string list" where
  "secret_prefixes = [''authorization'', ''apikey'', ''credential'', ''password'', ''secret'']"

definition secret_words :: "string list" where
  "secret_words = [''token'', ''accesstoken'', ''authtoken'', ''bearertoken'', ''clienttoken'',
     ''idtoken'', ''refreshtoken'', ''sessiontoken'']"

definition normalized_key :: "string \<Rightarrow> string" where
  "normalized_key key = to_lower (replace_byte CHR ''_'' [] (replace_byte CHR ''-'' [] key))"

definition is_secret_key :: "string \<Rightarrow> bool" where
  "is_secret_key key \<longleftrightarrow> list_ex (has_prefix (normalized_key key)) secret_prefixes
     \<or> normalized_key key \<in> set secret_words"

fun contains_recovery_secret_key :: "json \<Rightarrow> bool" where
  "contains_recovery_secret_key (JObject kvs) =
     list_ex (\<lambda>(key, nested). is_secret_key key \<or> contains_recovery_secret_key nested) kvs"
| "contains_recovery_secret_key (JArray xs) = list_ex contains_recovery_secret_key xs"
| "contains_recovery_secret_key _ = False"

definition validate_target_provider_options :: "json_map \<Rightarrow> string option" where
  "validate_target_provider_options options =
     (if length (json_marshal (JObject options)) > 32 * 1024
        then Some ''providerOptions exceeds the 32 KiB limit''
      else if contains_recovery_secret_key (JObject options)
        then Some ''providerOptions may not contain credential material''
      else None)"

definition recovery_control_keys :: "string list" where
  "recovery_control_keys = [
     ''maxAttempts'', ''maxRetries'', ''max_retries'', ''baseDelayMs'', ''maxDelayMs'', ''initialBackoffMs'', ''maximumBackoffMs'',
     ''enableRetryOn429'', ''enableRetryOn5xx'', ''enableRetryOnNetworkError'', ''enableRetryOnParseError'', ''structuredRepairRetry'',
     ''structuredRepair'', ''retryNetwork'', ''retryRateLimit'', ''retryServerError'', ''retryEmpty'', ''retryParse'', ''repairEscalation'',
     ''backupProfiles'', ''retryPolicy'', ''recoveryPolicy'', ''repairInvalidOutput'', ''jsonRepair'', ''rerun'', ''escalation'',
     ''cache'', ''cacheMode'', ''cacheVersion'', ''search'', ''webSearch'', ''model'', ''modelId'', ''reasoningEffort'']"

text \<open>The text of the error, or \<open>None\<close> for a nil error.\<close>

definition validate_provider_options :: "json_map \<Rightarrow> string option" where
  "validate_provider_options options =
     (case find (has_key options) recovery_control_keys of
        Some key \<Rightarrow> Some (validation_text
          (ValidationError (''providerOptions.'' @ key) ''recovery controls belong in recoveryPolicy''))
      | None \<Rightarrow> validate_target_provider_options options)"

definition target_validate :: "recovery_target \<Rightarrow> string \<Rightarrow> bool \<Rightarrow> validation_error option" where
  "target_validate t field allow_generation =
     (let invalid = (\<lambda>message. Some (ValidationError field message)) in
      if rt_source t \<noteq> ''model'' \<and> \<not> (allow_generation \<and> rt_source t = ''generation'')
        then invalid ''source must be model or generation''
      else if rt_source t = ''model'' \<and> trim_space (rt_model_id t) = []
        then invalid ''modelId is required for a model target''
      else if rt_source t = ''generation'' \<and> (rt_connection_id t \<noteq> [] \<or> rt_model_id t \<noteq> []
           \<or> rt_reasoning_effort t \<noteq> [] \<or> options_len (rt_provider_options t) \<noteq> 0)
        then invalid ''generation target cannot override request settings''
      else if length (rt_connection_id t) > 128 \<or> trim_space (rt_connection_id t) \<noteq> rt_connection_id t
           \<or> length (rt_model_id t) > 512 \<or> length (rt_reasoning_effort t) > 128
        then invalid ''target identifiers exceed their limits''
      else (case rt_provider_options t of
          None \<Rightarrow> None
        | Some options \<Rightarrow>
            (case validate_provider_options options of
               Some e \<Rightarrow> invalid e
             | None \<Rightarrow>
                (case validate_target_provider_options options of
                   Some e \<Rightarrow> invalid e
                 | None \<Rightarrow> None))))"

definition repair_plan_validate :: "repair_plan \<Rightarrow> string \<Rightarrow> validation_error option" where
  "repair_plan_validate p field =
     (case target_validate (rp_initial p) (field @ ''.initial'') True of
        Some e \<Rightarrow> Some e
      | None \<Rightarrow>
         (case rp_escalation p of
            None \<Rightarrow> None
          | Some t \<Rightarrow> target_validate t (field @ ''.escalation'') True))"

definition rerun_plan_validate :: "rerun_plan \<Rightarrow> string \<Rightarrow> validation_error option" where
  "rerun_plan_validate p field =
     (case target_validate (rr_target p) (field @ ''.target'') False of
        Some e \<Rightarrow> Some e
      | None \<Rightarrow>
         (if rt_source (rr_target p) \<noteq> ''model''
            then Some (ValidationError (field @ ''.target.source'') ''rerun target must be a model target'')
          else (case rr_json_repair p of
              None \<Rightarrow> None
            | Some r \<Rightarrow> repair_plan_validate r (field @ ''.jsonRepair''))))"

definition retry_categories :: "category list" where
  "retry_categories = [CategoryNetwork, CategoryRateLimit, CategoryServer, CategoryEmpty, CategoryProvider]"

text \<open>The loop over \<open>RetryOn\<close>; the first argument is the prefix already visited.\<close>

fun validate_retry_on :: "category list \<Rightarrow> category list \<Rightarrow> validation_error option" where
  "validate_retry_on seen [] = None"
| "validate_retry_on seen (c # cs) =
     (if c \<notin> set retry_categories
        then Some (ValidationError ''recoveryPolicy.retryOn'' ''contains an unsupported retry category'')
      else if c \<in> set seen
        then Some (ValidationError ''recoveryPolicy.retryOn'' ''categories must be unique'')
      else validate_retry_on (seen @ [c]) cs)"

definition policy_validate :: "policy \<Rightarrow> validation_error option" where
  "policy_validate p =
     (let invalid = (\<lambda>field message. Some (ValidationError (''recoveryPolicy.'' @ field) message)) in
      if max_attempts p < 1 \<or> max_attempts p > 10
        then invalid ''maxAttempts'' ''must be an integer from 1 through 10''
      else (case retry_on p of
          None \<Rightarrow> invalid ''retryOn'' ''must be an explicit array; use [] to disable retries''
        | Some cats \<Rightarrow>
           (case validate_retry_on [] cats of
              Some e \<Rightarrow> Some e
            | None \<Rightarrow>
              (if base_delay_ms (pol_backoff p) < 0 \<or> base_delay_ms (pol_backoff p) > 60000
                 then invalid ''backoff.baseDelayMs'' ''must be an integer from 0 through 60000''
               else if max_delay_ms (pol_backoff p) < base_delay_ms (pol_backoff p) \<or> max_delay_ms (pol_backoff p) > 600000
                 then invalid ''backoff.maxDelayMs'' ''must be at least baseDelayMs and at most 600000''
               else (case (case json_repair p of None \<Rightarrow> None
                             | Some r \<Rightarrow> repair_plan_validate r ''recoveryPolicy.jsonRepair'') of
                   Some e \<Rightarrow> Some e
                 | None \<Rightarrow> (case rerun p of None \<Rightarrow> None
                             | Some r \<Rightarrow> rerun_plan_validate r ''recoveryPolicy.rerun''))))))"

definition allows :: "policy \<Rightarrow> category \<Rightarrow> bool" where
  "allows p c \<longleftrightarrow> (case retry_on p of None \<Rightarrow> False | Some cats \<Rightarrow> c \<in> set cats)"

section \<open>Classification and delay\<close>

record classification =
  cl_retryable :: bool
  cl_category :: category
  cl_status :: int
  cl_retry_after :: duration
  cl_code :: string
  cl_type :: string
  cl_request_id :: string

definition bare_classification :: "category \<Rightarrow> classification" where
  "bare_classification c = \<lparr>cl_retryable = False, cl_category = c, cl_status = 0,
     cl_retry_after = 0, cl_code = [], cl_type = [], cl_request_id = []\<rparr>"

definition nonnegative_duration :: "duration \<Rightarrow> duration" where
  "nonnegative_duration d = max d 0"

definition category_for_code :: "string \<Rightarrow> category" where
  "category_for_code code = (let c = to_lower (trim_space code) in
     if c \<in> set [''etimedout'', ''econnreset'', ''enotfound'', ''eai_again'', ''epipe'', ''econnaborted'',
               ''network_error'', ''web_search_network'', ''provider_response_read''] then CategoryNetwork
     else if c \<in> set [''empty_response'', ''web_search_empty''] then CategoryEmpty
     else if c = ''provider_retry'' then CategoryProvider
     else if c \<in> set [''server_is_overloaded'', ''service_unavailable'', ''server_error''] then CategoryServer
     else if c \<in> set [''provider_refusal'', ''web_search_tool_error''] then CategoryRefusal
     else if c = ''structured_parse'' then CategoryParse
     else if c \<in> set [''provider_request_timeout'', ''web_search_timeout''] then CategoryTimeout
     else CategoryOther)"

definition retry_allowed :: "policy \<Rightarrow> category \<Rightarrow> bool" where
  "retry_allowed p c \<longleftrightarrow> allows p c \<and> c \<noteq> CategoryOther \<and> c \<noteq> CategoryParse \<and> c \<noteq> CategoryRefusal
     \<and> c \<noteq> CategoryTimeout \<and> c \<noteq> CategoryCanceled"

definition classify_provider :: "go_error \<Rightarrow> policy \<Rightarrow> classification" where
  "classify_provider pe p =
     (let metadata = (\<lambda>category retryable.
            \<lparr>cl_retryable = retryable, cl_category = category, cl_status = pe_status pe,
             cl_retry_after = nonnegative_duration (pe_retry_after pe), cl_code = pe_code pe,
             cl_type = pe_type pe, cl_request_id = pe_request_id pe\<rparr>) in
      if pe_category pe \<noteq> [] then metadata (pe_category pe) (retry_allowed p (pe_category pe))
      else if pe_status pe = 429 then metadata CategoryRateLimit (allows p CategoryRateLimit)
      else if pe_status pe \<ge> 500 \<and> pe_status pe \<le> 599 then metadata CategoryServer (allows p CategoryServer)
      else if pe_status pe \<noteq> 0 \<and> (pe_status pe < 200 \<or> pe_status pe > 299) then metadata CategoryOther False
      else (let category = category_for_code (pe_code pe) in
        if category = CategoryParse then metadata CategoryParse False
        else metadata category (retry_allowed p category)))"

definition classify :: "go_error option \<Rightarrow> policy \<Rightarrow> classification" where
  "classify err p =
     (case err of
        None \<Rightarrow> bare_classification CategorySuccess
      | Some e \<Rightarrow>
         (if errors_is e ErrCanceled then bare_classification CategoryCanceled
          else if errors_is e ErrDeadlineExceeded then bare_classification CategoryTimeout
          else (case errors_as_provider e of
              Some pe \<Rightarrow> classify_provider pe p
            | None \<Rightarrow> bare_classification CategoryOther)))"

definition clamp_random :: "float64 \<Rightarrow> float64" where
  "clamp_random v = (if v = NaN \<or> is_inf v \<or> f64_less v (Fin 0) then Fin 0
     else if f64_less (Fin 1) v then Fin 1 else v)"

text \<open>
  The loop of \<open>Delay\<close> for \<open>step\<close> from 1 while \<open>step < max(attempt, 1)\<close>: the first
  argument counts the steps left.
\<close>

fun delay_window :: "nat \<Rightarrow> int \<Rightarrow> int \<Rightarrow> int" where
  "delay_window 0 window maximum = window"
| "delay_window (Suc n) window maximum =
     (if window < maximum then
        (if window > go_div maximum 2 then maximum
         else delay_window n (wrap64 (window * 2)) maximum)
      else window)"

definition delay :: "int \<Rightarrow> duration \<Rightarrow> backoff \<Rightarrow> float64 \<Rightarrow> duration" where
  "delay attempt retry_after b random =
     (let window0 = max (base_delay_ms b) 0;
          maximum = max (max_delay_ms b) 0;
          window1 = (if window0 > maximum then maximum else window0);
          window = delay_window (nat (max attempt 1 - 1)) window1 maximum;
          jitter = f64_to_int64 (math_floor (f64_mul (f64_of_int window) (clamp_random random)))
      in max (wrap64 (jitter * millisecond)) (nonnegative_duration retry_after))"

section \<open>What validation accepts\<close>

text \<open>All keys of the objects in a value, at any depth.\<close>

fun json_keys :: "json \<Rightarrow> string set" where
  "json_keys (JObject kvs) = fst ` set kvs \<union> (\<Union>(k, v) \<in> set kvs. json_keys v)"
| "json_keys (JArray xs) = (\<Union>x \<in> set xs. json_keys x)"
| "json_keys _ = {}"

definition valid_options :: "json_map \<Rightarrow> bool" where
  "valid_options options \<longleftrightarrow> fst ` set options \<inter> set recovery_control_keys = {}
     \<and> length (json_marshal (JObject options)) \<le> 32768
     \<and> (\<forall>k \<in> json_keys (JObject options). \<not> is_secret_key k)"

definition valid_target :: "bool \<Rightarrow> recovery_target \<Rightarrow> bool" where
  "valid_target allow_generation t \<longleftrightarrow>
     (rt_source t = ''model'' \<and> trim_space (rt_model_id t) \<noteq> []
      \<or> allow_generation \<and> rt_source t = ''generation'' \<and> rt_connection_id t = [] \<and> rt_model_id t = []
        \<and> rt_reasoning_effort t = [] \<and> rt_provider_options t \<in> {None, Some []})
     \<and> length (rt_connection_id t) \<le> 128 \<and> trim_space (rt_connection_id t) = rt_connection_id t
     \<and> length (rt_model_id t) \<le> 512 \<and> length (rt_reasoning_effort t) \<le> 128
     \<and> pred_option valid_options (rt_provider_options t)"

definition valid_repair_plan :: "repair_plan \<Rightarrow> bool" where
  "valid_repair_plan r \<longleftrightarrow> valid_target True (rp_initial r) \<and> pred_option (valid_target True) (rp_escalation r)"

definition valid_rerun_plan :: "rerun_plan \<Rightarrow> bool" where
  "valid_rerun_plan r \<longleftrightarrow> valid_target False (rr_target r) \<and> pred_option valid_repair_plan (rr_json_repair r)"

definition valid_policy :: "policy \<Rightarrow> bool" where
  "valid_policy p \<longleftrightarrow> 1 \<le> max_attempts p \<and> max_attempts p \<le> 10
     \<and> (\<exists>cats. retry_on p = Some cats \<and> distinct cats \<and> set cats \<subseteq> set retry_categories)
     \<and> 0 \<le> base_delay_ms (pol_backoff p) \<and> base_delay_ms (pol_backoff p) \<le> 60000
     \<and> base_delay_ms (pol_backoff p) \<le> max_delay_ms (pol_backoff p) \<and> max_delay_ms (pol_backoff p) \<le> 600000
     \<and> pred_option valid_repair_plan (json_repair p) \<and> pred_option valid_rerun_plan (rerun p)"

lemma contains_secret_iff:
  "contains_recovery_secret_key j \<longleftrightarrow> (\<exists>k \<in> json_keys j. is_secret_key k)"
proof (induction j rule: contains_recovery_secret_key.induct)
  case (1 kvs)
  have "list_ex (\<lambda>(k, v). is_secret_key k \<or> contains_recovery_secret_key v) kvs
      \<longleftrightarrow> (\<exists>(k, v) \<in> set kvs. is_secret_key k \<or> (\<exists>k' \<in> json_keys v. is_secret_key k'))"
    using "1.IH" by (fastforce simp: list_ex_iff)
  also have "\<dots> \<longleftrightarrow> (\<exists>k \<in> json_keys (JObject kvs). is_secret_key k)" by (simp add: bex_Un) fastforce
  finally show ?case by simp
next
  case (2 xs)
  then show ?case by (auto simp: list_ex_iff)
qed simp_all

lemma validate_target_provider_options_None:
  "validate_target_provider_options o' = None \<longleftrightarrow>
     length (json_marshal (JObject o')) \<le> 32768 \<and> (\<forall>k \<in> json_keys (JObject o'). \<not> is_secret_key k)"
  by (auto simp: validate_target_provider_options_def contains_secret_iff simp del: json_keys.simps json_marshal.simps)

lemma validate_provider_options_None: "validate_provider_options o' = None \<longleftrightarrow> valid_options o'"
proof (cases "find (has_key o') recovery_control_keys")
  case None
  then have "fst ` set o' \<inter> set recovery_control_keys = {}"
    by (auto simp: find_None_iff has_key_iff simp del: not_None_eq)
  with None show ?thesis
    by (simp add: validate_provider_options_def valid_options_def validate_target_provider_options_None
        del: json_keys.simps json_marshal.simps)
next
  case (Some k)
  then have "k \<in> fst ` set o' \<inter> set recovery_control_keys"
    by (auto simp: find_Some_iff has_key_iff)
  with Some show ?thesis by (auto simp: validate_provider_options_def valid_options_def)
qed

lemma validate_options_twice:
  "validate_provider_options o' = None \<Longrightarrow> validate_target_provider_options o' = None"
  by (simp add: validate_provider_options_def split: option.splits)

lemma options_len_0: "options_len m = 0 \<longleftrightarrow> m \<in> {None, Some []}"
  by (auto simp: options_len_def split: option.splits)

lemma target_validate_None: "target_validate t f g = None \<longleftrightarrow> valid_target g t"
proof (cases "rt_provider_options t")
  case None
  then show ?thesis
    unfolding target_validate_def valid_target_def Let_def
    by (auto simp: options_len_0)
next
  case (Some options)
  show ?thesis
  proof (cases "validate_provider_options options")
    case None
    with validate_options_twice [OF None] Some show ?thesis
      unfolding target_validate_def valid_target_def Let_def
      by (auto simp: options_len_0 simp flip: validate_provider_options_None)
  next
    case inner: (Some e)
    then have "\<not> valid_options options" by (simp flip: validate_provider_options_None)
    with Some inner show ?thesis
      unfolding target_validate_def valid_target_def Let_def by auto
  qed
qed

lemma target_validate_Some: "target_validate t f g = Some e \<Longrightarrow> \<not> valid_target g t"
  by (simp flip: target_validate_None [of t f g])

lemma repair_plan_validate_None: "repair_plan_validate r f = None \<longleftrightarrow> valid_repair_plan r"
  by (auto simp: repair_plan_validate_def valid_repair_plan_def target_validate_None
      dest: target_validate_Some split: option.splits)

lemma repair_plan_validate_Some: "repair_plan_validate r f = Some e \<Longrightarrow> \<not> valid_repair_plan r"
  by (simp flip: repair_plan_validate_None [of r f])

lemma valid_target_False_model: "valid_target False t \<Longrightarrow> rt_source t = ''model''"
  by (auto simp: valid_target_def)

lemma rerun_plan_validate_None: "rerun_plan_validate r f = None \<longleftrightarrow> valid_rerun_plan r"
  by (auto simp: rerun_plan_validate_def valid_rerun_plan_def repair_plan_validate_None
      target_validate_None dest: target_validate_Some valid_target_False_model split: option.splits)

lemma validate_retry_on_None:
  "validate_retry_on seen cs = None \<longleftrightarrow>
     distinct cs \<and> set cs \<subseteq> set retry_categories \<and> set cs \<inter> set seen = {}"
  by (induction cs arbitrary: seen) auto

lemma policy_validate_spec: "policy_validate p = None \<longleftrightarrow> valid_policy p"
proof (cases "retry_on p")
  case None
  then show ?thesis by (simp add: policy_validate_def valid_policy_def Let_def)
next
  case (Some cats)
  show ?thesis
  proof (cases "validate_retry_on [] cats")
    case None
    then have "distinct cats \<and> set cats \<subseteq> set retry_categories" by (simp add: validate_retry_on_None)
    with Some None show ?thesis
      by (cases "json_repair p"; cases "rerun p")
         (auto simp: policy_validate_def valid_policy_def Let_def rerun_plan_validate_None
           repair_plan_validate_None dest: repair_plan_validate_Some split: option.splits)
  next
    case inner: (Some e)
    then have "\<not> (distinct cats \<and> set cats \<subseteq> set retry_categories)"
      by (metis inf_bot_right list.set(1) option.distinct(1) validate_retry_on_None)
    with Some inner show ?thesis by (auto simp: policy_validate_def valid_policy_def Let_def)
  qed
qed

text \<open>
  C23. \<open>Policy.Validate\<close> accepts exactly the policies of the declarative contract: one to ten
  attempts, an explicit duplicate-free list of the five retryable categories, ordered and
  bounded delays, and recovery targets whose sources, identifiers and provider options
  are admissible at every place of the plan.
\<close>

theorem policy_validate_iff: "policy_validate p = None \<longleftrightarrow> valid_policy p"
  by (rule policy_validate_spec)

lemma valid_default_policy: "valid_policy default_policy"
proof -
  have gen: "valid_target True (zero_target\<lparr>rt_source := ''generation''\<rparr>)"
  proof -
    have "trim_space [] = []" using length_trim_space [of "[]"] by simp
    then show ?thesis by (simp add: valid_target_def zero_target_def)
  qed
  then show ?thesis
    by (simp add: valid_policy_def default_policy_def Let_def retry_categories_def milliseconds_def
        go_div_nonneg valid_repair_plan_def)
qed

section \<open>What is retried\<close>

text \<open>The category a provider error falls in: the normalizer's, else the status's, else the code's.\<close>

definition provider_category :: "go_error \<Rightarrow> category" where
  "provider_category pe =
     (if pe_category pe \<noteq> [] then pe_category pe
      else if pe_status pe = 429 then CategoryRateLimit
      else if 500 \<le> pe_status pe \<and> pe_status pe \<le> 599 then CategoryServer
      else if pe_status pe = 0 \<or> 200 \<le> pe_status pe \<and> pe_status pe \<le> 299 then category_for_code (pe_code pe)
      else CategoryOther)"

lemma valid_policy_allows:
  assumes "valid_policy p" and "allows p c" shows "c \<in> set retry_categories"
  using assms by (auto simp: valid_policy_def allows_def)

lemma retry_allowed_valid: "valid_policy p \<Longrightarrow> retry_allowed p c \<longleftrightarrow> allows p c"
  using valid_policy_allows [of p c] by (auto simp: retry_allowed_def retry_categories_def)

lemma not_allows_valid:
  "valid_policy p \<Longrightarrow> \<not> allows p CategoryOther" "valid_policy p \<Longrightarrow> \<not> allows p CategoryParse"
  using valid_policy_allows [of p CategoryOther] valid_policy_allows [of p CategoryParse]
  by (auto simp: retry_categories_def)

lemma classify_provider_category: "cl_category (classify_provider pe p) = provider_category pe"
  by (auto simp: classify_provider_def provider_category_def Let_def)

lemma classify_provider_retryable:
  "valid_policy p \<Longrightarrow> cl_retryable (classify_provider pe p) \<longleftrightarrow> allows p (provider_category pe)"
  by (auto simp: classify_provider_def provider_category_def Let_def retry_allowed_valid not_allows_valid)

lemma classify_retry_after: "0 \<le> cl_retry_after (classify e p)"
  by (auto simp: classify_def bare_classification_def classify_provider_def Let_def
      nonnegative_duration_def split: option.splits)

text \<open>
  C24. Under a valid policy a failed attempt is retried exactly when it carries a provider
  error whose category the policy lists, and the error is not a cancellation or an expired
  deadline at any depth of its chain. So a parse failure, a refusal, a timeout and an
  unclassified failure are never retried, whatever the policy lists.
\<close>

theorem classify_retryable_iff:
  assumes "valid_policy p"
  shows "cl_retryable (classify (Some e) p) \<longleftrightarrow>
     \<not> errors_is e ErrCanceled \<and> \<not> errors_is e ErrDeadlineExceeded \<and>
     (\<exists>pe. errors_as_provider e = Some pe \<and> provider_category pe \<in> set (the (retry_on p)))"
proof -
  from assms obtain cats where "retry_on p = Some cats" by (auto simp: valid_policy_def)
  with assms show ?thesis
    by (auto simp: classify_def bare_classification_def classify_provider_retryable allows_def
        split: option.splits)
qed

definition sample_rate_limited :: go_error where
  "sample_rate_limited = ErrWrap ''call failed'' (ErrProvider None [] [] [] [] [] 429 2000000000)"

theorem classify_retryable_witness:
  "valid_policy default_policy \<and> cl_retryable (classify (Some sample_rate_limited) default_policy)"
  using valid_default_policy classify_retryable_iff [OF valid_default_policy, of sample_rate_limited]
  by (simp add: sample_rate_limited_def provider_category_def default_policy_def Let_def)

section \<open>The delay\<close>

definition backoff_window :: "backoff \<Rightarrow> int \<Rightarrow> duration" where
  "backoff_window b n =
     min (max_delay_ms b) (base_delay_ms b * 2 ^ nat (max n 1 - 1)) * millisecond"

lemma delay_window_closed:
  assumes "0 \<le> w" and "w \<le> m" and "m < 2 ^ 60"
  shows "delay_window n w m = min m (w * 2 ^ n)"
  using assms
proof (induction n arbitrary: w)
  case 0
  then show ?case by simp
next
  case (Suc n)
  have half: "go_div m 2 = m div 2" using Suc.prems by (simp add: go_div_nonneg)
  consider (eq) "w = m" | (top) "w < m" "m div 2 < w" | (step) "w < m" "w \<le> m div 2"
    using Suc.prems by linarith
  then show ?case
  proof cases
    case eq
    have "m * 1 \<le> m * 2 ^ Suc n" using Suc.prems by (intro mult_left_mono one_le_power) auto
    with eq show ?thesis by simp
  next
    case top
    have "1 * (2 * w) \<le> 2 ^ n * (2 * w)" using Suc.prems by (intro mult_right_mono one_le_power) auto
    with top have "m \<le> w * 2 ^ Suc n" by (simp add: mult.commute mult.left_commute)
    with top half show ?thesis by simp
  next
    case step
    have "int64 (w * 2)" using Suc.prems step by (simp add: int64_def)
    moreover have "delay_window n (w * 2) m = min m (w * 2 * 2 ^ n)"
      using step Suc.prems by (intro Suc.IH) auto
    ultimately show ?thesis using step half by (simp add: mult.assoc)
  qed
qed

lemma clamp_random_range: "\<exists>r. clamp_random v = Fin r \<and> 0 \<le> r \<and> r \<le> 1"
  by (cases v) (auto simp: clamp_random_def is_inf_def)

lemma jitter_bounds:
  assumes "0 \<le> w" and "w < 2 ^ 53" and "0 \<le> r" and "r \<le> 1"
  defines "j \<equiv> f64_to_int64 (math_floor (f64_mul (f64_of_int w) (Fin r)))"
  shows "0 \<le> j" and "j \<le> w" and "r = 1 \<Longrightarrow> j = w" and "r = 0 \<Longrightarrow> j = 0"
proof -
  have w: "f64_of_int w = Fin (of_int w)" using assms by (simp add: f64_of_int_def f64_round_int)
  have "of_int w * r \<le> of_int w" using assms by (simp add: mult_left_le)
  then obtain v where v: "f64_round (of_int w * r) = Fin v" "0 \<le> v" "v \<le> of_int w"
    using f64_round_between [of 0 "of_int w * r" w] assms by auto
  have j: "j = \<lfloor>v\<rfloor>" using v by (simp add: j_def w f64_mul_def f64_to_int64_def)
  show "0 \<le> j" and "j \<le> w" using v by (simp_all add: j floor_le_iff)
  show "j = w" if "r = 1"
    using that v f64_round_int [of w] assms by (simp add: j)
  show "j = 0" if "r = 0" using that v f64_round_int [of 0] by (simp add: j)
qed

text \<open>
  C25. Under a valid policy the wait before the next attempt is at least the provider's
  \<open>Retry-After\<close> and at most the larger of it and the exponential window
  \<open>min(maxDelay, baseDelay * 2^(attempt-1))\<close>, which the largest random draw reaches; no draw
  (not even a NaN) and no attempt number overflows the arithmetic.
\<close>

theorem delay_bounds:
  assumes "valid_policy p"
  shows "nonnegative_duration ra \<le> delay n ra (pol_backoff p) v
     \<and> delay n ra (pol_backoff p) v \<le> max (backoff_window (pol_backoff p) n) (nonnegative_duration ra)
     \<and> delay n ra (pol_backoff p) (Fin 1) = max (backoff_window (pol_backoff p) n) (nonnegative_duration ra)
     \<and> delay n ra (pol_backoff p) (Fin 0) = nonnegative_duration ra"
proof -
  define b where "b = pol_backoff p"
  have b: "0 \<le> base_delay_ms b" "base_delay_ms b \<le> max_delay_ms b" "max_delay_ms b \<le> 600000"
    using assms(1) by (auto simp: valid_policy_def b_def)
  define w where "w = min (max_delay_ms b) (base_delay_ms b * 2 ^ nat (max n 1 - 1))"
  have w: "0 \<le> w" "w \<le> 600000" using b by (auto simp: w_def)
  have win: "delay_window (nat (max n 1 - 1)) (base_delay_ms b) (max_delay_ms b) = w"
    using b by (simp add: delay_window_closed w_def)
  obtain r where r: "clamp_random v = Fin r" "0 \<le> r" "r \<le> 1" using clamp_random_range by blast
  define j where "j x = f64_to_int64 (math_floor (f64_mul (f64_of_int w) (Fin x)))" for x
  have eq: "delay n ra b u = max (j x * millisecond) (nonnegative_duration ra)"
    if "clamp_random u = Fin x" "0 \<le> x" "x \<le> 1" for u x
  proof -
    have "0 \<le> j x" "j x \<le> w" using jitter_bounds(1,2) [of w x] w that by (auto simp: j_def)
    then have "int64 (j x * millisecond)" using w by (simp add: int64_def)
    with that b win show ?thesis by (simp add: delay_def Let_def j_def)
  qed
  have one: "clamp_random (Fin 1) = Fin 1" and zero: "clamp_random (Fin 0) = Fin 0"
    by (simp_all add: clamp_random_def is_inf_def)
  have j: "0 \<le> j r" "j r \<le> w" "j 1 = w" "j 0 = 0"
    using jitter_bounds [of w r] jitter_bounds(3) [of w 1] jitter_bounds(4) [of w 0] w r
    by (auto simp: j_def)
  have bw: "backoff_window b n = w * millisecond" by (simp add: backoff_window_def w_def)
  have "0 \<le> nonnegative_duration ra" by (simp add: nonnegative_duration_def)
  with j show ?thesis
    unfolding b_def [symmetric] bw eq [OF r] eq [OF one, simplified] eq [OF zero, simplified]
    by (auto simp: le_max_iff_disj)
qed

theorem delay_bounds_witness:
  "valid_policy default_policy \<and> delay 3 0 (pol_backoff default_policy) (Fin 1) = 2000 * millisecond"
  using valid_default_policy delay_bounds [OF valid_default_policy, of 0 3 NaN]
  by (simp add: backoff_window_def default_policy_def Let_def milliseconds_def go_div_nonneg nonnegative_duration_def)

end
