(* ===== verification/Retry_Json.thy ===== *)
theory Retry_Json
  imports Retry "HOL-Library.AList"
begin

text \<open>
  The JSON form of a recovery policy: the \<open>UnmarshalJSON\<close> methods of \<open>internal/retry\<close> and
  \<open>MarshalJSON\<close>. A struct is decoded as \<open>encoding/json\<close> does it with \<open>DisallowUnknownFields\<close>:
  member by member in document order, a member selecting a field by its case-folded name, null
  leaving a plain field alone and clearing a pointer, a slice or a map, a repeated member
  overwriting (for a map: extending) what was there. A null element of the \<open>retryOn\<close> array is
  decoded as the empty category.
\<close>

section \<open>Decoding\<close>

definition field_is :: "string \<Rightarrow> string \<Rightarrow> bool" where
  "field_is name key \<longleftrightarrow> fold_name key = fold_name name"

text \<open>\<open>json.Unmarshal\<close> into a \<open>map[string]json.RawMessage\<close>: the last occurrence of a key counts.\<close>

definition raw_field :: "json_map \<Rightarrow> string \<Rightarrow> json option" where
  "raw_field m k = map_of (rev m) k"

fun decode_fields :: "('s \<Rightarrow> string \<Rightarrow> json \<Rightarrow> 's option) \<Rightarrow> 's \<Rightarrow> json_map \<Rightarrow> 's option" where
  "decode_fields f s [] = Some s"
| "decode_fields f s ((k, v) # kvs) =
     (case f s k v of None \<Rightarrow> None | Some s' \<Rightarrow> decode_fields f s' kvs)"

fun decode_string :: "string \<Rightarrow> json \<Rightarrow> string option" where
  "decode_string old (JString s) = Some s"
| "decode_string old JNull = Some old"
| "decode_string old _ = None"

fun decode_int :: "int \<Rightarrow> json \<Rightarrow> int option" where
  "decode_int old (JNumber s) = parse_int64 s"
| "decode_int old JNull = Some old"
| "decode_int old _ = None"

fun map_set_all :: "json_map \<Rightarrow> json_map \<Rightarrow> json_map" where
  "map_set_all m [] = m"
| "map_set_all m ((k, v) # kvs) = map_set_all (AList.update k v m) kvs"

text \<open>The value an \<open>any\<close> receives: an object of the document becomes a map.\<close>

fun any_of_json :: "json \<Rightarrow> json" where
  "any_of_json (JArray xs) = JArray (map any_of_json xs)"
| "any_of_json (JObject kvs) = JObject (map_set_all [] (map (\<lambda>(k, v). (k, any_of_json v)) kvs))"
| "any_of_json j = j"

definition decode_options :: "json_map option \<Rightarrow> json \<Rightarrow> json_map option option" where
  "decode_options old v = (case v of
     JNull \<Rightarrow> Some None
   | JObject kvs \<Rightarrow> Some (Some (map_set_all (case old of None \<Rightarrow> [] | Some m \<Rightarrow> m)
       (map (\<lambda>(k, x). (k, any_of_json x)) kvs)))
   | _ \<Rightarrow> None)"

definition target_field :: "recovery_target \<Rightarrow> string \<Rightarrow> json \<Rightarrow> recovery_target option" where
  "target_field t key v =
     (if field_is ''source'' key then map_option (\<lambda>s. t\<lparr>rt_source := s\<rparr>) (decode_string (rt_source t) v)
      else if field_is ''upstream'' key then map_option (\<lambda>s. t\<lparr>rt_connection_id := s\<rparr>) (decode_string (rt_connection_id t) v)
      else if field_is ''modelId'' key then map_option (\<lambda>s. t\<lparr>rt_model_id := s\<rparr>) (decode_string (rt_model_id t) v)
      else if field_is ''reasoningEffort'' key then map_option (\<lambda>s. t\<lparr>rt_reasoning_effort := s\<rparr>) (decode_string (rt_reasoning_effort t) v)
      else if field_is ''providerOptions'' key then map_option (\<lambda>m. t\<lparr>rt_provider_options := m\<rparr>) (decode_options (rt_provider_options t) v)
      else None)"

definition decode_target :: "json \<Rightarrow> validation_error + recovery_target" where
  "decode_target j = (case j of
     JObject kvs \<Rightarrow>
       (if raw_field kvs ''source'' = None then Inl (ValidationError ''recoveryTarget.source'' ''is required'')
        else (case decode_fields target_field zero_target kvs of
            None \<Rightarrow> Inl (ValidationError ''recoveryTarget'' ''has an unknown field or invalid value type'')
          | Some t \<Rightarrow> Inr t))
   | _ \<Rightarrow> Inl (ValidationError ''recoveryTarget'' ''must be an object''))"

text \<open>A pointer to a struct: null clears it, anything else is decoded anew.\<close>

definition decode_pointer :: "(json \<Rightarrow> validation_error + 'a) \<Rightarrow> json \<Rightarrow> 'a option option" where
  "decode_pointer dec v = (if v = JNull then Some None else
     (case dec v of Inl e \<Rightarrow> None | Inr x \<Rightarrow> Some (Some x)))"

definition decode_value :: "(json \<Rightarrow> validation_error + 'a) \<Rightarrow> json \<Rightarrow> 'a option" where
  "decode_value dec v = (case dec v of Inl e \<Rightarrow> None | Inr x \<Rightarrow> Some x)"

definition repair_plan_field :: "repair_plan \<Rightarrow> string \<Rightarrow> json \<Rightarrow> repair_plan option" where
  "repair_plan_field p key v =
     (if field_is ''initial'' key then map_option (\<lambda>t. p\<lparr>rp_initial := t\<rparr>) (decode_value decode_target v)
      else if field_is ''escalation'' key then map_option (\<lambda>t. p\<lparr>rp_escalation := t\<rparr>) (decode_pointer decode_target v)
      else None)"

definition decode_repair_plan :: "json \<Rightarrow> validation_error + repair_plan" where
  "decode_repair_plan j = (case j of
     JObject kvs \<Rightarrow>
       (case find (\<lambda>k. raw_field kvs k = None) [''initial'', ''escalation''] of
          Some k \<Rightarrow> Inl (ValidationError (''repairPlan.'' @ k) ''is required'')
        | None \<Rightarrow>
          (case decode_fields repair_plan_field \<lparr>rp_initial = zero_target, rp_escalation = None\<rparr> kvs of
             None \<Rightarrow> Inl (ValidationError ''repairPlan'' ''has an unknown field or invalid value type'')
           | Some p \<Rightarrow> Inr p))
   | _ \<Rightarrow> Inl (ValidationError ''repairPlan'' ''must be an object''))"

definition rerun_plan_field :: "rerun_plan \<Rightarrow> string \<Rightarrow> json \<Rightarrow> rerun_plan option" where
  "rerun_plan_field p key v =
     (if field_is ''target'' key then map_option (\<lambda>t. p\<lparr>rr_target := t\<rparr>) (decode_value decode_target v)
      else if field_is ''jsonRepair'' key then map_option (\<lambda>r. p\<lparr>rr_json_repair := r\<rparr>) (decode_pointer decode_repair_plan v)
      else None)"

definition decode_rerun_plan :: "json \<Rightarrow> validation_error + rerun_plan" where
  "decode_rerun_plan j = (case j of
     JObject kvs \<Rightarrow>
       (case find (\<lambda>k. raw_field kvs k = None) [''target'', ''jsonRepair''] of
          Some k \<Rightarrow> Inl (ValidationError (''rerun.'' @ k) ''is required'')
        | None \<Rightarrow>
          (case decode_fields rerun_plan_field \<lparr>rr_target = zero_target, rr_json_repair = None\<rparr> kvs of
             None \<Rightarrow> Inl (ValidationError ''rerun'' ''has an unknown field or invalid value type'')
           | Some p \<Rightarrow> Inr p))
   | _ \<Rightarrow> Inl (ValidationError ''rerun'' ''must be an object or null''))"

definition backoff_field :: "backoff \<Rightarrow> string \<Rightarrow> json \<Rightarrow> backoff option" where
  "backoff_field b key v =
     (if field_is ''baseDelayMs'' key then map_option (\<lambda>i. b\<lparr>base_delay_ms := i\<rparr>) (decode_int (base_delay_ms b) v)
      else if field_is ''maxDelayMs'' key then map_option (\<lambda>i. b\<lparr>max_delay_ms := i\<rparr>) (decode_int (max_delay_ms b) v)
      else None)"

text \<open>\<open>decodeRequired\<close>: null decodes to a nil map, so its first required field is missing.\<close>

definition decode_required :: "('s \<Rightarrow> string \<Rightarrow> json \<Rightarrow> 's option) \<Rightarrow> 's \<Rightarrow> string \<Rightarrow> string list \<Rightarrow> json
    \<Rightarrow> validation_error + 's" where
  "decode_required f s pfx required j =
     (case (case j of JObject kvs \<Rightarrow> Some kvs | JNull \<Rightarrow> Some [] | _ \<Rightarrow> None) of
        None \<Rightarrow> Inl (ValidationError pfx ''must be an object'')
      | Some kvs \<Rightarrow>
         (case find (\<lambda>k. raw_field kvs k \<in> {None, Some JNull}) required of
            Some k \<Rightarrow> Inl (ValidationError (pfx @ ''.'' @ k) ''is required'')
          | None \<Rightarrow>
            (case decode_fields f s kvs of
               None \<Rightarrow> Inl (ValidationError pfx ''has an unknown field or invalid value type'')
             | Some x \<Rightarrow> Inr x)))"

definition decode_backoff :: "json \<Rightarrow> validation_error + backoff" where
  "decode_backoff j = decode_required backoff_field \<lparr>base_delay_ms = 0, max_delay_ms = 0\<rparr>
     ''recoveryPolicy.backoff'' [''baseDelayMs'', ''maxDelayMs''] j"

fun decode_categories :: "json \<Rightarrow> category list option option" where
  "decode_categories JNull = Some None"
| "decode_categories (JArray xs) = map_option Some (those (map (decode_string []) xs))"
| "decode_categories _ = None"

definition policy_field :: "policy \<Rightarrow> string \<Rightarrow> json \<Rightarrow> policy option" where
  "policy_field p key v =
     (if field_is ''maxAttempts'' key then map_option (\<lambda>i. p\<lparr>max_attempts := i\<rparr>) (decode_int (max_attempts p) v)
      else if field_is ''retryOn'' key then map_option (\<lambda>c. p\<lparr>retry_on := c\<rparr>) (decode_categories v)
      else if field_is ''backoff'' key then map_option (\<lambda>b. p\<lparr>pol_backoff := b\<rparr>) (decode_value decode_backoff v)
      else if field_is ''jsonRepair'' key then map_option (\<lambda>r. p\<lparr>json_repair := r\<rparr>) (decode_pointer decode_repair_plan v)
      else if field_is ''rerun'' key then map_option (\<lambda>r. p\<lparr>rerun := r\<rparr>) (decode_pointer decode_rerun_plan v)
      else None)"

definition blank_policy :: policy where
  "blank_policy = \<lparr>max_attempts = 0, retry_on = None, pol_backoff = \<lparr>base_delay_ms = 0, max_delay_ms = 0\<rparr>,
     json_repair = None, rerun = None, explicit_plan = True\<rparr>"

definition decode_policy :: "json \<Rightarrow> validation_error + policy" where
  "decode_policy j = (case j of
     JObject kvs \<Rightarrow>
       (case find (\<lambda>k. raw_field kvs k = None
              \<or> k \<noteq> ''jsonRepair'' \<and> k \<noteq> ''rerun'' \<and> raw_field kvs k = Some JNull)
            [''maxAttempts'', ''retryOn'', ''jsonRepair'', ''rerun'', ''backoff''] of
          Some k \<Rightarrow> Inl (ValidationError (''recoveryPolicy.'' @ k) ''is required'')
        | None \<Rightarrow>
          (case decode_fields policy_field blank_policy kvs of
             None \<Rightarrow> Inl (ValidationError ''recoveryPolicy'' ''has an unknown field or invalid value type'')
           | Some p \<Rightarrow> (case policy_validate p of Some e \<Rightarrow> Inl e | None \<Rightarrow> Inr p)))
   | _ \<Rightarrow> Inl (ValidationError ''recoveryPolicy'' ''must be an object''))"

section \<open>Encoding\<close>

definition omit_empty :: "string \<Rightarrow> string \<Rightarrow> json_map" where
  "omit_empty key s = (if s = [] then [] else [(key, JString s)])"

definition encode_target :: "recovery_target \<Rightarrow> json" where
  "encode_target t = JObject (omit_empty ''upstream'' (rt_connection_id t)
     @ [(''source'', JString (rt_source t))]
     @ omit_empty ''modelId'' (rt_model_id t)
     @ omit_empty ''reasoningEffort'' (rt_reasoning_effort t)
     @ (case rt_provider_options t of
          None \<Rightarrow> []
        | Some kvs \<Rightarrow> (if kvs = [] then [] else [(''providerOptions'', JObject kvs)])))"

definition encode_pointer :: "('a \<Rightarrow> json) \<Rightarrow> 'a option \<Rightarrow> json" where
  "encode_pointer enc x = (case x of None \<Rightarrow> JNull | Some y \<Rightarrow> enc y)"

definition encode_repair_plan :: "repair_plan \<Rightarrow> json" where
  "encode_repair_plan p = JObject [(''initial'', encode_target (rp_initial p)),
     (''escalation'', encode_pointer encode_target (rp_escalation p))]"

definition encode_rerun_plan :: "rerun_plan \<Rightarrow> json" where
  "encode_rerun_plan p = JObject [(''target'', encode_target (rr_target p)),
     (''jsonRepair'', encode_pointer encode_repair_plan (rr_json_repair p))]"

definition encode_backoff :: "backoff \<Rightarrow> json" where
  "encode_backoff b = JObject [(''baseDelayMs'', JNumber (show_int (base_delay_ms b))),
     (''maxDelayMs'', JNumber (show_int (max_delay_ms b)))]"

definition encode_policy :: "policy \<Rightarrow> json" where
  "encode_policy p = JObject [
     (''maxAttempts'', JNumber (show_int (max_attempts p))),
     (''retryOn'', encode_pointer (\<lambda>cats. JArray (map JString cats)) (retry_on p)),
     (''backoff'', encode_backoff (pol_backoff p)),
     (''jsonRepair'', encode_pointer encode_repair_plan (json_repair p)),
     (''rerun'', encode_pointer encode_rerun_plan (rerun p))]"

section \<open>What decoding admits\<close>

lemma decode_fields_invariant:
  assumes "decode_fields f s kvs = Some t" and "P s"
    and "\<And>s k v s'. f s k v = Some s' \<Longrightarrow> P s \<Longrightarrow> P s'"
  shows "P t"
  using assms(1,2)
proof (induction kvs arbitrary: s)
  case Nil
  then show ?case by simp
next
  case (Cons kv kvs)
  obtain k v where kv: "kv = (k, v)" by (cases kv)
  with Cons.prems obtain s' where s': "f s k v = Some s'" "decode_fields f s' kvs = Some t"
    by (auto split: option.splits)
  from Cons.IH [OF s'(2) assms(3) [OF s'(1) Cons.prems(2)]] show ?case .
qed

lemma policy_field_explicit: "policy_field p k v = Some p' \<Longrightarrow> explicit_plan p \<Longrightarrow> explicit_plan p'"
  by (auto simp: policy_field_def split: if_splits)

text \<open>
  C27. Whatever document \<open>Policy.UnmarshalJSON\<close> accepts, it is a JSON object and the policy it
  stores is valid and marked as an explicit plan.
\<close>

theorem decode_policy_valid:
  assumes "decode_policy j = Inr p"
  shows "valid_policy p \<and> explicit_plan p \<and> uses_explicit_plan p \<and> (\<exists>kvs. j = JObject kvs)"
proof -
  from assms obtain kvs where j: "j = JObject kvs"
    and d: "decode_fields policy_field blank_policy kvs = Some p" and v: "policy_validate p = None"
    by (auto simp: decode_policy_def split: json.splits option.splits)
  have "explicit_plan p"
    using decode_fields_invariant [OF d, of explicit_plan] policy_field_explicit
    by (auto simp: blank_policy_def)
  moreover have "valid_policy p"
    using v by (simp add: policy_validate_spec)
  ultimately show ?thesis using j by (simp add: uses_explicit_plan_def)
qed

section \<open>Round trip\<close>

lemma fold_names:
  "fold_name ''source'' = ''source''" "fold_name ''upstream'' = ''upstream''"
  "fold_name ''modelId'' = ''modelid''" "fold_name ''reasoningEffort'' = ''reasoningeffort''"
  "fold_name ''providerOptions'' = ''provideroptions''" "fold_name ''initial'' = ''initial''"
  "fold_name ''escalation'' = ''escalation''" "fold_name ''target'' = ''target''"
  "fold_name ''jsonRepair'' = ''jsonrepair''" "fold_name ''baseDelayMs'' = ''basedelayms''"
  "fold_name ''maxDelayMs'' = ''maxdelayms''" "fold_name ''maxAttempts'' = ''maxattempts''"
  "fold_name ''retryOn'' = ''retryon''" "fold_name ''backoff'' = ''backoff''"
  "fold_name ''rerun'' = ''rerun''"
  by code_simp+

lemma map_set_all_append:
  "distinct (map fst kvs) \<Longrightarrow> fst ` set m \<inter> fst ` set kvs = {} \<Longrightarrow> map_set_all m kvs = m @ kvs"
proof (induction m kvs rule: map_set_all.induct)
  case (1 m)
  then show ?case by simp
next
  case (2 m k v kvs)
  have "AList.update k v m = m @ [(k, v)]"
    using "2.prems"(2) by (induction m) auto
  with 2 show ?case by auto
qed

lemma any_of_json_wf: "wf_json j \<Longrightarrow> any_of_json j = j"
proof (induction j rule: any_of_json.induct)
  case (1 xs)
  then show ?case by (auto simp: list_all_iff intro: map_idI)
next
  case (2 kvs)
  have "map (\<lambda>(k, v). (k, any_of_json v)) kvs = kvs"
    using 2 by (intro map_idI) (fastforce simp: list_all_iff)
  with 2 show ?case by (simp add: map_set_all_append)
qed auto

definition norm_target :: "recovery_target \<Rightarrow> recovery_target" where
  "norm_target t = (if rt_provider_options t = Some [] then t\<lparr>rt_provider_options := None\<rparr> else t)"

definition norm_repair_plan :: "repair_plan \<Rightarrow> repair_plan" where
  "norm_repair_plan p = \<lparr>rp_initial = norm_target (rp_initial p),
     rp_escalation = map_option norm_target (rp_escalation p)\<rparr>"

definition norm_rerun_plan :: "rerun_plan \<Rightarrow> rerun_plan" where
  "norm_rerun_plan p = \<lparr>rr_target = norm_target (rr_target p),
     rr_json_repair = map_option norm_repair_plan (rr_json_repair p)\<rparr>"

definition norm_policy :: "policy \<Rightarrow> policy" where
  "norm_policy p = p\<lparr>json_repair := map_option norm_repair_plan (json_repair p),
     rerun := map_option norm_rerun_plan (rerun p), explicit_plan := True\<rparr>"

definition wf_target :: "recovery_target \<Rightarrow> bool" where
  "wf_target t \<longleftrightarrow> pred_option (\<lambda>kvs. wf_json (JObject kvs)) (rt_provider_options t)"

definition wf_repair_plan :: "repair_plan \<Rightarrow> bool" where
  "wf_repair_plan p \<longleftrightarrow> wf_target (rp_initial p) \<and> pred_option wf_target (rp_escalation p)"

definition wf_rerun_plan :: "rerun_plan \<Rightarrow> bool" where
  "wf_rerun_plan p \<longleftrightarrow> wf_target (rr_target p) \<and> pred_option wf_repair_plan (rr_json_repair p)"

definition wf_policy :: "policy \<Rightarrow> bool" where
  "wf_policy p \<longleftrightarrow> pred_option wf_repair_plan (json_repair p) \<and> pred_option wf_rerun_plan (rerun p)"

lemma decode_options_wf:
  assumes "wf_json (JObject kvs)" shows "decode_options None (JObject kvs) = Some (Some kvs)"
proof -
  have "map (\<lambda>(k, v). (k, any_of_json v)) kvs = kvs"
    using assms by (intro map_idI) (fastforce simp: list_all_iff any_of_json_wf)
  with assms show ?thesis by (simp add: decode_options_def map_set_all_append)
qed

lemma decode_fields_omit_empty:
  assumes "\<And>u. f s key (JString u) = Some (g u)" and "x = [] \<Longrightarrow> g x = s"
  shows "decode_fields f s (omit_empty key x @ rest) = decode_fields f (g x) rest"
  using assms by (simp add: omit_empty_def)

lemma decode_encode_target: "wf_target t \<Longrightarrow> decode_target (encode_target t) = Inr (norm_target t)"
  by (auto simp: encode_target_def decode_target_def raw_field_def omit_empty_def target_field_def
      field_is_def fold_names zero_target_def norm_target_def wf_target_def decode_options_wf
      split: option.splits)

lemma decode_encode_pointer:
  assumes "\<And>x. enc x \<noteq> JNull" and "\<And>x. y = Some x \<Longrightarrow> dec (enc x) = Inr (g x)"
  shows "decode_pointer dec (encode_pointer enc y) = Some (map_option g y)"
  using assms by (cases y) (auto simp: decode_pointer_def encode_pointer_def)

lemma encode_not_null: "encode_target t \<noteq> JNull" "encode_repair_plan p \<noteq> JNull" "encode_rerun_plan r \<noteq> JNull"
  by (simp_all add: encode_target_def encode_repair_plan_def encode_rerun_plan_def)

lemma decode_encode_repair_plan:
  assumes "wf_repair_plan p" shows "decode_repair_plan (encode_repair_plan p) = Inr (norm_repair_plan p)"
proof -
  have "decode_pointer decode_target (encode_pointer encode_target (rp_escalation p))
      = Some (map_option norm_target (rp_escalation p))"
    using assms by (intro decode_encode_pointer) (auto simp: encode_not_null wf_repair_plan_def decode_encode_target)
  with assms show ?thesis
    by (simp add: encode_repair_plan_def decode_repair_plan_def raw_field_def repair_plan_field_def
        field_is_def fold_names decode_value_def wf_repair_plan_def decode_encode_target norm_repair_plan_def)
qed

lemma decode_encode_rerun_plan:
  assumes "wf_rerun_plan p" shows "decode_rerun_plan (encode_rerun_plan p) = Inr (norm_rerun_plan p)"
proof -
  have "decode_pointer decode_repair_plan (encode_pointer encode_repair_plan (rr_json_repair p))
      = Some (map_option norm_repair_plan (rr_json_repair p))"
    using assms by (intro decode_encode_pointer) (auto simp: encode_not_null wf_rerun_plan_def decode_encode_repair_plan)
  with assms show ?thesis
    by (simp add: encode_rerun_plan_def decode_rerun_plan_def raw_field_def rerun_plan_field_def
        field_is_def fold_names decode_value_def wf_rerun_plan_def decode_encode_target norm_rerun_plan_def)
qed

lemma decode_encode_backoff:
  "int64 (base_delay_ms b) \<Longrightarrow> int64 (max_delay_ms b) \<Longrightarrow> decode_backoff (encode_backoff b) = Inr b"
  by (simp add: encode_backoff_def decode_backoff_def decode_required_def raw_field_def backoff_field_def
      field_is_def fold_names parse_show_int)

lemma those_decode_strings: "those (map (decode_string [] \<circ> JString) cats) = Some cats"
  by (induction cats) auto

lemma norm_target_valid: "valid_target b (norm_target t) \<longleftrightarrow> valid_target b t"
  by (auto simp: norm_target_def valid_target_def valid_options_def join_with_def)

lemma norm_repair_plan_valid: "valid_repair_plan (norm_repair_plan p) \<longleftrightarrow> valid_repair_plan p"
  by (simp add: norm_repair_plan_def option.pred_map o_def norm_target_valid valid_repair_plan_def)

lemma norm_rerun_plan_valid: "valid_rerun_plan (norm_rerun_plan p) \<longleftrightarrow> valid_rerun_plan p"
  by (simp add: norm_rerun_plan_def option.pred_map o_def norm_target_valid norm_repair_plan_valid valid_rerun_plan_def)

lemma norm_policy_valid: "valid_policy (norm_policy p) \<longleftrightarrow> valid_policy p"
  by (simp add: valid_policy_def norm_policy_def option.pred_map o_def norm_repair_plan_valid norm_rerun_plan_valid)

lemma decode_encode_policy_spec:
  assumes "valid_policy p" and "wf_policy p"
  shows "decode_policy (encode_policy p) = Inr (norm_policy p)"
proof -
  obtain cats where cats: "retry_on p = Some cats" using assms(1) by (auto simp: valid_policy_def)
  have ints: "int64 (max_attempts p)" "int64 (base_delay_ms (pol_backoff p))" "int64 (max_delay_ms (pol_backoff p))"
    using assms(1) by (auto simp: valid_policy_def int64_def)
  have "decode_pointer decode_repair_plan (encode_pointer encode_repair_plan (json_repair p))
      = Some (map_option norm_repair_plan (json_repair p))"
    using assms(2) by (intro decode_encode_pointer) (auto simp: encode_not_null wf_policy_def decode_encode_repair_plan)
  moreover have "decode_pointer decode_rerun_plan (encode_pointer encode_rerun_plan (rerun p))
      = Some (map_option norm_rerun_plan (rerun p))"
    using assms(2) by (intro decode_encode_pointer) (auto simp: encode_not_null wf_policy_def decode_encode_rerun_plan)
  moreover have "encode_backoff (pol_backoff p) \<noteq> JNull" by (simp add: encode_backoff_def)
  ultimately have "decode_fields policy_field blank_policy
      (case encode_policy p of JObject kvs \<Rightarrow> kvs) = Some (norm_policy p)"
    using ints cats
    by (simp add: encode_policy_def policy_field_def field_is_def fold_names decode_value_def decode_encode_backoff
        encode_pointer_def those_decode_strings parse_show_int blank_policy_def norm_policy_def)
  moreover have "policy_validate (norm_policy p) = None"
    using assms(1) by (simp add: policy_validate_spec norm_policy_valid)
  ultimately show ?thesis
    using cats by (simp add: encode_policy_def decode_policy_def raw_field_def encode_pointer_def encode_backoff_def)
qed

lemma decode_encode_default: "decode_policy (encode_policy default_policy) = Inr (norm_policy default_policy)"
  using valid_default_policy
  by (intro decode_encode_policy_spec)
     (simp_all add: wf_policy_def default_policy_def wf_repair_plan_def wf_target_def zero_target_def Let_def)

theorem decode_policy_valid_witness: "valid_policy (norm_policy default_policy)"
  using decode_policy_valid [of "encode_policy default_policy" "norm_policy default_policy"]
  by (simp add: decode_encode_default)



end
