(* ===== verification/Accounting.thy ===== *)
theory Accounting
  imports Go_Float
begin

text \<open>
  Token usage, cost certainty and ledgers of \<open>internal/accounting/accounting.go\<close>. Token and
  observation counts are \<open>int64\<close> values kept as integers, with the wrap-around of Go's addition
  written out wherever the code adds; costs are binary64 numbers, multiplied and added without
  fusing. A function that returns a zero value beside an error is a sum (\<open>Inl\<close> the error);
  \<open>ResolveCost\<close>, which may return a non-zero cost beside an error, is a pair.
\<close>

section \<open>Errors and checked sums\<close>

datatype acc_error =
    UnsupportedUsageStatus string | NegativeTokenCount | UnavailableHasTokens | InconsistentUsage
  | InvalidSubtotal | NegativeObservationCount | InvalidExactCoverage | InvalidPartialCoverage
  | InvalidUnknownCoverage | UnavailableHasObservations | UnsupportedCostStatus string
  | NilAccumulator | NegativeSummand | IntegerOverflow
  | ItemsRequired | UnsupportedItem string | NegativeItemTokens string | InvalidItemRate string
  | ConflictingRate string

fun checked_sum_from :: "int \<Rightarrow> int list \<Rightarrow> acc_error + int" where
  "checked_sum_from r [] = Inr r"
| "checked_sum_from r (v # vs) =
     (if v < 0 then Inl NegativeSummand
      else if wrap64 (max_int64 - r) < v then Inl IntegerOverflow
      else checked_sum_from (wrap64 (r + v)) vs)"

definition checked_sum :: "int list \<Rightarrow> acc_error + int" where
  "checked_sum vs = checked_sum_from 0 vs"

text \<open>\<open>value, _ := checkedSum(...)\<close>: a failed sum leaves zero.\<close>

definition sum_or_zero :: "int list \<Rightarrow> int" where
  "sum_or_zero vs = (case checked_sum vs of Inl e \<Rightarrow> 0 | Inr v \<Rightarrow> v)"

section \<open>Usage\<close>

abbreviation UsageComplete :: string where "UsageComplete \<equiv> ''complete''"
abbreviation UsagePartial :: string where "UsagePartial \<equiv> ''partial''"
abbreviation UsageUnavailable :: string where "UsageUnavailable \<equiv> ''unavailable''"
abbreviation UsageInconsistent :: string where "UsageInconsistent \<equiv> ''inconsistent''"

record usage =
  input_tokens :: int
  cache_read_tokens :: int
  cache_creation_tokens :: int
  output_tokens :: int
  reasoning_tokens :: int
  usage_status :: string

definition token_counts :: "usage \<Rightarrow> int list" where
  "token_counts u = [input_tokens u, cache_read_tokens u, cache_creation_tokens u,
     output_tokens u, reasoning_tokens u]"

definition component_total_unsafe :: "usage \<Rightarrow> int" where
  "component_total_unsafe u = wrap64 (wrap64 (wrap64 (wrap64 (input_tokens u + cache_read_tokens u)
     + cache_creation_tokens u) + output_tokens u) + reasoning_tokens u)"

definition usage_validate :: "usage \<Rightarrow> acc_error option" where
  "usage_validate u =
     (if usage_status u \<notin> {UsageComplete, UsagePartial, UsageUnavailable, UsageInconsistent}
      then Some (UnsupportedUsageStatus (usage_status u))
      else if list_ex (\<lambda>v. v < 0) (token_counts u) then Some NegativeTokenCount
      else if usage_status u = UsageUnavailable \<and> component_total_unsafe u \<noteq> 0 then Some UnavailableHasTokens
      else if usage_status u = UsageInconsistent then Some InconsistentUsage
      else (case checked_sum (token_counts u) of Inl e \<Rightarrow> Some e | Inr _ \<Rightarrow> None))"

definition complete_usage :: "int \<Rightarrow> int \<Rightarrow> int \<Rightarrow> int \<Rightarrow> int \<Rightarrow> acc_error + usage" where
  "complete_usage inp cr cc out reas =
     (let u = \<lparr>input_tokens = inp, cache_read_tokens = cr, cache_creation_tokens = cc,
               output_tokens = out, reasoning_tokens = reas, usage_status = UsageComplete\<rparr>
      in case usage_validate u of Some e \<Rightarrow> Inl e | None \<Rightarrow> Inr u)"

definition unavailable_usage :: usage where
  "unavailable_usage = \<lparr>input_tokens = 0, cache_read_tokens = 0, cache_creation_tokens = 0,
     output_tokens = 0, reasoning_tokens = 0, usage_status = UsageUnavailable\<rparr>"

definition prompt_tokens :: "usage \<Rightarrow> int" where
  "prompt_tokens u = sum_or_zero [input_tokens u, cache_read_tokens u, cache_creation_tokens u]"

definition completion_tokens :: "usage \<Rightarrow> int" where
  "completion_tokens u = sum_or_zero [output_tokens u, reasoning_tokens u]"

definition total_tokens :: "usage \<Rightarrow> int" where
  "total_tokens u = sum_or_zero (token_counts u)"

text \<open>The loop over the five pairs stops at the first failed sum.\<close>

fun sum_pairs :: "(int \<times> int) list \<Rightarrow> acc_error + int list" where
  "sum_pairs [] = Inr []"
| "sum_pairs ((a, b) # ps) =
     (case checked_sum [a, b] of Inl e \<Rightarrow> Inl e
      | Inr v \<Rightarrow> (case sum_pairs ps of Inl e \<Rightarrow> Inl e | Inr vs \<Rightarrow> Inr (v # vs)))"

definition usage_of_counts :: "int list \<Rightarrow> string \<Rightarrow> usage" where
  "usage_of_counts vs st = \<lparr>input_tokens = vs ! 0, cache_read_tokens = vs ! 1,
     cache_creation_tokens = vs ! 2, output_tokens = vs ! 3, reasoning_tokens = vs ! 4, usage_status = st\<rparr>"

definition add_usage :: "usage \<Rightarrow> usage \<Rightarrow> acc_error + usage" where
  "add_usage l r =
     (if usage_status l = UsageUnavailable then
        (case usage_validate r of Some e \<Rightarrow> Inl e | None \<Rightarrow> Inr r)
      else if usage_status r = UsageUnavailable then
        (case usage_validate l of Some e \<Rightarrow> Inl e | None \<Rightarrow> Inr l)
      else case usage_validate l of Some e \<Rightarrow> Inl e | None \<Rightarrow>
       (case usage_validate r of Some e \<Rightarrow> Inl e | None \<Rightarrow>
         (case sum_pairs (zip (token_counts l) (token_counts r)) of Inl e \<Rightarrow> Inl e
          | Inr vs \<Rightarrow>
            (let st = (if usage_status l = UsagePartial \<or> usage_status r = UsagePartial
                       then UsagePartial else UsageComplete);
                 u = usage_of_counts vs st
             in case usage_validate u of Some e \<Rightarrow> Inl e | None \<Rightarrow> Inr u))))"

section \<open>Cost\<close>

abbreviation CostExact :: string where "CostExact \<equiv> ''exact''"
abbreviation CostPartial :: string where "CostPartial \<equiv> ''partial''"
abbreviation CostUnknown :: string where "CostUnknown \<equiv> ''unknown''"
abbreviation CostUnavailable :: string where "CostUnavailable \<equiv> ''unavailable''"

record cost =
  known_subtotal :: float64
  cost_status :: string
  cost_source :: string
  known_observations :: int
  unknown_observations :: int

definition round_cost :: "float64 \<Rightarrow> float64" where
  "round_cost v = f64_div_by (math_round (f64_mul v (Fin 1000000000000))) 1000000000000"

definition exact_cost :: "float64 \<Rightarrow> string \<Rightarrow> cost" where
  "exact_cost v src = \<lparr>known_subtotal = round_cost v, cost_status = CostExact,
     cost_source = trim_space src, known_observations = 1, unknown_observations = 0\<rparr>"

definition unknown_cost :: "string \<Rightarrow> cost" where
  "unknown_cost src = \<lparr>known_subtotal = Fin 0, cost_status = CostUnknown,
     cost_source = trim_space src, known_observations = 0, unknown_observations = 1\<rparr>"

definition unavailable_cost :: cost where
  "unavailable_cost = \<lparr>known_subtotal = Fin 0, cost_status = CostUnavailable, cost_source = [],
     known_observations = 0, unknown_observations = 0\<rparr>"

definition zero_cost :: cost where
  "zero_cost = unavailable_cost\<lparr>cost_status := []\<rparr>"

definition invalid_amount :: "float64 \<Rightarrow> bool" where
  "invalid_amount x \<longleftrightarrow> x = NaN \<or> is_inf x \<or> f64_less x (Fin 0)"

definition cost_validate :: "cost \<Rightarrow> acc_error option" where
  "cost_validate c =
     (if invalid_amount (known_subtotal c) then Some InvalidSubtotal
      else if known_observations c < 0 \<or> unknown_observations c < 0 then Some NegativeObservationCount
      else if cost_status c = CostExact then
        (if known_observations c = 0 \<or> unknown_observations c \<noteq> 0 then Some InvalidExactCoverage else None)
      else if cost_status c = CostPartial then
        (if known_observations c = 0 \<or> unknown_observations c = 0 then Some InvalidPartialCoverage else None)
      else if cost_status c = CostUnknown then
        (if known_observations c \<noteq> 0 \<or> unknown_observations c = 0 \<or> known_subtotal c \<noteq> Fin 0
         then Some InvalidUnknownCoverage else None)
      else if cost_status c = CostUnavailable then
        (if known_observations c \<noteq> 0 \<or> unknown_observations c \<noteq> 0 \<or> known_subtotal c \<noteq> Fin 0
         then Some UnavailableHasObservations else None)
      else Some (UnsupportedCostStatus (cost_status c)))"

definition merge_source :: "string \<Rightarrow> string \<Rightarrow> string" where
  "merge_source left right = (let l = trim_space left; r = trim_space right in
     if l = [] then r else if r = [] \<or> l = r then l else ''mixed'')"

definition coverage_status :: "int \<Rightarrow> int \<Rightarrow> string" where
  "coverage_status known unknown =
     (if 0 < known \<and> 0 < unknown then CostPartial else if 0 < known then CostExact else CostUnknown)"

definition add_cost :: "cost \<Rightarrow> cost \<Rightarrow> acc_error + cost" where
  "add_cost l r =
     (if cost_status l = CostUnavailable then
        (case cost_validate r of Some e \<Rightarrow> Inl e | None \<Rightarrow> Inr r)
      else if cost_status r = CostUnavailable then
        (case cost_validate l of Some e \<Rightarrow> Inl e | None \<Rightarrow> Inr l)
      else case cost_validate l of Some e \<Rightarrow> Inl e | None \<Rightarrow>
       (case cost_validate r of Some e \<Rightarrow> Inl e | None \<Rightarrow>
         (let known = wrap64 (known_observations l + known_observations r);
              unknown = wrap64 (unknown_observations l + unknown_observations r);
              c = \<lparr>known_subtotal = round_cost (f64_add (known_subtotal l) (known_subtotal r)),
                   cost_status = coverage_status known unknown,
                   cost_source = merge_source (cost_source l) (cost_source r),
                   known_observations = known, unknown_observations = unknown\<rparr>
          in case cost_validate c of Some e \<Rightarrow> Inl e | None \<Rightarrow> Inr c)))"

section \<open>Ledgers and the provider accumulator\<close>

record ledger =
  ledger_usage :: usage
  ledger_cost :: cost

definition empty_ledger :: ledger where
  "empty_ledger = \<lparr>ledger_usage = unavailable_usage, ledger_cost = unavailable_cost\<rparr>"

definition add_ledger :: "ledger \<Rightarrow> ledger \<Rightarrow> acc_error + ledger" where
  "add_ledger l r =
     (case add_usage (ledger_usage l) (ledger_usage r) of Inl e \<Rightarrow> Inl e | Inr u \<Rightarrow>
       (case add_cost (ledger_cost l) (ledger_cost r) of Inl e \<Rightarrow> Inl e | Inr c \<Rightarrow>
         Inr \<lparr>ledger_usage = u, ledger_cost = c\<rparr>))"

record provider_accumulator =
  acc_ledger :: ledger
  missing_usage :: bool

definition new_provider_accumulator :: provider_accumulator where
  "new_provider_accumulator = \<lparr>acc_ledger = empty_ledger, missing_usage = False\<rparr>"

definition set_usage :: "usage \<Rightarrow> provider_accumulator \<Rightarrow> provider_accumulator" where
  "set_usage u a = a\<lparr>acc_ledger := (acc_ledger a)\<lparr>ledger_usage := u\<rparr>\<rparr>"

definition set_cost :: "cost \<Rightarrow> provider_accumulator \<Rightarrow> provider_accumulator" where
  "set_cost c a = a\<lparr>acc_ledger := (acc_ledger a)\<lparr>ledger_cost := c\<rparr>\<rparr>"

definition add_unknown_cost :: "provider_accumulator \<Rightarrow> provider_accumulator" where
  "add_unknown_cost a = (case add_cost (ledger_cost (acc_ledger a)) (unknown_cost ''unknown'') of
     Inl e \<Rightarrow> a | Inr c \<Rightarrow> set_cost c a)"

definition usage_measured :: "ledger \<Rightarrow> bool" where
  "usage_measured obs \<longleftrightarrow> usage_validate (ledger_usage obs) = None
     \<and> usage_status (ledger_usage obs) \<noteq> UsageUnavailable"

definition cost_measured :: "ledger \<Rightarrow> bool" where
  "cost_measured obs \<longleftrightarrow> cost_validate (ledger_cost obs) = None
     \<and> cost_status (ledger_cost obs) \<noteq> CostUnavailable"

definition observed :: "bool \<Rightarrow> ledger \<Rightarrow> bool" where
  "observed dispatched obs \<longleftrightarrow> dispatched \<or> usage_measured obs \<or> cost_measured obs"

definition first_error :: "acc_error option \<Rightarrow> acc_error option \<Rightarrow> acc_error option" where
  "first_error first next = (if first = None then next else first)"

definition observe_usage :: "bool \<Rightarrow> usage \<Rightarrow> provider_accumulator \<Rightarrow> provider_accumulator \<times> acc_error option" where
  "observe_usage seen u a =
     (case usage_validate u of
        Some e \<Rightarrow> (if seen then a\<lparr>missing_usage := True\<rparr> else a, Some e)
      | None \<Rightarrow>
        (if usage_status u = UsageUnavailable then (if seen then a\<lparr>missing_usage := True\<rparr> else a, None)
         else case add_usage (ledger_usage (acc_ledger a)) u of
            Inl e \<Rightarrow> (a\<lparr>missing_usage := True\<rparr>, Some e)
          | Inr u' \<Rightarrow> (set_usage u' a, None)))"

definition observe_cost :: "bool \<Rightarrow> cost \<Rightarrow> provider_accumulator \<Rightarrow> provider_accumulator \<times> acc_error option" where
  "observe_cost seen c a =
     (case cost_validate c of
        Some e \<Rightarrow> (if seen then add_unknown_cost a else a, Some e)
      | None \<Rightarrow>
        (if cost_status c = CostUnavailable then (if seen then add_unknown_cost a else a, None)
         else case add_cost (ledger_cost (acc_ledger a)) c of
            Inl e \<Rightarrow> (if seen then add_unknown_cost a else a, Some e)
          | Inr c' \<Rightarrow> (set_cost c' a, None)))"

definition observe :: "bool \<Rightarrow> ledger \<Rightarrow> provider_accumulator \<Rightarrow> provider_accumulator \<times> acc_error option" where
  "observe dispatched obs a =
     (let seen = observed dispatched obs;
          (a1, e1) = observe_usage seen (ledger_usage obs) a;
          (a2, e2) = observe_cost seen (ledger_cost obs) a1
      in (a2, first_error e1 e2))"

text \<open>The method on a pointer receiver, nil included.\<close>

definition observe_pointer :: "bool \<Rightarrow> ledger \<Rightarrow> provider_accumulator option
    \<Rightarrow> provider_accumulator option \<times> acc_error option" where
  "observe_pointer dispatched obs p = (case p of
     None \<Rightarrow> (None, Some NilAccumulator)
   | Some a \<Rightarrow> (case observe dispatched obs a of (a', e) \<Rightarrow> (Some a', e)))"

definition accumulator_ledger :: "provider_accumulator \<Rightarrow> ledger" where
  "accumulator_ledger a =
     (let l = acc_ledger a in
      if missing_usage a \<and> usage_status (ledger_usage l) \<noteq> UsageUnavailable
      then l\<lparr>ledger_usage := (ledger_usage l)\<lparr>usage_status := UsagePartial\<rparr>\<rparr> else l)"

section \<open>Resolving a cost from rates\<close>

record pricing =
  rate_input :: "float64 option"
  rate_cache_read :: "float64 option"
  rate_cache_creation :: "float64 option"
  rate_output :: "float64 option"
  rate_reasoning :: "float64 option"

definition rates :: "pricing \<Rightarrow> float64 option list" where
  "rates p = [rate_input p, rate_cache_read p, rate_cache_creation p, rate_output p, rate_reasoning p]"

definition all_rates_missing :: "float64 option list \<Rightarrow> bool" where
  "all_rates_missing rs \<longleftrightarrow> list_all (\<lambda>r. r = None) rs"

definition rate_missing :: "float64 option \<Rightarrow> bool" where
  "rate_missing r \<longleftrightarrow> (case r of None \<Rightarrow> True | Some x \<Rightarrow> invalid_amount x)"

fun price_counts :: "(int \<times> float64 option) list \<Rightarrow> float64 \<times> int \<times> int \<Rightarrow> float64 \<times> int \<times> int" where
  "price_counts [] acc = acc"
| "price_counts ((n, rate) # ps) (subtotal, known, unknown) =
     (if n = 0 then price_counts ps (subtotal, known, unknown)
      else if rate_missing rate then price_counts ps (subtotal, known, wrap64 (unknown + 1))
      else price_counts ps (round_cost (f64_add subtotal (f64_mul (f64_of_int n) (the rate))),
             wrap64 (known + 1), unknown))"

definition resolve_cost :: "usage \<Rightarrow> pricing \<Rightarrow> float64 option \<Rightarrow> cost \<times> acc_error option" where
  "resolve_cost u p reported =
     (case reported of
        Some x \<Rightarrow> (let c = exact_cost x ''reported'' in (c, cost_validate c))
      | None \<Rightarrow>
       (case usage_validate u of
          Some e \<Rightarrow> (zero_cost, Some e)
        | None \<Rightarrow>
          (if usage_status u = UsageUnavailable then (unavailable_cost, None)
           else let (subtotal, known, unknown) = price_counts (zip (token_counts u) (rates p)) (Fin 0, 0, 0) in
             if known = 0 \<and> unknown = 0 then
               (if all_rates_missing (rates p) then (unknown_cost ''missing_rate'', None)
                else (exact_cost (Fin 0) ''profile'', None))
             else
               let c = (if 0 < known \<and> 0 < unknown then
                          \<lparr>known_subtotal = subtotal, cost_status = CostPartial, cost_source = ''profile'',
                           known_observations = 1, unknown_observations = 1\<rparr>
                        else if 0 < known then
                          \<lparr>known_subtotal = subtotal, cost_status = CostExact, cost_source = ''profile'',
                           known_observations = 1, unknown_observations = 0\<rparr>
                        else
                          \<lparr>known_subtotal = subtotal, cost_status = CostUnknown, cost_source = ''missing_rate'',
                           known_observations = 0, unknown_observations = 1\<rparr>)
               in (c, cost_validate c))))"

section \<open>Checked sums and the validity of a usage\<close>

lemma checked_sum_from_iff:
  assumes "0 \<le> r" and "r \<le> max_int64"
  shows "checked_sum_from r vs = Inr s \<longleftrightarrow>
    (\<forall>v \<in> set vs. 0 \<le> v) \<and> r + sum_list vs \<le> max_int64 \<and> s = r + sum_list vs"
  using assms
proof (induction vs arbitrary: r)
  case Nil
  then show ?case by auto
next
  case (Cons v vs)
  have w: "wrap64 (max_int64 - r) = max_int64 - r" using Cons.prems by (intro wrap64_id) (simp add: int64_def)
  show ?case
  proof (cases "0 \<le> v \<and> v \<le> max_int64 - r")
    case True
    then have "wrap64 (r + v) = r + v" using Cons.prems by (intro wrap64_id) (simp add: int64_def)
    with True w Cons.IH [of "r + v"] Cons.prems show ?thesis by (auto simp: algebra_simps)
  next
    case False
    have "\<not> r + sum_list (v # vs) \<le> max_int64" if "0 \<le> v" "\<forall>x \<in> set vs. 0 \<le> x"
    proof -
      have "0 \<le> sum_list vs" using that(2) by (simp add: sum_list_nonneg)
      with False that(1) show ?thesis by simp
    qed
    with False w show ?thesis by auto
  qed
qed

lemma checked_sum_iff:
  "checked_sum vs = Inr s \<longleftrightarrow> (\<forall>v \<in> set vs. 0 \<le> v) \<and> sum_list vs \<le> max_int64 \<and> s = sum_list vs"
  by (simp add: checked_sum_def checked_sum_from_iff)

lemma checked_sum_from_error:
  "checked_sum_from r vs = Inl e \<Longrightarrow> \<forall>v \<in> set vs. 0 \<le> v \<Longrightarrow> e = IntegerOverflow"
  by (induction vs arbitrary: r) (auto split: if_splits)

lemma checked_sum_value:
  assumes "\<forall>v \<in> set vs. 0 \<le> v"
  shows "checked_sum vs = (if sum_list vs \<le> max_int64 then Inr (sum_list vs) else Inl IntegerOverflow)"
proof (cases "checked_sum vs")
  case (Inl e)
  with checked_sum_from_error [of 0 vs e] assms have "e = IntegerOverflow" by (simp add: checked_sum_def)
  moreover have "\<not> sum_list vs \<le> max_int64" using Inl checked_sum_iff [of vs "sum_list vs"] assms by auto
  ultimately show ?thesis using Inl by simp
next
  case (Inr s)
  then show ?thesis using checked_sum_iff [of vs s] by simp
qed

definition usage_total :: "usage \<Rightarrow> int" where
  "usage_total u = sum_list (token_counts u)"

definition valid_usage :: "usage \<Rightarrow> bool" where
  "valid_usage u \<longleftrightarrow> usage_status u \<in> {UsageComplete, UsagePartial, UsageUnavailable}
     \<and> (\<forall>v \<in> set (token_counts u). 0 \<le> v) \<and> usage_total u \<le> max_int64
     \<and> (usage_status u = UsageUnavailable \<longrightarrow> (\<forall>v \<in> set (token_counts u). v = 0))"

lemma component_total_exact:
  assumes "\<forall>v \<in> set (token_counts u). 0 \<le> v" and "usage_total u \<le> max_int64"
  shows "component_total_unsafe u = usage_total u"
proof -
  have ok: "int64 x" if "0 \<le> x" "x \<le> usage_total u" for x
    using that assms(2) by (simp add: int64_def)
  show ?thesis
    using assms by (simp add: component_total_unsafe_def usage_total_def token_counts_def ok add.assoc)
qed

lemma usage_validate_spec: "usage_validate u = None \<longleftrightarrow> valid_usage u"
proof (cases "(\<forall>v \<in> set (token_counts u). 0 \<le> v) \<and> usage_total u \<le> max_int64")
  case True
  then have zero: "usage_total u = 0 \<longleftrightarrow> (\<forall>v \<in> set (token_counts u). v = 0)"
    unfolding usage_total_def by (intro sum_list_nonneg_eq_0_iff) auto
  from True have "checked_sum (token_counts u) = Inr (usage_total u)" by (simp add: checked_sum_value usage_total_def)
  with True zero component_total_exact [of u] show ?thesis
    by (auto simp: usage_validate_def valid_usage_def list_ex_iff not_less)
next
  case False
  then have "checked_sum (token_counts u) \<noteq> Inr s" for s by (auto simp: checked_sum_iff usage_total_def)
  with False show ?thesis
    by (auto simp: usage_validate_def valid_usage_def list_ex_iff split: sum.splits)
qed

text \<open>
  C37. \<open>Usage.Validate\<close> accepts exactly the usages with a reportable status, no negative count
  and a total that fits \<open>int64\<close>, and with no tokens at all if unavailable: the unchecked
  total it compares with zero may wrap around, but the checked sum then refuses the usage.
\<close>

theorem usage_validate_iff: "usage_validate u = None \<longleftrightarrow> valid_usage u"
  by (rule usage_validate_spec)

section \<open>Adding usages\<close>

definition usage_plus :: "usage \<Rightarrow> usage \<Rightarrow> usage" where
  "usage_plus l r =
     (if usage_status l = UsageUnavailable then r
      else if usage_status r = UsageUnavailable then l
      else usage_of_counts (map2 (+) (token_counts l) (token_counts r))
        (if usage_status l = UsagePartial \<or> usage_status r = UsagePartial then UsagePartial else UsageComplete))"

lemma sum_pairs_value:
  assumes "\<forall>(a, b) \<in> set ps. 0 \<le> a \<and> 0 \<le> b"
  shows "sum_pairs ps = (if \<forall>(a, b) \<in> set ps. a + b \<le> max_int64
     then Inr (map (\<lambda>(a, b). a + b) ps) else Inl IntegerOverflow)"
  using assms by (induction ps rule: sum_pairs.induct) (auto simp: checked_sum_value split: if_splits)

lemma token_counts_of_counts: "length vs = 5 \<Longrightarrow> token_counts (usage_of_counts vs st) = vs"
  by (auto simp: token_counts_def usage_of_counts_def numeral_eq_Suc length_Suc_conv)

lemma usage_status_of_counts [simp]: "usage_status (usage_of_counts vs st) = st"
  by (simp add: usage_of_counts_def)

lemma length_token_counts [simp]: "length (token_counts u) = 5"
  by (simp add: token_counts_def)

lemma token_counts_eqI:
  "token_counts u = token_counts v \<Longrightarrow> usage_status u = usage_status v \<Longrightarrow> (u :: usage) = v"
  by (simp add: token_counts_def)

lemma sum_list_map2_plus:
  "length xs = length ys \<Longrightarrow> sum_list (map2 (+) xs ys) = sum_list xs + (sum_list ys :: int)"
  by (induction xs ys rule: list_induct2) auto

lemma valid_unavailable_counts:
  assumes "valid_usage u" and "usage_status u = UsageUnavailable"
  shows "u = unavailable_usage" and "token_counts u = [0, 0, 0, 0, 0]" and "usage_total u = 0"
  using assms by (auto simp: valid_usage_def token_counts_def unavailable_usage_def usage_total_def)

lemma token_counts_plus:
  assumes "valid_usage l" and "valid_usage r"
  shows "token_counts (usage_plus l r) = map2 (+) (token_counts l) (token_counts r)"
proof -
  have "map2 (+) [0, 0, 0, 0, 0] (token_counts x) = token_counts x"
    and "map2 (+) (token_counts x) [0, 0, 0, 0, 0] = token_counts x" for x
    by (simp_all add: token_counts_def)
  with assms valid_unavailable_counts(2) show ?thesis
    by (auto simp: usage_plus_def token_counts_of_counts)
qed

lemma usage_total_plus:
  assumes "valid_usage l" and "valid_usage r"
  shows "usage_total (usage_plus l r) = usage_total l + usage_total r"
  using assms by (simp add: usage_total_def token_counts_plus sum_list_map2_plus)

lemma valid_usage_nonneg: "valid_usage u \<Longrightarrow> v \<in> set (token_counts u) \<Longrightarrow> 0 \<le> v"
  by (simp add: valid_usage_def)

lemma valid_usage_total_nonneg: "valid_usage u \<Longrightarrow> 0 \<le> usage_total u"
  by (simp add: usage_total_def sum_list_nonneg valid_usage_def)

lemma set_map2_nonneg:
  "\<forall>v \<in> set xs. 0 \<le> v \<Longrightarrow> \<forall>v \<in> set ys. 0 \<le> v \<Longrightarrow> \<forall>v \<in> set (map2 (+) xs ys). (0 :: int) \<le> v"
  by (auto intro!: add_nonneg_nonneg dest: set_zip_leftD set_zip_rightD)

lemma usage_plus_status:
  "valid_usage l \<Longrightarrow> valid_usage r \<Longrightarrow> usage_status (usage_plus l r) =
     (if usage_status l = UsageUnavailable then usage_status r
      else if usage_status r = UsageUnavailable then usage_status l
      else if usage_status l = UsagePartial \<or> usage_status r = UsagePartial then UsagePartial else UsageComplete)"
  by (auto simp: usage_plus_def)

lemma valid_usage_plus:
  assumes "valid_usage l" and "valid_usage r"
  shows "valid_usage (usage_plus l r) \<longleftrightarrow> usage_total l + usage_total r \<le> max_int64"
proof -
  have "\<forall>v \<in> set (token_counts (usage_plus l r)). 0 \<le> v"
    using assms by (simp only: token_counts_plus) (intro set_map2_nonneg; simp add: valid_usage_def)
  moreover have "usage_status (usage_plus l r) \<in> {UsageComplete, UsagePartial, UsageUnavailable}"
    using assms by (auto simp: usage_plus_status valid_usage_def)
  moreover have "\<forall>v \<in> set (token_counts (usage_plus l r)). v = 0"
    if "usage_status (usage_plus l r) = UsageUnavailable"
  proof -
    from that assms have "usage_status l = UsageUnavailable" "usage_status r = UsageUnavailable"
      by (auto simp: usage_plus_status split: if_splits)
    with assms valid_unavailable_counts(2) [of l] valid_unavailable_counts(2) [of r] show ?thesis
      by (simp add: token_counts_plus)
  qed
  ultimately show ?thesis using assms by (simp add: valid_usage_def [of "usage_plus l r"] usage_total_plus)
qed

lemma pair_le_totals:
  assumes "valid_usage l" and "valid_usage r" and "(a, b) \<in> set (zip (token_counts l) (token_counts r))"
  shows "a + b \<le> usage_total l + usage_total r"
proof -
  have "a \<in> set (token_counts l)" "b \<in> set (token_counts r)"
    using assms(3) by (auto dest: set_zip_leftD set_zip_rightD)
  then have "a \<le> usage_total l" "b \<le> usage_total r"
    using assms(1,2) by (auto simp: usage_total_def valid_usage_def intro!: member_le_sum_list)
  then show ?thesis by simp
qed

lemma usage_overflow:
  assumes "\<forall>v \<in> set (token_counts u). 0 \<le> v" and "usage_status u \<in> {UsageComplete, UsagePartial}"
    and "max_int64 < usage_total u"
  shows "usage_validate u = Some IntegerOverflow"
  using assms checked_sum_value [of "token_counts u"]
  by (auto simp: usage_validate_def usage_total_def list_ex_iff not_le)

lemma add_usage_measured:
  assumes "valid_usage l" and "valid_usage r"
    and "usage_status l \<noteq> UsageUnavailable" and "usage_status r \<noteq> UsageUnavailable"
  shows "add_usage l r =
    (if usage_total l + usage_total r \<le> max_int64 then Inr (usage_plus l r) else Inl IntegerOverflow)"
proof -
  let ?ps = "zip (token_counts l) (token_counts r)"
  have nn: "\<forall>(a, b) \<in> set ?ps. 0 \<le> a \<and> 0 \<le> b"
    using valid_usage_nonneg [OF assms(1)] valid_usage_nonneg [OF assms(2)]
    by (auto dest: set_zip_leftD set_zip_rightD)
  have val: "usage_validate l = None" "usage_validate r = None"
    using assms(1,2) by (simp_all add: usage_validate_spec)
  let ?p = "usage_plus l r"
  have plus: "?p = usage_of_counts (map (\<lambda>(a, b). a + b) ?ps)
      (if usage_status l = UsagePartial \<or> usage_status r = UsagePartial then UsagePartial else UsageComplete)"
    using assms(3,4) by (simp add: usage_plus_def)
  have add: "add_usage l r = (if \<forall>(a, b) \<in> set ?ps. a + b \<le> max_int64
      then (case usage_validate ?p of Some e \<Rightarrow> Inl e | None \<Rightarrow> Inr ?p) else Inl IntegerOverflow)"
    unfolding add_usage_def Let_def plus sum_pairs_value [OF nn] using assms(3,4) val by simp
  show ?thesis
  proof (cases "usage_total l + usage_total r \<le> max_int64")
    case True
    then have "\<forall>(a, b) \<in> set ?ps. a + b \<le> max_int64" by (auto dest!: pair_le_totals [OF assms(1,2)])
    moreover have "usage_validate ?p = None"
      using True assms(1,2) by (simp add: usage_validate_spec valid_usage_plus)
    ultimately show ?thesis using True by (simp add: add)
  next
    case False
    have "usage_validate ?p = Some IntegerOverflow"
    proof (rule usage_overflow)
      show "\<forall>v \<in> set (token_counts ?p). 0 \<le> v"
        using assms(1,2) by (simp only: token_counts_plus) (intro set_map2_nonneg; simp add: valid_usage_def)
      show "usage_status ?p \<in> {UsageComplete, UsagePartial}" using assms by (simp add: usage_plus_status)
      show "max_int64 < usage_total ?p" using False assms(1,2) by (simp add: usage_total_plus)
    qed
    with False show ?thesis by (simp add: add)
  qed
qed

lemma add_usage_spec:
  assumes "valid_usage l" and "valid_usage r"
  shows "add_usage l r =
    (if usage_total l + usage_total r \<le> max_int64 then Inr (usage_plus l r) else Inl IntegerOverflow)"
proof -
  have val: "usage_validate l = None" "usage_validate r = None"
    using assms by (simp_all add: usage_validate_spec)
  have "usage_total l \<le> max_int64" "usage_total r \<le> max_int64"
    using assms by (simp_all add: valid_usage_def)
  then show ?thesis
    using add_usage_measured [OF assms] val
      valid_unavailable_counts(3) [OF assms(1)] valid_unavailable_counts(3) [OF assms(2)]
    by (cases "usage_status l = UsageUnavailable"; cases "usage_status r = UsageUnavailable")
       (simp_all add: add_usage_def usage_plus_def)
qed

text \<open>
  C36. \<open>AddUsage\<close> of two valid usages adds every token kind exactly, is partial as soon as one
  measured side is, and fails only when the grand total exceeds \<open>int64\<close>.
\<close>

theorem add_usage_exact:
  assumes "valid_usage l" and "valid_usage r"
  shows "if usage_total l + usage_total r \<le> max_int64
    then \<exists>u. add_usage l r = Inr u \<and> valid_usage u
      \<and> token_counts u = map2 (+) (token_counts l) (token_counts r)
      \<and> usage_status u = (if usage_status l = UsageUnavailable then usage_status r
          else if usage_status r = UsageUnavailable then usage_status l
          else if UsagePartial \<in> {usage_status l, usage_status r} then UsagePartial else UsageComplete)
    else add_usage l r = Inl IntegerOverflow"
  using assms by (auto simp: add_usage_spec token_counts_plus usage_plus_status valid_usage_plus)

theorem add_usage_exact_witness:
  "\<exists>u. add_usage \<lparr>input_tokens = 9, cache_read_tokens = 2, cache_creation_tokens = 0,
       output_tokens = 5, reasoning_tokens = 1, usage_status = UsageComplete\<rparr>
     \<lparr>input_tokens = 1, cache_read_tokens = 0, cache_creation_tokens = 3,
       output_tokens = 4, reasoning_tokens = 0, usage_status = UsagePartial\<rparr> = Inr u
   \<and> token_counts u = [10, 2, 3, 9, 1] \<and> usage_status u = UsagePartial"
  using add_usage_exact [of "\<lparr>input_tokens = 9, cache_read_tokens = 2, cache_creation_tokens = 0,
       output_tokens = 5, reasoning_tokens = 1, usage_status = UsageComplete\<rparr>"
     "\<lparr>input_tokens = 1, cache_read_tokens = 0, cache_creation_tokens = 3,
       output_tokens = 4, reasoning_tokens = 0, usage_status = UsagePartial\<rparr>"]
  by (auto simp: valid_usage_def usage_total_def token_counts_def)

section \<open>The contract of a partial sum\<close>

text \<open>
  What the ledger code relies on when it adds: an empty value, validity kept by every
  successful addition, and an order of the operands that does not matter.
\<close>

locale partial_sum =
  fixes add :: "'a \<Rightarrow> 'a \<Rightarrow> 'e + 'a" and empty :: 'a and valid :: "'a \<Rightarrow> bool"
  assumes valid_empty: "valid empty"
    and add_empty: "valid x \<Longrightarrow> add empty x = Inr x"
    and add_valid: "valid x \<Longrightarrow> valid y \<Longrightarrow> add x y = Inr z \<Longrightarrow> valid z"
    and add_commute: "valid x \<Longrightarrow> valid y \<Longrightarrow> add x y = Inr z \<Longrightarrow> add y x = Inr z"
begin

primrec add_all :: "'a \<Rightarrow> 'a list \<Rightarrow> 'e + 'a" where
  "add_all s [] = Inr s"
| "add_all s (x # xs) = (case add s x of Inl e \<Rightarrow> Inl e | Inr s' \<Rightarrow> add_all s' xs)"

lemma add_empty_right: "valid x \<Longrightarrow> add x empty = Inr x"
  by (rule add_commute [OF valid_empty _ add_empty])

lemma add_all_valid:
  "valid s \<Longrightarrow> \<forall>x \<in> set xs. valid x \<Longrightarrow> add_all s xs = Inr z \<Longrightarrow> valid z"
  by (induction xs arbitrary: s) (auto split: sum.splits intro: add_valid)

end

locale associative_sum = partial_sum +
  assumes add_assoc: "valid x \<Longrightarrow> valid y \<Longrightarrow> valid z \<Longrightarrow> add x y = Inr a \<Longrightarrow> add a z = Inr b
    \<Longrightarrow> \<exists>c. add y z = Inr c \<and> add x c = Inr b"
begin

lemma add_swap:
  assumes "valid s" "valid x" "valid y" "add s x = Inr a" "add a y = Inr b"
  shows "\<exists>c. add s y = Inr c \<and> add c x = Inr b"
proof -
  from add_commute [OF assms(1,2,4)] have "add x s = Inr a" .
  from add_assoc [OF assms(2,1,3) this assms(5)]
  obtain c where c: "add s y = Inr c" "add x c = Inr b" by blast
  from add_commute [OF assms(2) add_valid [OF assms(1,3) c(1)] c(2)] c(1) show ?thesis by blast
qed

lemma add_all_move:
  assumes "valid s" "\<forall>u \<in> set us. valid u" "valid x"
  shows "add_all s (us @ x # vs) = Inr z \<longleftrightarrow> add_all s (x # us @ vs) = Inr z"
  using assms(1,2)
proof (induction us arbitrary: s)
  case Nil
  then show ?case by simp
next
  case (Cons u us)
  have "add_all s (u # x # us @ vs) = Inr z \<longleftrightarrow> add_all s (x # u # us @ vs) = Inr z"
    using add_swap [of s u x] add_swap [of s x u] Cons.prems assms(3)
    by (fastforce split: sum.splits)
  with Cons add_valid [of s u] show ?case by (auto split: sum.splits)
qed

lemma add_all_perm:
  "mset xs = mset ys \<Longrightarrow> valid s \<Longrightarrow> \<forall>x \<in> set xs. valid x \<Longrightarrow> add_all s xs = Inr z \<longleftrightarrow> add_all s ys = Inr z"
proof (induction xs arbitrary: s ys)
  case Nil
  then show ?case by simp
next
  case (Cons x xs)
  have "x \<in> set ys" using Cons.prems(1) by (metis list.set_intros(1) set_mset_mset)
  then obtain us vs where ys: "ys = us @ x # vs" by (meson split_list)
  with Cons.prems(1) have ms: "mset xs = mset (us @ vs)" by simp
  then have "set us \<subseteq> set xs" by (metis Un_upper1 set_append set_mset_mset)
  then have vs: "\<forall>u \<in> set us. valid u" "valid x" "\<forall>u \<in> set xs. valid u"
    using Cons.prems by auto
  show ?case
    using Cons.IH [OF ms _ vs(3)] add_all_move [OF Cons.prems(2) vs(1,2), of vs z] add_valid [OF Cons.prems(2) vs(2)]
    by (auto simp: ys split: sum.splits)
qed

end

lemma usage_plus_commute: "valid_usage l \<Longrightarrow> valid_usage r \<Longrightarrow> usage_plus l r = usage_plus r l"
  by (rule token_counts_eqI)
     (simp add: token_counts_plus, simp add: token_counts_def, auto simp: usage_plus_status)

lemma usage_plus_assoc:
  assumes "valid_usage x" "valid_usage y" "valid_usage z" "valid_usage (usage_plus x y)" "valid_usage (usage_plus y z)"
  shows "usage_plus (usage_plus x y) z = usage_plus x (usage_plus y z)"
proof (rule token_counts_eqI)
  show "token_counts (usage_plus (usage_plus x y) z) = token_counts (usage_plus x (usage_plus y z))"
    using assms by (simp add: token_counts_plus) (simp add: token_counts_def add.assoc)
  show "usage_status (usage_plus (usage_plus x y) z) = usage_status (usage_plus x (usage_plus y z))"
    using assms by (auto simp: usage_plus_status)
qed

lemma valid_unavailable_usage: "valid_usage unavailable_usage"
  by (simp add: valid_usage_def unavailable_usage_def token_counts_def usage_total_def)

interpretation usage_sum: associative_sum add_usage unavailable_usage valid_usage
proof
  show "valid_usage unavailable_usage" by (rule valid_unavailable_usage)
  show "add_usage unavailable_usage x = Inr x" if "valid_usage x" for x
    using that usage_validate_spec [of x] by (simp add: add_usage_def unavailable_usage_def)
  show "valid_usage z" if "valid_usage x" "valid_usage y" "add_usage x y = Inr z" for x y z
    using that valid_usage_plus [of x y] by (auto simp: add_usage_spec split: if_splits)
  show "add_usage y x = Inr z" if "valid_usage x" "valid_usage y" "add_usage x y = Inr z" for x y z
    using that by (auto simp: add_usage_spec usage_plus_commute add.commute split: if_splits)
  show "\<exists>c. add_usage y z = Inr c \<and> add_usage x c = Inr b"
    if v: "valid_usage x" "valid_usage y" "valid_usage z" and a: "add_usage x y = Inr a" and b: "add_usage a z = Inr b"
    for x y z a b
  proof -
    from a v have ax: "a = usage_plus x y" and t: "usage_total x + usage_total y \<le> max_int64"
      by (auto simp: add_usage_spec split: if_splits)
    with v have va: "valid_usage a" by (simp add: valid_usage_plus)
    with b v ax have bx: "b = usage_plus a z" and t2: "usage_total x + usage_total y + usage_total z \<le> max_int64"
      by (auto simp: add_usage_spec usage_total_plus split: if_splits)
    from t2 valid_usage_total_nonneg [OF v(1)] have t3: "usage_total y + usage_total z \<le> max_int64" by simp
    with v have vc: "valid_usage (usage_plus y z)" by (simp add: valid_usage_plus)
    have "add_usage x (usage_plus y z) = Inr b"
      using v vc va t2 by (simp add: add_usage_spec usage_total_plus bx ax usage_plus_assoc add.assoc)
    moreover have "add_usage y z = Inr (usage_plus y z)" using v t3 by (simp add: add_usage_spec)
    ultimately show ?thesis by blast
  qed
qed

section \<open>Rounding of costs\<close>

definition amount :: "float64 \<Rightarrow> bool" where
  "amount x \<longleftrightarrow> x = PosInf \<or> (\<exists>a \<ge> 0. x = Fin a)"

lemma amount_simps [simp]: "amount PosInf" "amount (Fin a) \<longleftrightarrow> 0 \<le> a" "\<not> amount NaN" "\<not> amount NegInf"
  by (auto simp: amount_def)

lemma amount_round: "0 \<le> r \<Longrightarrow> amount (f64_round r)"
  using f64_round_nonneg [of r] by (auto simp: amount_def)

lemma amount_add: "amount x \<Longrightarrow> amount y \<Longrightarrow> amount (f64_add x y)"
  by (cases x; cases y) (auto intro: amount_round)

lemma amount_round_cost: "amount x \<Longrightarrow> amount (round_cost x)"
proof (cases x)
  case (Fin a)
  assume "amount x"
  with Fin have "0 \<le> a" by simp
  then have "amount (f64_mul x (Fin 1000000000000))" using Fin by (simp add: f64_mul_def amount_round)
  then show ?thesis
    by (cases "f64_mul x (Fin 1000000000000)") (auto simp: round_cost_def round_away_nonneg intro!: amount_round)
qed (auto simp: round_cost_def f64_mul_def inf_of_def)

text \<open>Up to 9007 dollars the picodollar count is exact in 53 bits, so rounding stays below any
  whole-dollar bound of its argument.\<close>

lemma round_cost_bounded:
  assumes "0 \<le> a" and "a \<le> of_int n" and "n \<le> 9007"
  shows "\<exists>b. round_cost (Fin a) = Fin b \<and> 0 \<le> b \<and> b \<le> of_int n"
proof -
  have n: "0 \<le> n" using assms(1,2) by (metis of_int_0_le_iff order_trans)
  have "a * 1000000000000 \<le> of_int (n * 1000000000000)" using assms(2) by simp
  with f64_round_between [of 0 "a * 1000000000000" "n * 1000000000000"] assms
  obtain m where m: "f64_round (a * 1000000000000) = Fin m" "0 \<le> m" "m \<le> of_int (n * 1000000000000)"
    by auto
  have "round_away m \<le> n * 1000000000000"
  proof -
    have "m + 1/2 < of_int (n * 1000000000000 + 1)" using m(3) by simp
    then have "\<lfloor>m + 1/2\<rfloor> < n * 1000000000000 + 1" by (simp only: floor_less_iff)
    with m(2) show ?thesis by (simp add: round_away_def)
  qed
  then have "of_int (round_away m) \<le> (of_int (n * 1000000000000) :: rat)" by (simp only: of_int_le_iff)
  then have "of_int (round_away m) / 1000000000000 \<le> (of_int n :: rat)" by simp
  with f64_round_between [of 0 "of_int (round_away m) / 1000000000000" n] assms(3) round_away_nonneg [OF m(2)]
  show ?thesis using m(1) by (auto simp: round_cost_def f64_mul_def)
qed

lemma wrap64_nonneg_sum:
  assumes "0 \<le> a" "a \<le> max_int64" "0 \<le> b" "b \<le> max_int64" "0 \<le> wrap64 (a + b)"
  shows "a + b \<le> max_int64" and "wrap64 (a + b) = a + b"
proof -
  show le: "a + b \<le> max_int64"
  proof (rule ccontr)
    assume "\<not> a + b \<le> max_int64"
    then have "(a + b - 9223372036854775808) mod 18446744073709551616 = a + b - 9223372036854775808"
      using assms(1-4) by (intro mod_pos_pos_trivial) auto
    moreover have "(a + b + 9223372036854775808) mod 18446744073709551616
        = (a + b - 9223372036854775808) mod 18446744073709551616"
      by (simp add: mod_eq_dvd_iff)
    ultimately show False using assms by (simp add: wrap64_def)
  qed
  with assms show "wrap64 (a + b) = a + b" by (simp add: int64_def)
qed

section \<open>Validity and addition of costs\<close>

text \<open>In a valid cost the status is a function of the coverage, and an unmeasured cost is free.\<close>

definition valid_cost :: "cost \<Rightarrow> bool" where
  "valid_cost c \<longleftrightarrow> (\<exists>a \<ge> 0. known_subtotal c = Fin a \<and> (known_observations c = 0 \<longrightarrow> a = 0))
     \<and> 0 \<le> known_observations c \<and> 0 \<le> unknown_observations c
     \<and> cost_status c = (if known_observations c = 0 \<and> unknown_observations c = 0 then CostUnavailable
         else coverage_status (known_observations c) (unknown_observations c))"

definition cost_ranges :: "cost \<Rightarrow> bool" where
  "cost_ranges c \<longleftrightarrow> known_observations c \<le> max_int64 \<and> unknown_observations c \<le> max_int64"

lemma invalid_amount_iff: "\<not> invalid_amount x \<longleftrightarrow> (\<exists>a \<ge> 0. x = Fin a)"
  by (cases x) (auto simp: invalid_amount_def is_inf_def)

lemma cost_validate_spec: "cost_validate c = None \<longleftrightarrow> valid_cost c"
proof (cases "(\<exists>a \<ge> 0. known_subtotal c = Fin a) \<and> 0 \<le> known_observations c \<and> 0 \<le> unknown_observations c")
  case True
  then obtain a where a: "known_subtotal c = Fin a" "0 \<le> a" by blast
  with True have ok: "\<not> invalid_amount (known_subtotal c)"
    "\<not> (known_observations c < 0 \<or> unknown_observations c < 0)" by (auto simp: invalid_amount_iff)
  show ?thesis
  proof (cases "known_observations c = 0"; cases "unknown_observations c = 0")
  qed (use ok True a in \<open>auto simp: cost_validate_def valid_cost_def coverage_status_def\<close>)
next
  case False
  then show ?thesis by (auto simp: cost_validate_def valid_cost_def invalid_amount_iff)
qed

lemma valid_cost_unavailable:
  "valid_cost c \<Longrightarrow> cost_status c = CostUnavailable \<longleftrightarrow> known_observations c = 0 \<and> unknown_observations c = 0"
  by (auto simp: valid_cost_def coverage_status_def)

lemma valid_cost_subtotal: "valid_cost c \<Longrightarrow> amount (known_subtotal c)"
  by (auto simp: valid_cost_def)

lemma coverage_status_cases: "coverage_status k u \<in> {CostPartial, CostExact, CostUnknown}"
  by (simp add: coverage_status_def)

definition cost_plus :: "cost \<Rightarrow> cost \<Rightarrow> cost" where
  "cost_plus l r = \<lparr>known_subtotal = round_cost (f64_add (known_subtotal l) (known_subtotal r)),
     cost_status = coverage_status (known_observations l + known_observations r)
       (unknown_observations l + unknown_observations r),
     cost_source = merge_source (cost_source l) (cost_source r),
     known_observations = known_observations l + known_observations r,
     unknown_observations = unknown_observations l + unknown_observations r\<rparr>"

lemma round_cost_zero [simp]: "round_cost (Fin 0) = Fin 0"
  using round_cost_bounded [of 0 0] by auto

lemma valid_cost_plus:
  assumes "valid_cost l" "valid_cost r" "cost_status l \<noteq> CostUnavailable"
  shows "valid_cost (cost_plus l r) \<longleftrightarrow> known_subtotal (cost_plus l r) \<noteq> PosInf"
proof -
  let ?x = "round_cost (f64_add (known_subtotal l) (known_subtotal r))"
  have am: "amount ?x" using assms(1,2) by (intro amount_round_cost amount_add valid_cost_subtotal)
  have zero: "?x = Fin 0" if "known_observations l + known_observations r = 0"
  proof -
    have "known_subtotal l = Fin 0 \<and> known_subtotal r = Fin 0"
      using that assms(1,2) by (auto simp: valid_cost_def)
    then show ?thesis by (simp add: f64_round_def)
  qed
  have "known_observations l + known_observations r \<noteq> 0 \<or> unknown_observations l + unknown_observations r \<noteq> 0"
    using assms valid_cost_unavailable [of l] by (auto simp: valid_cost_def)
  with am zero assms(1,2) show ?thesis
    by (auto simp: amount_def valid_cost_def [of "cost_plus l r"] cost_plus_def) (auto simp: valid_cost_def)
qed

definition wrapped_plus :: "cost \<Rightarrow> cost \<Rightarrow> cost" where
  "wrapped_plus l r =
     (let known = wrap64 (known_observations l + known_observations r);
          unknown = wrap64 (unknown_observations l + unknown_observations r)
      in \<lparr>known_subtotal = round_cost (f64_add (known_subtotal l) (known_subtotal r)),
          cost_status = coverage_status known unknown,
          cost_source = merge_source (cost_source l) (cost_source r),
          known_observations = known, unknown_observations = unknown\<rparr>)"

lemma add_cost_measured:
  assumes "valid_cost l" "valid_cost r" "cost_status l \<noteq> CostUnavailable" "cost_status r \<noteq> CostUnavailable"
  shows "add_cost l r = (case cost_validate (wrapped_plus l r) of Some e \<Rightarrow> Inl e | None \<Rightarrow> Inr (wrapped_plus l r))"
proof -
  have "cost_validate l = None" "cost_validate r = None" using assms by (simp_all add: cost_validate_spec)
  with assms(3,4) show ?thesis unfolding add_cost_def wrapped_plus_def Let_def by simp
qed

lemma wrapped_plus_exact: "cost_ranges (cost_plus l r) \<Longrightarrow> valid_cost l \<Longrightarrow> valid_cost r \<Longrightarrow> wrapped_plus l r = cost_plus l r"
  by (simp add: cost_ranges_def cost_plus_def wrapped_plus_def valid_cost_def int64_def Let_def)

lemma wrapped_plus_ranges:
  assumes "valid_cost l" "valid_cost r" "cost_ranges l" "cost_ranges r" "valid_cost (wrapped_plus l r)"
  shows "cost_ranges (cost_plus l r)"
proof -
  have "0 \<le> wrap64 (known_observations l + known_observations r)"
    and "0 \<le> wrap64 (unknown_observations l + unknown_observations r)"
    using assms(5) by (simp_all add: valid_cost_def wrapped_plus_def Let_def)
  then show ?thesis
    using assms(1-4) wrap64_nonneg_sum(1) [of "known_observations l" "known_observations r"]
      wrap64_nonneg_sum(1) [of "unknown_observations l" "unknown_observations r"]
    by (simp add: cost_ranges_def cost_plus_def valid_cost_def)
qed

lemma add_cost_Inr:
  assumes "valid_cost l" "valid_cost r" "cost_ranges l" "cost_ranges r"
    and "cost_status l \<noteq> CostUnavailable" "cost_status r \<noteq> CostUnavailable"
  shows "add_cost l r = Inr c \<longleftrightarrow> c = cost_plus l r \<and> known_subtotal c \<noteq> PosInf \<and> cost_ranges c"
proof -
  have "add_cost l r = Inr c \<longleftrightarrow> c = wrapped_plus l r \<and> valid_cost c"
    using cost_validate_spec [of "wrapped_plus l r"]
    by (auto simp: add_cost_measured [OF assms(1,2,5,6)] split: option.splits)
  also have "\<dots> \<longleftrightarrow> c = cost_plus l r \<and> valid_cost c \<and> cost_ranges c"
    using wrapped_plus_ranges [OF assms(1-4)] wrapped_plus_exact [OF _ assms(1,2)] by auto
  also have "\<dots> \<longleftrightarrow> c = cost_plus l r \<and> known_subtotal c \<noteq> PosInf \<and> cost_ranges c"
    using valid_cost_plus [OF assms(1,2,5)] by auto
  finally show ?thesis .
qed

lemma add_cost_identity:
  "valid_cost r \<Longrightarrow> cost_status l = CostUnavailable \<Longrightarrow> add_cost l r = Inr r"
  "valid_cost l \<Longrightarrow> cost_status l \<noteq> CostUnavailable \<Longrightarrow> cost_status r = CostUnavailable \<Longrightarrow> add_cost l r = Inr l"
  using cost_validate_spec [of r] cost_validate_spec [of l] by (simp_all add: add_cost_def)

text \<open>The costs the sum is a contract for: valid, with \<open>int64\<close> counts, and no source where
  nothing was observed.\<close>

definition wf_cost :: "cost \<Rightarrow> bool" where
  "wf_cost c \<longleftrightarrow> valid_cost c \<and> cost_ranges c \<and> (cost_status c = CostUnavailable \<longrightarrow> cost_source c = [])"

lemma wf_cost_unavailable: "wf_cost c \<Longrightarrow> cost_status c = CostUnavailable \<Longrightarrow> c = unavailable_cost"
  by (auto simp: wf_cost_def valid_cost_unavailable unavailable_cost_def) (auto simp: valid_cost_def)

lemma wf_unavailable_cost: "wf_cost unavailable_cost"
  by (simp add: wf_cost_def valid_cost_def cost_ranges_def unavailable_cost_def)

lemma cost_plus_measured: "cost_status (cost_plus l r) \<noteq> CostUnavailable"
  using coverage_status_cases by (auto simp: cost_plus_def coverage_status_def)

lemma wf_cost_plus:
  assumes "wf_cost l" "wf_cost r" "cost_status l \<noteq> CostUnavailable"
    "known_subtotal (cost_plus l r) \<noteq> PosInf" "cost_ranges (cost_plus l r)"
  shows "wf_cost (cost_plus l r)"
  using assms valid_cost_plus [of l r] cost_plus_measured by (simp add: wf_cost_def)

lemma merge_source_commute: "merge_source a b = merge_source b a"
  by (simp add: merge_source_def Let_def)

lemma f64_add_commute: "f64_add x y = f64_add y x"
  by (cases x; cases y) (simp_all add: add.commute)

lemma cost_plus_commute: "cost_plus l r = cost_plus r l"
  by (simp add: cost_plus_def merge_source_commute f64_add_commute add.commute)

lemma add_cost_wf:
  assumes "wf_cost l" "wf_cost r"
  shows "add_cost l r = Inr c \<longleftrightarrow>
    (if cost_status l = CostUnavailable then c = r else if cost_status r = CostUnavailable then c = l
     else c = cost_plus l r \<and> known_subtotal c \<noteq> PosInf \<and> cost_ranges c)"
  using assms add_cost_Inr [of l r c] add_cost_identity [of r l] add_cost_identity [of l r]
  by (auto simp: wf_cost_def)

interpretation cost_sum: partial_sum add_cost unavailable_cost wf_cost
proof
  show "wf_cost unavailable_cost" by (rule wf_unavailable_cost)
  show "add_cost unavailable_cost x = Inr x" if "wf_cost x" for x
    using that wf_unavailable_cost by (simp add: add_cost_wf) (simp add: unavailable_cost_def)
  show "wf_cost z" if "wf_cost x" "wf_cost y" "add_cost x y = Inr z" for x y z
    using that wf_cost_plus [of x y] by (auto simp: add_cost_wf split: if_splits)
  show "add_cost y x = Inr z" if "wf_cost x" "wf_cost y" "add_cost x y = Inr z" for x y z
    using that wf_cost_unavailable by (auto simp: add_cost_wf cost_plus_commute [of x y] split: if_splits)
qed

definition wf_ledger :: "ledger \<Rightarrow> bool" where
  "wf_ledger l \<longleftrightarrow> valid_usage (ledger_usage l) \<and> wf_cost (ledger_cost l)"

interpretation ledger_sum: partial_sum add_ledger empty_ledger wf_ledger
proof
  show "wf_ledger empty_ledger"
    by (simp add: wf_ledger_def empty_ledger_def valid_unavailable_usage wf_unavailable_cost)
  show "add_ledger empty_ledger x = Inr x" if "wf_ledger x" for x
    using that by (simp add: add_ledger_def empty_ledger_def wf_ledger_def usage_sum.add_empty cost_sum.add_empty)
  show "wf_ledger z" if "wf_ledger x" "wf_ledger y" "add_ledger x y = Inr z" for x y z
    using that by (auto simp: add_ledger_def wf_ledger_def split: sum.splits
        intro: usage_sum.add_valid cost_sum.add_valid)
  show "add_ledger y x = Inr z" if "wf_ledger x" "wf_ledger y" "add_ledger x y = Inr z" for x y z
    using that by (auto simp: add_ledger_def wf_ledger_def split: sum.splits
        dest: usage_sum.add_commute cost_sum.add_commute)
qed

end
