(* ===== verification/Accumulator.thy ===== *)
theory Accumulator
  imports Accounting
begin

text \<open>
  What the provider accumulator of \<open>internal/accounting/accounting.go\<close> guarantees over any
  sequence of observed attempts, and what \<open>ResolveCost\<close> reports for a usage and its rates.
\<close>

definition observe_all :: "(bool \<times> ledger) list \<Rightarrow> provider_accumulator \<Rightarrow> provider_accumulator" where
  "observe_all obs a = foldl (\<lambda>a (dispatched, ob). fst (observe dispatched ob a)) a obs"

definition measured_usages :: "(bool \<times> ledger) list \<Rightarrow> usage list" where
  "measured_usages obs = map (ledger_usage \<circ> snd) (filter (usage_measured \<circ> snd) obs)"

definition usage_gap :: "(bool \<times> ledger) list \<Rightarrow> bool" where
  "usage_gap obs \<longleftrightarrow> (\<exists>(dispatched, ob) \<in> set obs. observed dispatched ob \<and> \<not> usage_measured ob)"

definition measured_costs :: "(bool \<times> ledger) list \<Rightarrow> cost list" where
  "measured_costs obs = map (ledger_cost \<circ> snd) (filter (cost_measured \<circ> snd) obs)"

definition unmeasured_costs :: "(bool \<times> ledger) list \<Rightarrow> int" where
  "unmeasured_costs obs = int (length (filter (\<lambda>(dispatched, ob). observed dispatched ob \<and> \<not> cost_measured ob) obs))"

definition ranged :: "(bool \<times> ledger) list \<Rightarrow> bool" where
  "ranged obs \<longleftrightarrow> (\<forall>(dispatched, ob) \<in> set obs. cost_ranges (ledger_cost ob))"

section \<open>One observation\<close>

abbreviation a_usage :: "provider_accumulator \<Rightarrow> usage" where
  "a_usage a \<equiv> ledger_usage (acc_ledger a)"

abbreviation a_cost :: "provider_accumulator \<Rightarrow> cost" where
  "a_cost a \<equiv> ledger_cost (acc_ledger a)"

definition or_keep :: "acc_error + 'a \<Rightarrow> 'a \<Rightarrow> 'a" where
  "or_keep r old = (case r of Inl _ \<Rightarrow> old | Inr new \<Rightarrow> new)"

definition bump_unknown :: "cost \<Rightarrow> cost" where
  "bump_unknown c = or_keep (add_cost c (unknown_cost ''unknown'')) c"

lemma set_parts [simp]:
  "a_usage (set_usage u a) = u" "a_cost (set_usage u a) = a_cost a" "missing_usage (set_usage u a) = missing_usage a"
  "a_cost (set_cost c a) = c" "a_usage (set_cost c a) = a_usage a" "missing_usage (set_cost c a) = missing_usage a"
  by (simp_all add: set_usage_def set_cost_def)

lemma add_unknown_cost_parts [simp]:
  "a_cost (add_unknown_cost a) = bump_unknown (a_cost a)" "a_usage (add_unknown_cost a) = a_usage a"
  "missing_usage (add_unknown_cost a) = missing_usage a"
  by (simp_all add: add_unknown_cost_def bump_unknown_def or_keep_def split: sum.splits)

lemma observe_usage_parts:
  assumes "seen = observed d ob"
  shows "a_usage (fst (observe_usage seen (ledger_usage ob) a)) =
      (if usage_measured ob then or_keep (add_usage (a_usage a) (ledger_usage ob)) (a_usage a) else a_usage a)"
    and "a_cost (fst (observe_usage seen (ledger_usage ob) a)) = a_cost a"
    and "missing_usage (fst (observe_usage seen (ledger_usage ob) a)) \<longleftrightarrow> missing_usage a
      \<or> seen \<and> (\<not> usage_measured ob \<or> (\<nexists>u. add_usage (a_usage a) (ledger_usage ob) = Inr u))"
  using assms
  by (auto simp: observe_usage_def usage_measured_def observed_def or_keep_def split: option.splits sum.splits)

lemma observe_cost_parts:
  assumes "seen = observed d ob"
  shows "a_cost (fst (observe_cost seen (ledger_cost ob) a)) =
      (if cost_measured ob then
         (case add_cost (a_cost a) (ledger_cost ob) of Inr c \<Rightarrow> c | Inl _ \<Rightarrow> bump_unknown (a_cost a))
       else if seen then bump_unknown (a_cost a) else a_cost a)"
    and "a_usage (fst (observe_cost seen (ledger_cost ob) a)) = a_usage a"
    and "missing_usage (fst (observe_cost seen (ledger_cost ob) a)) = missing_usage a"
  using assms by (auto simp: observe_cost_def cost_measured_def observed_def split: option.splits sum.splits)

lemma observe_fst:
  "fst (observe d ob a) = fst (observe_cost (observed d ob) (ledger_cost ob)
     (fst (observe_usage (observed d ob) (ledger_usage ob) a)))"
  by (simp add: observe_def Let_def split: prod.splits)

lemma observe_usage_after:
  "a_usage (fst (observe d ob a)) =
     (if usage_measured ob then or_keep (add_usage (a_usage a) (ledger_usage ob)) (a_usage a) else a_usage a)"
  by (simp add: observe_fst observe_cost_parts(2) [OF refl] observe_usage_parts(1) [OF refl])

lemma observe_missing_after:
  "missing_usage (fst (observe d ob a)) \<longleftrightarrow> missing_usage a
     \<or> observed d ob \<and> (\<not> usage_measured ob \<or> (\<nexists>u. add_usage (a_usage a) (ledger_usage ob) = Inr u))"
  by (simp add: observe_fst observe_cost_parts(3) [OF refl] observe_usage_parts(3) [OF refl])

lemma observe_cost_after:
  "a_cost (fst (observe d ob a)) =
     (if cost_measured ob then
        (case add_cost (a_cost a) (ledger_cost ob) of Inr c \<Rightarrow> c | Inl _ \<Rightarrow> bump_unknown (a_cost a))
      else if observed d ob then bump_unknown (a_cost a) else a_cost a)"
  unfolding observe_fst observe_cost_parts(1) [OF refl] observe_usage_parts(2) [OF refl] ..

lemmas observe_after = observe_usage_after observe_missing_after observe_cost_after

section \<open>The ledger stays valid\<close>

definition acc_inv :: "provider_accumulator \<Rightarrow> bool" where
  "acc_inv a \<longleftrightarrow> wf_ledger (acc_ledger a)"

lemma wf_unknown_cost: "wf_cost (unknown_cost src)"
  by (simp add: wf_cost_def valid_cost_def cost_ranges_def unknown_cost_def coverage_status_def)

lemma bump_unknown_wf: "wf_cost c \<Longrightarrow> wf_cost (bump_unknown c)"
  by (auto simp: bump_unknown_def or_keep_def split: sum.splits intro: cost_sum.add_valid wf_unknown_cost)

lemma measured_wf:
  "usage_measured ob \<Longrightarrow> valid_usage (ledger_usage ob)"
  "cost_measured ob \<Longrightarrow> cost_ranges (ledger_cost ob) \<Longrightarrow> wf_cost (ledger_cost ob)"
  by (simp_all add: usage_measured_def cost_measured_def usage_validate_spec cost_validate_spec wf_cost_def)

lemma or_keep_usage: "valid_usage u \<Longrightarrow> valid_usage v \<Longrightarrow> valid_usage (or_keep (add_usage u v) u)"
  by (cases "add_usage u v") (auto simp: or_keep_def intro: usage_sum.add_valid)

lemma commit_cost_wf:
  "wf_cost c \<Longrightarrow> wf_cost d \<Longrightarrow> wf_cost (case add_cost c d of Inr x \<Rightarrow> x | Inl _ \<Rightarrow> bump_unknown c)"
  by (cases "add_cost c d") (auto intro: bump_unknown_wf cost_sum.add_valid)

lemma observe_inv:
  assumes "acc_inv a" and "cost_ranges (ledger_cost ob)"
  shows "acc_inv (fst (observe d ob a))"
  using assms unfolding acc_inv_def wf_ledger_def observe_after
  by (simp add: or_keep_usage commit_cost_wf bump_unknown_wf measured_wf)

lemma observe_all_Nil [simp]: "observe_all [] a = a"
  by (simp add: observe_all_def)

lemma observe_all_Cons [simp]: "observe_all ((d, ob) # obs) a = observe_all obs (fst (observe d ob a))"
  by (simp add: observe_all_def)

lemma observe_all_append [simp]: "observe_all (xs @ ys) a = observe_all ys (observe_all xs a)"
  by (simp add: observe_all_def)

lemma ranged_Cons [simp]: "ranged ((d, ob) # obs) \<longleftrightarrow> cost_ranges (ledger_cost ob) \<and> ranged obs"
  by (auto simp: ranged_def)

lemma observe_all_inv: "acc_inv a \<Longrightarrow> ranged obs \<Longrightarrow> acc_inv (observe_all obs a)"
  by (induction obs arbitrary: a) (auto simp: observe_inv)

lemma new_inv: "acc_inv new_provider_accumulator"
  by (simp add: acc_inv_def new_provider_accumulator_def ledger_sum.valid_empty)

lemma accumulator_ledger_cost [simp]: "ledger_cost (accumulator_ledger a) = a_cost a"
  by (simp add: accumulator_ledger_def Let_def)

lemma accumulator_ledger_counts [simp]: "token_counts (ledger_usage (accumulator_ledger a)) = token_counts (a_usage a)"
  by (simp add: accumulator_ledger_def Let_def token_counts_def)

lemma accumulator_ledger_status:
  "usage_status (ledger_usage (accumulator_ledger a)) =
     (if missing_usage a \<and> usage_status (a_usage a) \<noteq> UsageUnavailable then UsagePartial else usage_status (a_usage a))"
  by (simp add: accumulator_ledger_def Let_def)

lemma accumulator_ledger_wf: "acc_inv a \<Longrightarrow> wf_ledger (accumulator_ledger a)"
  by (auto simp: acc_inv_def wf_ledger_def valid_usage_def usage_total_def accumulator_ledger_status)

text \<open>
  C35. Whatever attempts a provider accumulator observes, valid or not, measured or not, the
  ledger it returns passes both validators.
\<close>

theorem accumulator_ledger_valid:
  assumes "ranged obs"
  shows "usage_validate (ledger_usage (accumulator_ledger (observe_all obs new_provider_accumulator))) = None
    \<and> cost_validate (ledger_cost (accumulator_ledger (observe_all obs new_provider_accumulator))) = None"
  using accumulator_ledger_wf [OF observe_all_inv [OF new_inv assms]]
  by (simp add: wf_ledger_def wf_cost_def usage_validate_spec cost_validate_spec)

section \<open>Tokens are counted exactly\<close>

definition column :: "usage list \<Rightarrow> nat \<Rightarrow> int" where
  "column us i = (\<Sum>u\<leftarrow>us. token_counts u ! i)"

definition usages_total :: "usage list \<Rightarrow> int" where
  "usages_total us = (\<Sum>u\<leftarrow>us. usage_total u)"

lemma usages_total_simps [simp]: "usages_total [] = 0" "usages_total (u # us) = usage_total u + usages_total us"
  by (simp_all add: usages_total_def)

lemma measured_usages_Cons:
  "measured_usages ((d, ob) # obs) = (if usage_measured ob then [ledger_usage ob] else []) @ measured_usages obs"
  by (simp add: measured_usages_def)

lemma measured_usages_valid: "u \<in> set (measured_usages obs) \<Longrightarrow> valid_usage u \<and> usage_status u \<noteq> UsageUnavailable"
  by (auto simp: measured_usages_def usage_measured_def usage_validate_spec)

lemma usages_total_nonneg: "0 \<le> usages_total (measured_usages obs)"
  using measured_usages_valid valid_usage_total_nonneg
  by (auto simp: usages_total_def intro!: sum_list_nonneg)

lemma observe_all_usage:
  assumes "valid_usage (a_usage a)" and "usage_total (a_usage a) + usages_total (measured_usages obs) \<le> max_int64"
  shows "a_usage (observe_all obs a) = foldl usage_plus (a_usage a) (measured_usages obs)
    \<and> (missing_usage (observe_all obs a) \<longleftrightarrow> missing_usage a \<or> usage_gap obs)"
  using assms
proof (induction obs arbitrary: a)
  case Nil
  then show ?case by (simp add: measured_usages_def usage_gap_def)
next
  case (Cons x obs)
  obtain d ob where x: "x = (d, ob)" by (cases x)
  let ?a = "fst (observe d ob a)"
  show ?case
  proof (cases "usage_measured ob")
    case True
    let ?u = "ledger_usage ob"
    have u: "valid_usage ?u" by (rule measured_wf(1) [OF True])
    have le: "usage_total (a_usage a) + usage_total ?u + usages_total (measured_usages obs) \<le> max_int64"
      using Cons.prems(2) True by (simp add: x measured_usages_Cons)
    then have le2: "usage_total (a_usage a) + usage_total ?u \<le> max_int64"
      using usages_total_nonneg [of obs] by linarith
    with u Cons.prems(1) have add: "add_usage (a_usage a) ?u = Inr (usage_plus (a_usage a) ?u)"
      by (simp add: add_usage_spec)
    then have au: "a_usage ?a = usage_plus (a_usage a) ?u" and mi: "missing_usage ?a = missing_usage a"
      using True by (simp_all add: observe_after or_keep_def)
    have "valid_usage (a_usage ?a)" using le2 u Cons.prems(1) by (simp add: au valid_usage_plus)
    moreover have "usage_total (a_usage ?a) + usages_total (measured_usages obs) \<le> max_int64"
      using le u Cons.prems(1) by (simp add: au usage_total_plus)
    ultimately show ?thesis
      using Cons.IH [of ?a] True by (auto simp: x au mi measured_usages_Cons usage_gap_def)
  next
    case False
    then have au: "a_usage ?a = a_usage a" and mi: "missing_usage ?a \<longleftrightarrow> missing_usage a \<or> observed d ob"
      by (simp_all add: observe_after)
    then show ?thesis
      using Cons.IH [of ?a] Cons.prems False by (auto simp: x measured_usages_Cons usage_gap_def)
  qed
qed

definition folded_status :: "string \<Rightarrow> usage list \<Rightarrow> string" where
  "folded_status st us =
     (if us = [] then st else if st = UsagePartial \<or> (\<exists>u \<in> set us. usage_status u = UsagePartial) then UsagePartial
      else UsageComplete)"

lemma foldl_usage_plus:
  assumes "valid_usage l" and "\<forall>u \<in> set us. valid_usage u \<and> usage_status u \<noteq> UsageUnavailable"
    and "usage_total l + usages_total us \<le> max_int64"
  shows "token_counts (foldl usage_plus l us) = map (\<lambda>i. token_counts l ! i + column us i) [0..<5]
    \<and> usage_status (foldl usage_plus l us) = folded_status (usage_status l) us"
  using assms
proof (induction us arbitrary: l)
  case Nil
  have "token_counts l = map ((!) (token_counts l)) [0..<5]" by (metis length_token_counts map_nth)
  then show ?case by (simp add: column_def folded_status_def)
next
  case (Cons u us)
  have u: "valid_usage u" "usage_status u \<noteq> UsageUnavailable" using Cons.prems(2) by auto
  have nn: "0 \<le> usages_total us"
    using Cons.prems(2) valid_usage_total_nonneg by (auto simp: usages_total_def intro!: sum_list_nonneg)
  have v: "valid_usage (usage_plus l u)" using Cons.prems u nn by (simp add: valid_usage_plus)
  have IH: "token_counts (foldl usage_plus (usage_plus l u) us)
        = map (\<lambda>i. token_counts (usage_plus l u) ! i + column us i) [0..<5]
      \<and> usage_status (foldl usage_plus (usage_plus l u) us) = folded_status (usage_status (usage_plus l u)) us"
    using Cons.prems u v by (intro Cons.IH) (simp_all add: usage_total_plus)
  have "folded_status (usage_status (usage_plus l u)) us = folded_status (usage_status l) (u # us)"
    using Cons.prems(1) u by (auto simp: folded_status_def usage_plus_status valid_usage_def)
  with IH show ?case using Cons.prems(1) u(1) by (simp add: token_counts_plus column_def add.assoc)
qed

text \<open>
  C31. As long as the tokens of all measured attempts fit \<open>int64\<close>, the ledger counts each of
  the five token kinds exactly once per measured attempt, whatever invalid or unmeasured
  attempts are interleaved. It is unavailable exactly when nothing was measured, and it is
  complete only if every observed attempt was measured completely.
\<close>

theorem accumulator_usage_exact:
  assumes "usages_total (measured_usages obs) \<le> max_int64"
  shows "token_counts (ledger_usage (accumulator_ledger (observe_all obs new_provider_accumulator)))
      = map (column (measured_usages obs)) [0..<5]
    \<and> usage_status (ledger_usage (accumulator_ledger (observe_all obs new_provider_accumulator)))
      = (if measured_usages obs = [] then UsageUnavailable
         else if usage_gap obs \<or> (\<exists>u \<in> set (measured_usages obs). usage_status u = UsagePartial)
         then UsagePartial else UsageComplete)"
proof -
  let ?a = "observe_all obs new_provider_accumulator"
  have new: "a_usage new_provider_accumulator = unavailable_usage" "\<not> missing_usage new_provider_accumulator"
    by (simp_all add: new_provider_accumulator_def empty_ledger_def)
  have un: "usage_total unavailable_usage = 0" "usage_status unavailable_usage = UsageUnavailable"
    "token_counts unavailable_usage = [0, 0, 0, 0, 0]"
    by (simp_all add: unavailable_usage_def usage_total_def token_counts_def)
  have a: "a_usage ?a = foldl usage_plus unavailable_usage (measured_usages obs)" "missing_usage ?a = usage_gap obs"
    using observe_all_usage [of new_provider_accumulator obs] assms
    by (simp_all add: new un valid_unavailable_usage)
  have "token_counts (a_usage ?a) = map (\<lambda>i. [0, 0, 0, 0, 0] ! i + column (measured_usages obs) i) [0..<5]
    \<and> usage_status (a_usage ?a) = folded_status UsageUnavailable (measured_usages obs)"
    using foldl_usage_plus [of unavailable_usage "measured_usages obs"] measured_usages_valid assms
    by (simp add: a un valid_unavailable_usage)
  moreover have "map (\<lambda>i. [0, 0, 0, 0, 0] ! i + column us i) [0..<5] = map (column us) [0..<5]" for us
    by (simp add: upt_rec numeral_eq_Suc)
  ultimately show ?thesis
    by (auto simp: accumulator_ledger_status a(2) folded_status_def)
qed

text \<open>Six attempts: measured, unmeasured, invalid and partial ones interleaved.\<close>

definition sample_usage :: "int \<Rightarrow> string \<Rightarrow> usage" where
  "sample_usage n st = \<lparr>input_tokens = n, cache_read_tokens = 2, cache_creation_tokens = 0,
     output_tokens = n + 1, reasoning_tokens = 1, usage_status = st\<rparr>"

definition sample_observations :: "(bool \<times> ledger) list" where
  "sample_observations =
     [(True, \<lparr>ledger_usage = sample_usage 10 UsageComplete, ledger_cost = unknown_cost ''x''\<rparr>),
      (True, empty_ledger),
      (False, \<lparr>ledger_usage = sample_usage (- 4) UsageComplete, ledger_cost = unavailable_cost\<rparr>),
      (True, \<lparr>ledger_usage = sample_usage 7 UsagePartial, ledger_cost = unavailable_cost\<rparr>)]"

lemma sample_measured: "measured_usages sample_observations = [sample_usage 10 UsageComplete, sample_usage 7 UsagePartial]"
proof -
  have "usage_measured \<lparr>ledger_usage = sample_usage 10 UsageComplete, ledger_cost = c\<rparr>"
    and "\<not> usage_measured \<lparr>ledger_usage = sample_usage (- 4) UsageComplete, ledger_cost = c\<rparr>"
    and "usage_measured \<lparr>ledger_usage = sample_usage 7 UsagePartial, ledger_cost = c\<rparr>"
    and "\<not> usage_measured empty_ledger" for c
    by (simp_all add: usage_measured_def usage_validate_spec valid_usage_def sample_usage_def token_counts_def
        usage_total_def empty_ledger_def unavailable_usage_def)
  then show ?thesis by (simp add: measured_usages_def sample_observations_def)
qed

theorem accumulator_usage_exact_witness:
  "token_counts (ledger_usage (accumulator_ledger (observe_all sample_observations new_provider_accumulator)))
     = [17, 4, 0, 19, 2]
   \<and> usage_status (ledger_usage (accumulator_ledger (observe_all sample_observations new_provider_accumulator)))
     = UsagePartial"
  using accumulator_usage_exact [of sample_observations]
  by (simp add: sample_measured sample_usage_def usage_total_def token_counts_def column_def upt_rec numeral_eq_Suc)

theorem accumulator_ledger_valid_witness:
  "usage_validate (ledger_usage (accumulator_ledger (observe_all sample_observations new_provider_accumulator))) = None"
  using accumulator_ledger_valid [of sample_observations]
  by (simp add: ranged_def sample_observations_def unknown_cost_def empty_ledger_def unavailable_cost_def cost_ranges_def)

section \<open>Cost coverage is counted exactly\<close>

definition cost_within :: "cost \<Rightarrow> int \<Rightarrow> int \<Rightarrow> int \<Rightarrow> bool" where
  "cost_within c k u m \<longleftrightarrow> wf_cost c \<and> known_observations c = k \<and> unknown_observations c = u
     \<and> (\<exists>x. known_subtotal c = Fin x \<and> 0 \<le> x \<and> x \<le> of_int m)"

lemma cost_within_add:
  assumes "cost_within l k u m" "cost_within r k' u' m'"
    and "k + k' \<le> max_int64" "u + u' \<le> max_int64" "0 \<le> m" "0 \<le> m'" "m + m' \<le> 9007"
  shows "\<exists>c. add_cost l r = Inr c \<and> cost_within c (k + k') (u + u') (m + m')"
proof -
  have wf: "wf_cost l" "wf_cost r" using assms by (simp_all add: cost_within_def)
  show ?thesis
  proof (cases "cost_status l = CostUnavailable \<or> cost_status r = CostUnavailable")
    case True
    with wf have *: "l = unavailable_cost \<or> r = unavailable_cost" using wf_cost_unavailable by blast
    have zero: "k = 0 \<and> u = 0" if "l = unavailable_cost" using that assms(1) by (simp add: cost_within_def unavailable_cost_def)
    have zero': "k' = 0 \<and> u' = 0" if "r = unavailable_cost" using that assms(2) by (simp add: cost_within_def unavailable_cost_def)
    have mono: "cost_within c a b n \<Longrightarrow> n \<le> n' \<Longrightarrow> cost_within c a b n'" for c a b n n'
      unfolding cost_within_def by (meson of_int_le_iff order_trans)
    from * show ?thesis
      using zero zero' wf cost_sum.add_empty cost_sum.add_empty_right assms(1,2,5,6)
        mono [of r k' u' m' "m + m'"] mono [of l k u m "m + m'"] by auto
  next
    case False
    obtain x y where x: "known_subtotal l = Fin x" "0 \<le> x" "x \<le> of_int m"
      and y: "known_subtotal r = Fin y" "0 \<le> y" "y \<le> of_int m'"
      using assms(1,2) by (auto simp: cost_within_def)
    have "x + y \<le> of_int (m + m')" using x y by simp
    with f64_round_between [of 0 "x + y" "m + m'"] x y assms(7)
    obtain s where s: "f64_round (x + y) = Fin s" "0 \<le> s" "s \<le> of_int (m + m')" by auto
    from round_cost_bounded [OF s(2,3) assms(7)]
    obtain b where b: "round_cost (Fin s) = Fin b" "0 \<le> b" "b \<le> of_int (m + m')" by blast
    have c: "known_subtotal (cost_plus l r) = Fin b" by (simp add: cost_plus_def x y s b)
    have "cost_ranges (cost_plus l r)"
      using assms(1-4) by (simp add: cost_ranges_def cost_plus_def cost_within_def)
    with c False wf have "add_cost l r = Inr (cost_plus l r)" by (simp add: add_cost_wf)
    moreover from this have "wf_cost (cost_plus l r)" using wf cost_sum.add_valid by blast
    then have "cost_within (cost_plus l r) (k + k') (u + u') (m + m')"
      using c b assms(1,2) by (simp add: cost_within_def) (simp add: cost_plus_def)
    ultimately show ?thesis by blast
  qed
qed

definition cost_ceiling :: "cost \<Rightarrow> int" where
  "cost_ceiling c = (case known_subtotal c of Fin x \<Rightarrow> \<lceil>x\<rceil> | _ \<Rightarrow> 0)"

lemma cost_within_self:
  assumes "wf_cost c" shows "cost_within c (known_observations c) (unknown_observations c) (cost_ceiling c)"
    and "0 \<le> cost_ceiling c"
proof -
  from assms obtain x where "known_subtotal c = Fin x" "0 \<le> x" by (auto simp: wf_cost_def valid_cost_def)
  with assms show "cost_within c (known_observations c) (unknown_observations c) (cost_ceiling c)"
    and "0 \<le> cost_ceiling c"
    by (simp_all add: cost_within_def cost_ceiling_def)
qed

lemma cost_within_bump:
  assumes "cost_within c k u m" "u + 1 \<le> max_int64" "0 \<le> m" "m \<le> 9007"
  shows "cost_within (bump_unknown c) k (u + 1) m"
proof -
  have "cost_within (unknown_cost ''unknown'') 0 1 0"
    using wf_unknown_cost [of "''unknown''"] by (simp add: cost_within_def unknown_cost_def)
  moreover have "k + 0 \<le> max_int64" using assms(1) by (auto simp: cost_within_def wf_cost_def cost_ranges_def)
  ultimately show ?thesis
    using cost_within_add [OF assms(1), of "unknown_cost ''unknown''" 0 1 0] assms(2-)
    by (auto simp: bump_unknown_def or_keep_def)
qed

definition total_known :: "cost list \<Rightarrow> int" where
  "total_known cs = (\<Sum>c\<leftarrow>cs. known_observations c)"

definition total_unknown :: "cost list \<Rightarrow> int" where
  "total_unknown cs = (\<Sum>c\<leftarrow>cs. unknown_observations c)"

definition total_ceiling :: "cost list \<Rightarrow> int" where
  "total_ceiling cs = (\<Sum>c\<leftarrow>cs. cost_ceiling c)"

lemmas totals_def = total_known_def total_unknown_def total_ceiling_def

lemma measured_costs_Cons:
  "measured_costs ((d, ob) # obs) = (if cost_measured ob then [ledger_cost ob] else []) @ measured_costs obs"
  by (simp add: measured_costs_def)

lemma unmeasured_costs_Cons:
  "unmeasured_costs ((d, ob) # obs) = (if observed d ob \<and> \<not> cost_measured ob then 1 else 0) + unmeasured_costs obs"
  by (simp add: unmeasured_costs_def)

lemma measured_costs_wf: "ranged obs \<Longrightarrow> c \<in> set (measured_costs obs) \<Longrightarrow> wf_cost c"
  using measured_wf(2) by (fastforce simp: measured_costs_def ranged_def)

lemma totals_nonneg:
  assumes "ranged obs"
  shows "0 \<le> total_known (measured_costs obs)" "0 \<le> total_unknown (measured_costs obs)"
    "0 \<le> total_ceiling (measured_costs obs)" "0 \<le> unmeasured_costs obs"
proof -
  have "wf_cost c" if "c \<in> set (measured_costs obs)" for c by (rule measured_costs_wf [OF assms that])
  then have "\<forall>c \<in> set (measured_costs obs). 0 \<le> known_observations c \<and> 0 \<le> unknown_observations c \<and> 0 \<le> cost_ceiling c"
    using cost_within_self(2) by (auto simp: wf_cost_def valid_cost_def)
  then show "0 \<le> total_known (measured_costs obs)" "0 \<le> total_unknown (measured_costs obs)"
    "0 \<le> total_ceiling (measured_costs obs)"
    by (auto simp: totals_def intro!: sum_list_nonneg)
  show "0 \<le> unmeasured_costs obs" by (simp add: unmeasured_costs_def)
qed

lemma observe_all_cost:
  assumes "cost_within (a_cost a) k u m" "ranged obs" "0 \<le> m"
    and "k + total_known (measured_costs obs) \<le> max_int64"
    and "u + total_unknown (measured_costs obs) + unmeasured_costs obs \<le> max_int64"
    and "m + total_ceiling (measured_costs obs) \<le> 9007"
  shows "cost_within (a_cost (observe_all obs a)) (k + total_known (measured_costs obs))
    (u + total_unknown (measured_costs obs) + unmeasured_costs obs) (m + total_ceiling (measured_costs obs))"
  using assms
proof (induction obs arbitrary: a k u m)
  case Nil
  then show ?case by (simp add: measured_costs_def unmeasured_costs_def totals_def)
next
  case (Cons x obs)
  obtain d ob where x: "x = (d, ob)" by (cases x)
  let ?a = "fst (observe d ob a)" and ?c = "ledger_cost ob"
  have r: "ranged obs" "cost_ranges ?c" using Cons.prems(2) by (simp_all add: x)
  note nn = totals_nonneg [OF r(1)]
  consider (m) "cost_measured ob" | (b) "\<not> cost_measured ob" "observed d ob" | (n) "\<not> cost_measured ob" "\<not> observed d ob"
    by blast
  then show ?case
  proof cases
    case m
    have wf: "wf_cost ?c" using measured_wf(2) m r(2) by blast
    note prems = Cons.prems(4-6) [unfolded x measured_costs_Cons unmeasured_costs_Cons totals_def]
    have "\<exists>c. add_cost (a_cost a) ?c = Inr c
        \<and> cost_within c (k + known_observations ?c) (u + unknown_observations ?c) (m + cost_ceiling ?c)"
      using prems nn cost_within_self(2) [OF wf] m
      by (intro cost_within_add [OF Cons.prems(1) cost_within_self(1) [OF wf]] Cons.prems(3))
         (simp_all add: totals_def)
    then have "cost_within (a_cost ?a) (k + known_observations ?c) (u + unknown_observations ?c) (m + cost_ceiling ?c)"
      using m by (auto simp: observe_after)
    from Cons.IH [OF this r(1)] Cons.prems(3) prems cost_within_self(2) [OF wf] m show ?thesis
      by (simp add: x measured_costs_Cons unmeasured_costs_Cons totals_def add.assoc)
  next
    case b
    note prems = Cons.prems(4-6) [unfolded x measured_costs_Cons unmeasured_costs_Cons totals_def]
    have "cost_within (a_cost ?a) k (u + 1) m"
      using b cost_within_bump [OF Cons.prems(1) _ Cons.prems(3)] prems nn by (simp add: observe_after totals_def)
    from Cons.IH [OF this r(1) Cons.prems(3)] prems b show ?thesis
      by (simp add: x measured_costs_Cons unmeasured_costs_Cons totals_def algebra_simps)
  next
    case n
    then have "a_cost ?a = a_cost a" by (simp add: observe_after)
    then show ?thesis
      using Cons.IH [of ?a k u m] Cons.prems n r(1) by (simp add: x measured_costs_Cons unmeasured_costs_Cons)
  qed
qed



section \<open>Resolving a cost\<close>

definition priced :: "int \<times> float64 option \<Rightarrow> bool" where
  "priced p \<longleftrightarrow> fst p \<noteq> 0 \<and> \<not> rate_missing (snd p)"

definition unpriced :: "int \<times> float64 option \<Rightarrow> bool" where
  "unpriced p \<longleftrightarrow> fst p \<noteq> 0 \<and> rate_missing (snd p)"

lemma f64_of_int_token:
  assumes "0 \<le> n" "n \<le> max_int64" shows "\<exists>a \<ge> 0. f64_of_int n = Fin a"
proof -
  have "n \<le> 2 ^ 63" using assms(2) by simp
  then have "(of_int n :: rat) \<le> of_int (2 ^ 63)" by (simp only: of_int_le_iff)
  then show ?thesis using f64_round_finite [of "of_int n" 63] assms(1) by (simp add: f64_of_int_def)
qed

lemma price_counts_result:
  assumes "\<forall>p \<in> set ps. 0 \<le> fst p \<and> fst p \<le> max_int64"
    and "amount s" "0 \<le> k" "0 \<le> u" "k + int (length ps) \<le> 100" "u + int (length ps) \<le> 100"
  shows "\<exists>s'. price_counts ps (s, k, u) = (s', k + int (length (filter priced ps)), u + int (length (filter unpriced ps)))
    \<and> amount s' \<and> (filter priced ps = [] \<longrightarrow> s' = s)"
  using assms
proof (induction ps arbitrary: s k u)
  case Nil
  then show ?case by simp
next
  case (Cons p ps)
  obtain n r where p: "p = (n, r)" by (cases p)
  have w: "wrap64 (k + 1) = k + 1" "wrap64 (u + 1) = u + 1" using Cons.prems by (simp_all add: int64_def)
  let ?s = "round_cost (f64_add s (f64_mul (f64_of_int n) (the r)))"
  have am: "amount ?s" if nz: "n \<noteq> 0" and rm: "\<not> rate_missing r"
  proof -
    obtain b where b: "r = Some (Fin b)" "0 \<le> b"
      using rm invalid_amount_iff by (auto simp: rate_missing_def split: option.splits)
    obtain a where "f64_of_int n = Fin a" "0 \<le> a" using f64_of_int_token [of n] nz Cons.prems(1) by (auto simp: p)
    then have "amount (f64_mul (f64_of_int n) (the r))" using b by (simp add: f64_mul_def amount_round)
    then show ?thesis using Cons.prems(2) by (intro amount_round_cost amount_add)
  qed
  show ?case
    using Cons.IH [of s k u] Cons.IH [of s k "u + 1"] Cons.IH [of ?s "k + 1" u] Cons.prems am
    by (auto simp: p w priced_def unpriced_def)
qed

definition status_of_pairs :: "(int \<times> float64 option) list \<Rightarrow> string" where
  "status_of_pairs ps =
     (if list_ex priced ps then (if list_ex unpriced ps then CostPartial else CostExact)
      else if list_ex unpriced ps \<or> all_rates_missing (map snd ps) then CostUnknown else CostExact)"

lemma filter_empty_list_ex: "filter P xs = [] \<longleftrightarrow> \<not> list_ex P xs"
  by (auto simp: filter_empty_conv list_ex_iff)

lemma valid_resolved:
  assumes "amount s" "k \<in> {0, 1}" "u \<in> {0, 1}" "k \<noteq> 0 \<or> u \<noteq> 0" "k = 0 \<longrightarrow> s = Fin 0"
  shows "cost_validate \<lparr>known_subtotal = s, cost_status = coverage_status k u, cost_source = src,
      known_observations = k, unknown_observations = u\<rparr> = (if s = PosInf then Some InvalidSubtotal else None)"
  using assms
  by (cases s) (auto simp: cost_validate_def coverage_status_def invalid_amount_def is_inf_def)



end
