(* ===== verification/Pricing.thy ===== *)
theory Pricing
  imports Accounting
begin

text \<open>
  Itemised usage of \<open>internal/accounting/pricing.go\<close>: normalisation of the item map, the
  summary with its display groups, addition of two priced usages and the cost derived from
  one. The item map is an association list (the order of a map iteration is the list's); a
  nil map is \<open>None\<close>.
\<close>

abbreviation ItemInput :: string where "ItemInput \<equiv> ''input''"
abbreviation ItemCacheRead :: string where "ItemCacheRead \<equiv> ''cacheReadInput''"
abbreviation ItemCacheCreation :: string where "ItemCacheCreation \<equiv> ''cacheCreationInput''"
abbreviation ItemOutput :: string where "ItemOutput \<equiv> ''output''"
abbreviation ItemReasoning :: string where "ItemReasoning \<equiv> ''reasoningOutput''"

definition item_order :: "string list" where
  "item_order = [ItemInput, ItemCacheRead, ItemCacheCreation, ItemOutput, ItemReasoning]"

definition display_group :: "string \<Rightarrow> string option" where
  "display_group = map_of [(ItemInput, ''input''), (ItemCacheRead, ''cache''), (ItemCacheCreation, ''cache''),
     (ItemOutput, ''output''), (ItemReasoning, ''output'')]"

record item =
  item_tokens :: int
  item_rate :: "float64 option"

definition zero_item :: item where
  "zero_item = \<lparr>item_tokens = 0, item_rate = None\<rparr>"

type_synonym items = "(string \<times> item) list"

definition item_at :: "items \<Rightarrow> string \<Rightarrow> item" where
  "item_at m k = (case map_of m k of None \<Rightarrow> zero_item | Some i \<Rightarrow> i)"

fun normalize_items :: "items \<Rightarrow> string list \<Rightarrow> acc_error + items" where
  "normalize_items m [] = Inr []"
| "normalize_items m (k # ks) =
     (let i = item_at m k in
      if item_tokens i < 0 then Inl (NegativeItemTokens k)
      else if (case item_rate i of None \<Rightarrow> False | Some r \<Rightarrow> invalid_amount r) then Inl (InvalidItemRate k)
      else (case normalize_items m ks of Inl e \<Rightarrow> Inl e | Inr xs \<Rightarrow> Inr ((k, i) # xs)))"

definition normalize_priced_usage :: "items option \<Rightarrow> acc_error + items" where
  "normalize_priced_usage p = (case p of
     None \<Rightarrow> Inl ItemsRequired
   | Some m \<Rightarrow>
     (case find (\<lambda>(k, i). display_group k = None) m of
        Some (k, i) \<Rightarrow> Inl (UnsupportedItem k)
      | None \<Rightarrow> normalize_items m item_order))"

definition zero_priced_usage :: items where
  "zero_priced_usage = map (\<lambda>k. (k, zero_item)) item_order"

section \<open>Summaries\<close>

record summary_item =
  si_tokens :: int
  si_rate :: "float64 option"
  si_cost :: "float64 option"
  si_cost_known :: bool
  si_display_group :: string

record group_summary =
  gs_tokens :: int
  gs_cost :: "float64 option"
  gs_cost_known :: bool

record summary =
  sum_items :: "(string \<times> summary_item) list"
  sum_groups :: "(string \<times> group_summary) list"
  sum_total_tokens :: int
  sum_total_cost :: "float64 option"
  sum_cost_known :: bool

definition empty_group :: group_summary where
  "empty_group = \<lparr>gs_tokens = 0, gs_cost = Some (Fin 0), gs_cost_known = True\<rparr>"

definition item_known :: "item \<Rightarrow> bool" where
  "item_known i \<longleftrightarrow> item_tokens i = 0 \<or> item_rate i \<noteq> None"

definition item_cost :: "item \<Rightarrow> float64" where
  "item_cost i = (case item_rate i of None \<Rightarrow> Fin 0
     | Some r \<Rightarrow> round_cost (f64_mul (f64_of_int (item_tokens i)) r))"

definition update_group :: "item \<Rightarrow> group_summary \<Rightarrow> group_summary" where
  "update_group i g =
     (let g = g\<lparr>gs_tokens := wrap64 (gs_tokens g + item_tokens i)\<rparr> in
      if item_known i \<and> gs_cost_known g
      then g\<lparr>gs_cost := Some (round_cost (f64_add (the (gs_cost g)) (item_cost i)))\<rparr>
      else if \<not> item_known i then g\<lparr>gs_cost := None, gs_cost_known := False\<rparr> else g)"

definition summarize_item :: "summary \<times> float64 \<Rightarrow> string \<times> item \<Rightarrow> summary \<times> float64" where
  "summarize_item st ki = (case st of (s, t) \<Rightarrow> case ki of (k, i) \<Rightarrow>
     let group = the (display_group k) in
     (s\<lparr>sum_items := sum_items s @ [(k, \<lparr>si_tokens = item_tokens i, si_rate = item_rate i,
            si_cost = (if item_known i then Some (item_cost i) else None),
            si_cost_known = item_known i, si_display_group = group\<rparr>)],
        sum_total_tokens := wrap64 (sum_total_tokens s + item_tokens i),
        sum_groups := map (\<lambda>(g, v). (g, if g = group then update_group i v else v)) (sum_groups s),
        sum_cost_known := sum_cost_known s \<and> item_known i\<rparr>,
      if item_known i then round_cost (f64_add t (item_cost i)) else t))"

definition empty_summary :: summary where
  "empty_summary = \<lparr>sum_items = [],
     sum_groups = [(''input'', empty_group), (''cache'', empty_group), (''output'', empty_group)],
     sum_total_tokens = 0, sum_total_cost = None, sum_cost_known = True\<rparr>"

definition summarize_priced_usage :: "items option \<Rightarrow> acc_error + summary" where
  "summarize_priced_usage p = (case normalize_priced_usage p of Inl e \<Rightarrow> Inl e | Inr m \<Rightarrow>
     (let (s, t) = foldl summarize_item (empty_summary, Fin 0) m in
      Inr (if sum_cost_known s then s\<lparr>sum_total_cost := Some t\<rparr> else s)))"

definition resolve_priced_cost :: "items option \<Rightarrow> float64 option \<Rightarrow> cost \<times> acc_error option" where
  "resolve_priced_cost p reported = (case reported of
     Some x \<Rightarrow> (let c = exact_cost x ''reported'' in (c, cost_validate c))
   | None \<Rightarrow>
     (case summarize_priced_usage p of
        Inl e \<Rightarrow> (zero_cost, Some e)
      | Inr s \<Rightarrow>
        (if \<not> sum_cost_known s \<or> sum_total_cost s = None then (unknown_cost ''missing_rate'', None)
         else (exact_cost (the (sum_total_cost s)) ''calculated'', None))))"

section \<open>Addition\<close>

definition f64_differs :: "float64 \<Rightarrow> float64 \<Rightarrow> bool" where
  "f64_differs x y \<longleftrightarrow> x = NaN \<or> y = NaN \<or> x \<noteq> y"

definition merge_rate :: "string \<Rightarrow> float64 option \<Rightarrow> float64 option \<Rightarrow> acc_error + float64 option" where
  "merge_rate k l r = (case (l, r) of
     (None, None) \<Rightarrow> Inr None
   | (None, Some y) \<Rightarrow> Inr (Some y)
   | (Some x, None) \<Rightarrow> Inr (Some x)
   | (Some x, Some y) \<Rightarrow> (if f64_differs x y then Inl (ConflictingRate k) else Inr (Some x)))"

fun add_items :: "items \<Rightarrow> items \<Rightarrow> string list \<Rightarrow> acc_error + items" where
  "add_items l r [] = Inr []"
| "add_items l r (k # ks) =
     (case merge_rate k (item_rate (item_at l k)) (item_rate (item_at r k)) of Inl e \<Rightarrow> Inl e
      | Inr rate \<Rightarrow>
        (case checked_sum [item_tokens (item_at l k), item_tokens (item_at r k)] of Inl e \<Rightarrow> Inl e
         | Inr n \<Rightarrow>
           (case add_items l r ks of Inl e \<Rightarrow> Inl e
            | Inr xs \<Rightarrow> Inr ((k, \<lparr>item_tokens = n, item_rate = rate\<rparr>) # xs))))"

definition add_priced_usage :: "items option \<Rightarrow> items option \<Rightarrow> acc_error + items" where
  "add_priced_usage l r =
     (case normalize_priced_usage l of Inl e \<Rightarrow> Inl e | Inr nl \<Rightarrow>
       (case normalize_priced_usage r of Inl e \<Rightarrow> Inl e | Inr nr \<Rightarrow> add_items nl nr item_order))"

definition priced_usage_from :: "usage \<Rightarrow> pricing \<Rightarrow> items" where
  "priced_usage_from u p =
     [(ItemInput, \<lparr>item_tokens = input_tokens u, item_rate = rate_input p\<rparr>),
      (ItemCacheRead, \<lparr>item_tokens = cache_read_tokens u, item_rate = rate_cache_read p\<rparr>),
      (ItemCacheCreation, \<lparr>item_tokens = cache_creation_tokens u, item_rate = rate_cache_creation p\<rparr>),
      (ItemOutput, \<lparr>item_tokens = output_tokens u, item_rate = rate_output p\<rparr>),
      (ItemReasoning, \<lparr>item_tokens = reasoning_tokens u, item_rate = rate_reasoning p\<rparr>)]"

section \<open>Normalised usages\<close>

definition valid_item :: "item \<Rightarrow> bool" where
  "valid_item i \<longleftrightarrow> 0 \<le> item_tokens i \<and> (\<forall>r. item_rate i = Some r \<longrightarrow> (\<exists>a \<ge> 0. r = Fin a))"

definition normal_items :: "items \<Rightarrow> bool" where
  "normal_items m \<longleftrightarrow> map fst m = item_order \<and> (\<forall>(k, i) \<in> set m. valid_item i)"

lemma normalize_items_spec:
  "normalize_items m ks = Inr xs \<longleftrightarrow> (\<forall>k \<in> set ks. valid_item (item_at m k)) \<and> xs = map (\<lambda>k. (k, item_at m k)) ks"
proof (induction ks arbitrary: xs)
  case (Cons k ks)
  have "(\<exists>a \<ge> 0. r = Fin a) \<longleftrightarrow> \<not> invalid_amount r" for r by (simp add: invalid_amount_iff)
  then show ?case
    using Cons.IH [of "map (\<lambda>k. (k, item_at m k)) ks"] Cons.IH
    by (cases "normalize_items m ks") (auto simp: Let_def valid_item_def split: option.splits)
qed auto

lemma normalize_priced_usage_normal: "normalize_priced_usage p = Inr m \<Longrightarrow> normal_items m"
  by (auto simp: normalize_priced_usage_def normalize_items_spec normal_items_def o_def split: option.splits)

lemma distinct_item_order: "distinct item_order"
  by (simp add: item_order_def)

lemma item_at_normal: "normal_items m \<Longrightarrow> k \<in> set item_order \<Longrightarrow> valid_item (item_at m k) \<and> (k, item_at m k) \<in> set m"
  by (auto simp: normal_items_def item_at_def split: option.splits dest: map_of_SomeD)
     (metis (no_types, lifting) map_of_eq_None_iff list.set_map)+

definition group_items :: "items \<Rightarrow> string \<Rightarrow> item list" where
  "group_items m g = map snd (filter (\<lambda>(k, i). display_group k = Some g) m)"

lemma normal_items_cases:
  assumes "normal_items m"
  obtains a b c d e where "m = [(ItemInput, a), (ItemCacheRead, b), (ItemCacheCreation, c), (ItemOutput, d), (ItemReasoning, e)]"
    "valid_item a" "valid_item b" "valid_item c" "valid_item d" "valid_item e"
  using assms unfolding normal_items_def item_order_def
  by (auto simp: map_eq_Cons_conv)

lemma display_group_simps [simp]:
  "display_group ItemInput = Some ''input''" "display_group ItemCacheRead = Some ''cache''"
  "display_group ItemCacheCreation = Some ''cache''" "display_group ItemOutput = Some ''output''"
  "display_group ItemReasoning = Some ''output''"
  by (simp_all add: display_group_def)

lemma update_group_parts:
  "gs_tokens (update_group i g) = wrap64 (gs_tokens g + item_tokens i)"
  "gs_cost_known (update_group i g) \<longleftrightarrow> gs_cost_known g \<and> item_known i"
  "(gs_cost g = None \<longleftrightarrow> \<not> gs_cost_known g) \<Longrightarrow> (gs_cost (update_group i g) = None \<longleftrightarrow> \<not> (gs_cost_known g \<and> item_known i))"
  by (auto simp: update_group_def Let_def)

lemma summarize_item_parts:
  "sum_groups (fst (summarize_item st (k, i))) =
     map (\<lambda>(g, v). (g, if g = the (display_group k) then update_group i v else v)) (sum_groups (fst st))"
  "sum_total_tokens (fst (summarize_item st (k, i))) = wrap64 (sum_total_tokens (fst st) + item_tokens i)"
  "sum_cost_known (fst (summarize_item st (k, i))) \<longleftrightarrow> sum_cost_known (fst st) \<and> item_known i"
  "map fst (sum_items (fst (summarize_item st (k, i)))) = map fst (sum_items (fst st)) @ [k]"
  "sum_total_cost (fst (summarize_item st (k, i))) = sum_total_cost (fst st)"
  by (cases st; simp add: summarize_item_def Let_def)+


definition sample_items :: "items option" where
  "sample_items = Some [(ItemInput, \<lparr>item_tokens = 5, item_rate = Some (Fin (1/2))\<rparr>),
     (ItemOutput, \<lparr>item_tokens = 3, item_rate = None\<rparr>)]"

lemma sample_items_normal:
  "normalize_priced_usage sample_items = Inr [(ItemInput, \<lparr>item_tokens = 5, item_rate = Some (Fin (1/2))\<rparr>),
     (ItemCacheRead, zero_item), (ItemCacheCreation, zero_item),
     (ItemOutput, \<lparr>item_tokens = 3, item_rate = None\<rparr>), (ItemReasoning, zero_item)]"
  by (simp add: sample_items_def normalize_priced_usage_def item_order_def item_at_def zero_item_def
      invalid_amount_def is_inf_def display_group_def Let_def)


section \<open>Sums of priced usages\<close>

definition rates_agree :: "item \<Rightarrow> item \<Rightarrow> bool" where
  "rates_agree i j \<longleftrightarrow> item_rate i = None \<or> item_rate j = None \<or> item_rate i = item_rate j"

definition item_plus :: "item \<Rightarrow> item \<Rightarrow> item" where
  "item_plus i j = \<lparr>item_tokens = item_tokens i + item_tokens j,
     item_rate = (if item_rate i = None then item_rate j else item_rate i)\<rparr>"

lemma merge_rate_valid:
  assumes "valid_item i" "valid_item j"
  shows "merge_rate k (item_rate i) (item_rate j) =
    (if rates_agree i j then Inr (item_rate (item_plus i j)) else Inl (ConflictingRate k))"
  using assms
  by (auto simp: merge_rate_def rates_agree_def item_plus_def valid_item_def f64_differs_def split: option.splits)

lemma add_items_spec:
  assumes "\<forall>k \<in> set ks. valid_item (item_at l k) \<and> valid_item (item_at r k)"
  shows "add_items l r ks = Inr xs \<longleftrightarrow>
    (\<forall>k \<in> set ks. rates_agree (item_at l k) (item_at r k)
        \<and> item_tokens (item_at l k) + item_tokens (item_at r k) \<le> max_int64)
    \<and> xs = map (\<lambda>k. (k, item_plus (item_at l k) (item_at r k))) ks"
  using assms
proof (induction ks arbitrary: xs)
  case (Cons k ks)
  let ?i = "item_at l k" and ?j = "item_at r k"
  have v: "valid_item ?i" "valid_item ?j" using Cons.prems by auto
  then have cs: "checked_sum [item_tokens ?i, item_tokens ?j] =
      (if item_tokens ?i + item_tokens ?j \<le> max_int64 then Inr (item_tokens ?i + item_tokens ?j) else Inl IntegerOverflow)"
    by (simp add: checked_sum_value valid_item_def)
  have "\<lparr>item_tokens = item_tokens ?i + item_tokens ?j, item_rate = item_rate (item_plus ?i ?j)\<rparr> = item_plus ?i ?j"
    by (simp add: item_plus_def)
  then show ?case
    using Cons.IH [of "map (\<lambda>k. (k, item_plus (item_at l k) (item_at r k))) ks"] Cons.IH Cons.prems
    by (cases "add_items l r ks") (auto simp: merge_rate_valid [OF v] cs)
qed auto

lemma rates_agree_commute: "rates_agree i j = rates_agree j i"
  by (auto simp: rates_agree_def)

lemma item_plus_commute: "rates_agree i j \<Longrightarrow> item_plus i j = item_plus j i"
  by (auto simp: rates_agree_def item_plus_def)

text \<open>
  C40. \<open>AddPricedUsage\<close> of two admissible usages succeeds exactly when the rates of every item
  agree and its tokens add up within \<open>int64\<close>; the result is again admissible, adds the tokens
  item by item, and does not depend on the order of the operands.
\<close>

theorem add_priced_usage_spec:
  assumes "normalize_priced_usage l = Inr nl" and "normalize_priced_usage r = Inr nr"
  shows "(add_priced_usage l r = Inr xs \<longleftrightarrow>
      (\<forall>k \<in> set item_order. rates_agree (item_at nl k) (item_at nr k)
          \<and> item_tokens (item_at nl k) + item_tokens (item_at nr k) \<le> max_int64)
      \<and> xs = map (\<lambda>k. (k, item_plus (item_at nl k) (item_at nr k))) item_order)
    \<and> (add_priced_usage l r = Inr xs \<longrightarrow> normal_items xs \<and> add_priced_usage r l = Inr xs)"
proof -
  have n: "normal_items nl" "normal_items nr" using assms by (auto dest: normalize_priced_usage_normal)
  then have v: "\<forall>k \<in> set item_order. valid_item (item_at nl k) \<and> valid_item (item_at nr k)"
    using item_at_normal by blast
  then have v': "\<forall>k \<in> set item_order. valid_item (item_at nr k) \<and> valid_item (item_at nl k)" by blast
  have lr: "add_priced_usage l r = add_items nl nr item_order" "add_priced_usage r l = add_items nr nl item_order"
    using assms by (simp_all add: add_priced_usage_def)
  have "valid_item (item_plus i j)" if "valid_item i" "valid_item j" for i j
    using that by (auto simp: valid_item_def item_plus_def split: if_splits)
  then have "normal_items (map (\<lambda>k. (k, item_plus (item_at nl k) (item_at nr k))) item_order)"
    using v by (auto simp: normal_items_def o_def)
  then show ?thesis
    unfolding lr add_items_spec [OF v] add_items_spec [OF v']
    by (auto simp: rates_agree_commute add.commute intro!: item_plus_commute)
qed

theorem add_priced_usage_witness:
  "\<exists>xs. add_priced_usage sample_items sample_items = Inr xs
     \<and> item_at xs ItemOutput = \<lparr>item_tokens = 6, item_rate = None\<rparr>"
  using add_priced_usage_spec [OF sample_items_normal sample_items_normal]
  by (simp add: item_order_def item_at_def rates_agree_def item_plus_def zero_item_def)

end
