(* ===== verification/Stats.thy ===== *)
theory Stats
  imports Pricing Accumulator
begin

text \<open>
  The totals over call traces, \<open>internal/stats/stats.go\<close>: the check of the current totals and
  \<open>Merge\<close>, which adds one trace. Counters are \<open>int64\<close> and wrap; costs are binary64 numbers.
\<close>

section \<open>Totals and traces\<close>

record totals =
  cached_cost :: float64
  cached_count :: int
  failure_count :: int
  max_call_duration :: int
  max_over_budget :: int
  over_budget_count :: int
  success_count :: int
  timeout_count :: int
  total_call_duration :: int
  total_cost :: float64
  total_count :: int
  total_output_tokens :: int
  total_prompt_tokens :: int

record trace_cost =
  tc_cached :: float64
  tc_cached_known :: bool
  tc_known :: bool
  tc_source :: string
  tc_total :: float64

record stats_trace =
  last_error_category :: "string option"
  over_budget_ms :: int
  trace_duration_ms :: int
  trace_wait_ms :: int
  trace_usage :: "items option"
  fresh_usage :: "items option"
  saved_usage :: "items option"
  served_from_cache :: bool
  provider_invoked :: "bool option"
  trace_cost_of :: trace_cost

datatype stats_error =
    NegativeTotals
  | InvalidTotalsCost
  | OutcomesExceedTotal
  | ContractFailure string string "(string \<times> string) list"

section \<open>Operations\<close>

definition totals_counts :: "totals \<Rightarrow> int list" where
  "totals_counts t = [cached_count t, failure_count t, max_call_duration t, max_over_budget t,
     over_budget_count t, success_count t, timeout_count t, total_call_duration t, total_count t,
     total_output_tokens t, total_prompt_tokens t]"

definition validate_totals :: "totals \<Rightarrow> stats_error option" where
  "validate_totals t =
     (if list_ex (\<lambda>v. v < 0) (totals_counts t) then Some NegativeTotals
      else if list_ex invalid_amount [cached_cost t, total_cost t] then Some InvalidTotalsCost
      else if wrap64 (wrap64 (success_count t + failure_count t) + timeout_count t) > total_count t
        then Some OutcomesExceedTotal
      else None)"

definition round_stats_cost :: "float64 \<Rightarrow> float64" where
  "round_stats_cost v = f64_div_by (math_round (f64_mul v (Fin 1000000000000))) 1000000000000"

definition billed_usage :: "stats_trace \<Rightarrow> items option" where
  "billed_usage tr = (if served_from_cache tr then saved_usage tr else trace_usage tr)"

text \<open>The cost a trace states outranks the cost of its summary.\<close>

definition billed_cost :: "stats_trace \<Rightarrow> summary \<Rightarrow> float64 option" where
  "billed_cost tr s = (if tc_known (trace_cost_of tr) then Some (tc_total (trace_cost_of tr))
     else if sum_cost_known s then sum_total_cost s else None)"

definition billed_tokens :: "items \<Rightarrow> string list \<Rightarrow> int" where
  "billed_tokens m ks = wrap64 (sum_list (map (\<lambda>k. item_tokens (item_at m k)) ks))"

definition billed_duration :: "stats_trace \<Rightarrow> int" where
  "billed_duration tr = (if trace_duration_ms tr = 0 then trace_wait_ms tr else trace_duration_ms tr)"

definition count_call :: "stats_trace \<Rightarrow> items \<Rightarrow> float64 \<Rightarrow> totals \<Rightarrow> totals" where
  "count_call tr m price t = t\<lparr>
     total_count := wrap64 (total_count t + 1),
     total_call_duration := wrap64 (total_call_duration t + billed_duration tr),
     max_call_duration := max (max_call_duration t) (billed_duration tr),
     total_prompt_tokens := wrap64 (total_prompt_tokens t + billed_tokens m [ItemInput, ItemCacheRead, ItemCacheCreation]),
     total_output_tokens := wrap64 (total_output_tokens t + billed_tokens m [ItemOutput, ItemReasoning]),
     total_cost := round_stats_cost (f64_add (total_cost t) price)\<rparr>"

definition count_over_budget :: "stats_trace \<Rightarrow> totals \<Rightarrow> totals" where
  "count_over_budget tr t = (if over_budget_ms tr > 0
     then t\<lparr>over_budget_count := wrap64 (over_budget_count t + 1),
       max_over_budget := max (max_over_budget t) (over_budget_ms tr)\<rparr> else t)"

definition error_category :: "stats_trace \<Rightarrow> string" where
  "error_category tr = (case last_error_category tr of None \<Rightarrow> [] | Some c \<Rightarrow> c)"

definition count_outcome :: "stats_trace \<Rightarrow> totals \<Rightarrow> totals" where
  "count_outcome tr t =
     (if error_category tr = [] then t\<lparr>success_count := wrap64 (success_count t + 1)\<rparr>
      else if error_category tr = ''timeout'' then t\<lparr>timeout_count := wrap64 (timeout_count t + 1)\<rparr>
      else t\<lparr>failure_count := wrap64 (failure_count t + 1)\<rparr>)"

definition count_cached :: "stats_trace \<Rightarrow> float64 \<Rightarrow> (string \<times> string) list \<Rightarrow> totals \<Rightarrow> stats_error + totals" where
  "count_cached tr price ctx t =
     (if \<not> served_from_cache tr then Inr t
      else (let c = (if tc_cached_known (trace_cost_of tr) then tc_cached (trace_cost_of tr) else price) in
        if invalid_amount c then Inl (ContractFailure ''invalid_cached_cost'' ''LLM trace cached cost is invalid.'' ctx)
        else Inr (t\<lparr>cached_count := wrap64 (cached_count t + 1),
          cached_cost := round_stats_cost (f64_add (cached_cost t) c)\<rparr>)))"

definition merge_totals :: "totals \<Rightarrow> stats_trace \<Rightarrow> (string \<times> string) list \<Rightarrow> stats_error + totals" where
  "merge_totals t tr ctx = (case validate_totals t of
     Some e \<Rightarrow> Inl e
   | None \<Rightarrow> (case billed_usage tr of
       None \<Rightarrow> Inl (ContractFailure ''missing_trace_usage_items'' ''LLM trace must include canonical usage.items.'' ctx)
     | Some m \<Rightarrow> (case summarize_priced_usage (Some m) of
         Inl _ \<Rightarrow> Inl (ContractFailure ''invalid_trace_usage'' ''LLM trace usage is invalid.'' ctx)
       | Inr s \<Rightarrow> (case billed_cost tr s of
           None \<Rightarrow> Inl (ContractFailure ''unknown_trace_usage_cost''
             ''LLM trace usage must include ratePerToken values for numeric llmStats.totalCost projection.'' ctx)
         | Some price \<Rightarrow>
            (if billed_duration tr < 0 \<or> over_budget_ms tr < 0
               then Inl (ContractFailure ''invalid_trace_duration'' ''LLM trace duration fields must be non-negative.'' ctx)
             else count_cached tr price ctx (count_outcome tr (count_over_budget tr (count_call tr m price t))))))))"

section \<open>What a merge keeps\<close>

lemma f64_round_minus: "0 < r \<Longrightarrow> f64_round r = Fin v \<Longrightarrow> f64_round (- r) = Fin (- v)"
  by (auto simp: f64_round_def Let_def split: if_splits)

lemma round_stats_cost_eq: "round_stats_cost = round_cost"
  by (simp add: fun_eq_iff round_stats_cost_def round_cost_def)

lemma valid_amount_iff: "\<not> invalid_amount x \<longleftrightarrow> amount x \<and> \<not> is_inf x"
  by (cases x) (auto simp: invalid_amount_def is_inf_def)

lemma rounded_sum_amount: "amount x \<Longrightarrow> amount y \<Longrightarrow> amount (round_stats_cost (f64_add x y))"
  by (simp add: round_stats_cost_eq amount_add amount_round_cost)

lemma item_cost_amount:
  assumes "valid_item i" "item_tokens i \<le> max_int64"
  shows "amount (item_cost i)"
proof (cases "item_rate i")
  case (Some r)
  then obtain b where b: "r = Fin b" "0 \<le> b" using assms(1) by (auto simp: valid_item_def)
  obtain a where "f64_of_int (item_tokens i) = Fin a" "0 \<le> a"
    using f64_of_int_token [of "item_tokens i"] assms by (auto simp: valid_item_def)
  then show ?thesis using b by (simp add: item_cost_def Some f64_mul_def amount_round amount_round_cost)
qed (simp add: item_cost_def)

lemma summarize_items_amount:
  "\<forall>(k, i) \<in> set m. valid_item i \<and> item_tokens i \<le> max_int64 \<Longrightarrow> amount (snd st)
    \<Longrightarrow> amount (snd (foldl summarize_item st m))"
proof (induction m arbitrary: st)
  case (Cons ki m)
  obtain k i where ki: "ki = (k, i)" by (cases ki)
  have "amount (snd (summarize_item st ki))"
    using Cons.prems item_cost_amount [of i] by (cases st) (auto simp: ki summarize_item_def Let_def intro!: amount_round_cost amount_add)
  with Cons show ?case by simp
qed simp

lemma summarize_items_no_total:
  "sum_total_cost (fst (foldl summarize_item st m)) = sum_total_cost (fst st)"
  by (induction m arbitrary: st) (auto simp: summarize_item_parts)

lemma summary_cost_amount:
  assumes "summarize_priced_usage (Some m) = Inr s" "\<forall>k. item_tokens (item_at m k) \<le> max_int64" "sum_total_cost s = Some price"
  shows "amount price"
proof -
  from assms(1) obtain n where n: "normalize_priced_usage (Some m) = Inr n"
    by (auto simp: summarize_priced_usage_def split: sum.splits)
  then have e: "n = map (\<lambda>k. (k, item_at m k)) item_order"
    by (auto simp: normalize_priced_usage_def normalize_items_spec split: option.splits)
  have "\<forall>(k, i) \<in> set n. valid_item i \<and> item_tokens i \<le> max_int64"
    using normalize_priced_usage_normal [OF n] assms(2) by (auto simp: e normal_items_def)
  then have "amount (snd (foldl summarize_item (empty_summary, Fin 0) n))" by (rule summarize_items_amount) simp
  moreover have "sum_total_cost (fst (foldl summarize_item (empty_summary, Fin 0) n)) = None"
    by (simp add: summarize_items_no_total empty_summary_def)
  ultimately show ?thesis using assms(1,3)
    by (auto simp: summarize_priced_usage_def n case_prod_beta Let_def split: if_splits)
qed

text \<open>The totals have room for one more call when none of the sums passes the largest \<open>int64\<close>.\<close>

definition room_for :: "totals \<Rightarrow> stats_trace \<Rightarrow> items \<Rightarrow> bool" where
  "room_for t tr m \<longleftrightarrow> total_count t < max_int64 \<and> cached_count t < max_int64 \<and> over_budget_count t < max_int64
     \<and> success_count t + failure_count t + timeout_count t < max_int64
     \<and> total_call_duration t + billed_duration tr \<le> max_int64
     \<and> total_prompt_tokens t + billed_tokens m [ItemInput, ItemCacheRead, ItemCacheCreation] \<le> max_int64
     \<and> total_output_tokens t + billed_tokens m [ItemOutput, ItemReasoning] \<le> max_int64
     \<and> 0 \<le> billed_tokens m [ItemInput, ItemCacheRead, ItemCacheCreation] \<and> 0 \<le> billed_tokens m [ItemOutput, ItemReasoning]"

lemma merge_totals_Inr:
  assumes "merge_totals t tr ctx = Inr t'"
  obtains m s price where "validate_totals t = None" "billed_usage tr = Some m"
    "summarize_priced_usage (Some m) = Inr s" "billed_cost tr s = Some price"
    "0 \<le> billed_duration tr" "0 \<le> over_budget_ms tr"
    "count_cached tr price ctx (count_outcome tr (count_over_budget tr (count_call tr m price t))) = Inr t'"
  using assms by (auto simp: merge_totals_def split: option.splits sum.splits if_splits)

lemmas counting = count_call_def count_over_budget_def count_outcome_def

lemma counted_costs:
  "total_cost (count_outcome tr (count_over_budget tr (count_call tr m price t))) = round_stats_cost (f64_add (total_cost t) price)"
  "cached_cost (count_outcome tr (count_over_budget tr (count_call tr m price t))) = cached_cost t"
  by (simp_all add: counting)

lemma validate_totals_counts:
  assumes "validate_totals t = None"
  shows "0 \<le> cached_count t" "0 \<le> failure_count t" "0 \<le> max_call_duration t" "0 \<le> max_over_budget t"
    "0 \<le> over_budget_count t" "0 \<le> success_count t" "0 \<le> timeout_count t" "0 \<le> total_call_duration t"
    "0 \<le> total_count t" "0 \<le> total_output_tokens t" "0 \<le> total_prompt_tokens t"
  using assms by (simp_all add: validate_totals_def totals_counts_def split: if_splits)

text \<open>The counters of a call, where nothing wraps.\<close>

lemma counted_counts:
  fixes price :: float64
  assumes "room_for t tr m" "validate_totals t = None" "0 \<le> billed_duration tr" "0 \<le> over_budget_ms tr"
  defines "u \<equiv> count_outcome tr (count_over_budget tr (count_call tr m price t))"
  shows "list_all (\<lambda>v. 0 \<le> v) (totals_counts u)" "cached_count u = cached_count t"
    "total_count u = total_count t + 1"
    "success_count u + failure_count u + timeout_count u = success_count t + failure_count t + timeout_count t + 1"
    "0 \<le> success_count u" "0 \<le> failure_count u" "0 \<le> timeout_count u"
proof -
  note v = validate_totals_counts [OF assms(2)]
  have w: "wrap64 (total_count t + 1) = total_count t + 1" "wrap64 (success_count t + 1) = success_count t + 1"
    "wrap64 (failure_count t + 1) = failure_count t + 1" "wrap64 (timeout_count t + 1) = timeout_count t + 1"
    "wrap64 (over_budget_count t + 1) = over_budget_count t + 1"
    "wrap64 (total_call_duration t + billed_duration tr) = total_call_duration t + billed_duration tr"
    using v assms(1,3) by (simp_all add: room_for_def int64_def)
  have k: "0 \<le> wrap64 (total_prompt_tokens t + billed_tokens m [ItemInput, ItemCacheRead, ItemCacheCreation])"
    "0 \<le> wrap64 (total_output_tokens t + billed_tokens m [ItemOutput, ItemReasoning])"
    using v assms(1) by (simp_all add: room_for_def int64_def)
  show "list_all (\<lambda>v. 0 \<le> v) (totals_counts u)" using v w k assms(3) unfolding u_def
    by (simp add: counting totals_counts_def le_max_iff_disj)
  show "cached_count u = cached_count t" "total_count u = total_count t + 1"
    "success_count u + failure_count u + timeout_count u = success_count t + failure_count t + timeout_count t + 1"
    "0 \<le> success_count u" "0 \<le> failure_count u" "0 \<le> timeout_count u"
    using v w unfolding u_def by (simp_all add: counting)
qed

lemma outcomes_fit:
  assumes "validate_totals t = None" "success_count t + failure_count t + timeout_count t < max_int64"
  shows "success_count t + failure_count t + timeout_count t \<le> total_count t"
proof -
  note v = validate_totals_counts [OF assms(1)]
  have "wrap64 (wrap64 (success_count t + failure_count t) + timeout_count t)
      = success_count t + failure_count t + timeout_count t"
    using v assms(2) by (simp add: wrap64_add int64_def)
  then show ?thesis using assms(1) by (simp add: validate_totals_def split: if_splits)
qed

definition demo_trace :: "float64 \<Rightarrow> stats_trace" where
  "demo_trace price = \<lparr>last_error_category = None, over_budget_ms = 0, trace_duration_ms = 20, trace_wait_ms = 0,
     trace_usage = Some zero_priced_usage, fresh_usage = None, saved_usage = None, served_from_cache = False,
     provider_invoked = Some True, trace_cost_of = \<lparr>tc_cached = Fin 0, tc_cached_known = False, tc_known = True,
       tc_source = ''reported'', tc_total = price\<rparr>\<rparr>"

definition zero_totals :: totals where
  "zero_totals = \<lparr>cached_cost = Fin 0, cached_count = 0, failure_count = 0, max_call_duration = 0, max_over_budget = 0,
     over_budget_count = 0, success_count = 0, timeout_count = 0, total_call_duration = 0, total_cost = Fin 0,
     total_count = 0, total_output_tokens = 0, total_prompt_tokens = 0\<rparr>"

lemma zero_totals_valid: "validate_totals zero_totals = None"
  by (simp add: zero_totals_def validate_totals_def totals_counts_def invalid_amount_def is_inf_def int64_def)

lemma zero_usage_tokens [simp]: "item_tokens (item_at zero_priced_usage k) = 0"
  by (simp add: item_at_def zero_priced_usage_def zero_item_def item_order_def)

lemma zero_usage_billed [simp]: "billed_tokens zero_priced_usage ks = 0"
  by (induction ks) (simp_all add: billed_tokens_def int64_def)

lemma demo_merge:
  "merge_totals zero_totals (demo_trace price) ctx = Inr (count_outcome (demo_trace price)
     (count_over_budget (demo_trace price) (count_call (demo_trace price) zero_priced_usage price zero_totals)))"
proof -
  have "normalize_priced_usage (Some zero_priced_usage) = Inr zero_priced_usage"
    by (simp add: normalize_priced_usage_def normalize_items_spec zero_priced_usage_def item_order_def item_at_def
        zero_item_def valid_item_def Let_def)
  then obtain s where "summarize_priced_usage (Some zero_priced_usage) = Inr s"
    by (simp add: summarize_priced_usage_def case_prod_beta Let_def)
  then show ?thesis
    by (simp add: merge_totals_def zero_totals_valid billed_usage_def billed_cost_def billed_duration_def count_cached_def demo_trace_def)
qed

lemma round_dollar: "round_stats_cost (Fin (-1)) = Fin (-1)"
proof -
  have "f64_round (-1) = Fin (-1)" "f64_round (-1000000000000) = Fin (-1000000000000)"
    using f64_round_minus [of 1 1] f64_round_minus [of 1000000000000 1000000000000]
      f64_round_int [of 1] f64_round_int [of 1000000000000] by simp_all
  moreover have "\<lfloor>2000000000001 / 2 :: rat\<rfloor> = 1000000000000" by (simp add: floor_eq_iff)
  ultimately show ?thesis by (simp add: round_stats_cost_def f64_mul_def round_away_def)
qed

text \<open>
  C33. A merge keeps the totals valid and counts its call once: where the counters have room, the
  stated cost of the trace is a finite amount and the sums of costs stay finite, the new totals pass
  the check of the next merge, and the calls and their outcomes grow by exactly one.
\<close>

theorem merge_totals_valid:
  assumes "merge_totals t tr ctx = Inr t'" "billed_usage tr = Some m" "room_for t tr m"
    and "\<forall>k. item_tokens (item_at m k) \<le> max_int64"
    and "tc_known (trace_cost_of tr) \<longrightarrow> \<not> invalid_amount (tc_total (trace_cost_of tr))"
    and "\<not> is_inf (total_cost t')" "\<not> is_inf (cached_cost t')"
  shows "validate_totals t' = None \<and> total_count t' = total_count t + 1
    \<and> success_count t' + failure_count t' + timeout_count t' = success_count t + failure_count t + timeout_count t + 1
    \<and> cached_count t' = cached_count t + (if served_from_cache tr then 1 else 0)"
proof -
  from assms(1) obtain m' s price where v: "validate_totals t = None" and u: "billed_usage tr = Some m'"
    and s: "summarize_priced_usage (Some m') = Inr s" and c: "billed_cost tr s = Some price"
    and d: "0 \<le> billed_duration tr" "0 \<le> over_budget_ms tr"
    and r: "count_cached tr price ctx (count_outcome tr (count_over_budget tr (count_call tr m' price t))) = Inr t'"
    by (rule merge_totals_Inr)
  have m: "m' = m" using u assms(2) by simp
  let ?u = "count_outcome tr (count_over_budget tr (count_call tr m price t))"
  note n = counted_counts [OF assms(3) v d, of price] and r = r [unfolded m]
  have "amount price"
    using c s summary_cost_amount [OF s [unfolded m] assms(4)] assms(5)
    by (auto simp: billed_cost_def valid_amount_iff split: if_splits)
  moreover have t: "amount (total_cost t)" "amount (cached_cost t)"
    using v by (auto simp: validate_totals_def valid_amount_iff split: if_splits)
  ultimately have "amount (total_cost ?u)" "amount (cached_cost ?u)"
    by (simp_all add: counted_costs rounded_sum_amount)
  then have "amount (total_cost t')" "amount (cached_cost t')"
    using r by (auto simp: count_cached_def valid_amount_iff Let_def intro: rounded_sum_amount split: if_splits)
  moreover have "wrap64 (cached_count t + 1) = cached_count t + 1"
    using validate_totals_counts(1) [OF v] assms(3) by (simp add: room_for_def int64_def)
  then have q: "list_all (\<lambda>v. 0 \<le> v) (totals_counts t')" "total_count t' = total_count t + 1"
    "success_count t' = success_count ?u" "failure_count t' = failure_count ?u" "timeout_count t' = timeout_count ?u"
    "cached_count t' = cached_count t + (if served_from_cache tr then 1 else 0)"
    using r n(1-3) validate_totals_counts(1) [OF v]
    by (auto simp: count_cached_def Let_def totals_counts_def split: if_splits)
  moreover have "\<not> list_ex (\<lambda>v. v < 0) (totals_counts t')" using q(1) by (simp add: list_ex_iff list_all_iff not_less)
  moreover have le: "success_count ?u + failure_count ?u + timeout_count ?u \<le> total_count t + 1"
    "success_count ?u + failure_count ?u + timeout_count ?u \<le> max_int64"
    using outcomes_fit [OF v] n(4) assms(3) by (simp_all add: room_for_def)
  moreover have "wrap64 (wrap64 (success_count ?u + failure_count ?u) + timeout_count ?u)
      = success_count ?u + failure_count ?u + timeout_count ?u"
    using n(5-7) le(2) by (simp add: wrap64_add int64_def)
  ultimately show ?thesis using n(4) assms(6,7) by (simp add: validate_totals_def valid_amount_iff)
qed

theorem merge_totals_valid_witness:
  "\<exists>t'. merge_totals zero_totals (demo_trace (Fin 0)) [] = Inr t' \<and> validate_totals t' = None \<and> total_count t' = 1"
proof -
  let ?t = "count_outcome (demo_trace (Fin 0)) (count_over_budget (demo_trace (Fin 0))
    (count_call (demo_trace (Fin 0)) zero_priced_usage (Fin 0) zero_totals))"
  have "room_for zero_totals (demo_trace (Fin 0)) zero_priced_usage"
    by (simp add: room_for_def zero_totals_def billed_duration_def demo_trace_def)
  moreover have "total_cost ?t = Fin 0" "cached_cost ?t = Fin 0"
    by (simp_all add: counting zero_totals_def round_stats_cost_eq f64_round_def)
  ultimately show ?thesis
    using merge_totals_valid [OF demo_merge, of "Fin 0" zero_priced_usage] demo_merge [of "Fin 0"]
    by (simp add: billed_usage_def demo_trace_def invalid_amount_def is_inf_def zero_totals_def)
qed


end
