(* ===== verification/Json_Number.thy ===== *)
theory Json_Number
  imports Go_Json Complex_Main
begin

text \<open>
  The canonical decimals with which \<open>internal/schema/schema.go\<close> compares JSON numbers
  (\<open>numericValue\<close>, \<open>isNumber\<close>), against the rational value a JSON number literal denotes.
\<close>

section \<open>Canonical decimals\<close>

text \<open>The validity test \<open>json.Marshal\<close> applies to a \<open>json.Number\<close>.\<close>

definition valid_exponent :: "string \<Rightarrow> bool" where
  "valid_exponent s = (case s of
     [] \<Rightarrow> True
   | c # cs \<Rightarrow> c \<in> {CHR ''e'', CHR ''E''} \<and>
      (let ds = (if cs \<noteq> [] \<and> hd cs \<in> {CHR ''+'', CHR ''-''} then tl cs else cs) in
       ds \<noteq> [] \<and> list_all is_digit ds))"

definition valid_fraction :: "string \<Rightarrow> bool" where
  "valid_fraction s = (case s of
     c # d # ds \<Rightarrow> (if c = CHR ''.'' \<and> is_digit d then valid_exponent (dropWhile is_digit ds) else valid_exponent s)
   | _ \<Rightarrow> valid_exponent s)"

definition valid_number :: "string \<Rightarrow> bool" where
  "valid_number s = (let s = (if s \<noteq> [] \<and> hd s = CHR ''-'' then tl s else s) in
     case s of
       [] \<Rightarrow> False
     | c # cs \<Rightarrow> (if c = CHR ''0'' then valid_fraction cs
         else if is_digit c then valid_fraction (dropWhile is_digit cs) else False))"

text \<open>\<open>big.Int.SetString(s, 10)\<close>.\<close>

definition parse_big :: "string \<Rightarrow> int option" where
  "parse_big s = (case s of
     [] \<Rightarrow> None
   | c # cs \<Rightarrow> (if c = CHR ''-'' then map_option (\<lambda>n. - int n) (parse_nat cs)
       else if c = CHR ''+'' then map_option int (parse_nat cs)
       else map_option int (parse_nat s)))"

record decimal_value =
  dv_digits :: string
  dv_exponent :: int

definition trim_zeros_left :: "string \<Rightarrow> string" where
  "trim_zeros_left s = dropWhile (\<lambda>c. c = CHR ''0'') s"

definition trim_zeros_right :: "string \<Rightarrow> string" where
  "trim_zeros_right s = rev (dropWhile (\<lambda>c. c = CHR ''0'') (rev s))"

definition decimal_of_text :: "string \<Rightarrow> decimal_value option" where
  "decimal_of_text text =
     (let negative = has_prefix text ''-'';
          unsigned = (if negative then tl text else text);
          (mantissa, power, has_power) = cut_at (CHR ''e'') unsigned;
          (whole, fraction, _) = cut_at (CHR ''.'') mantissa;
          digits = trim_zeros_left (whole @ fraction)
      in if digits = [] then Some \<lparr>dv_digits = ''0'', dv_exponent = 0\<rparr>
         else (case (if has_power then parse_big power else Some 0) of
             None \<Rightarrow> None
           | Some e \<Rightarrow>
             (let trimmed = trim_zeros_right digits in
              Some \<lparr>dv_digits = (if negative then CHR ''-'' # trimmed else trimmed),
                dv_exponent = e + (int (length digits) - int (length trimmed) - int (length fraction))\<rparr>)))"

text \<open>An empty \<open>json.Number\<close> is encoded as 0, an invalid one is an error.\<close>

definition numeric_value :: "json \<Rightarrow> decimal_value option" where
  "numeric_value v = (case v of
     JNumber s \<Rightarrow> (let text = (if s = [] then ''0'' else s) in
       if valid_number text then decimal_of_text (to_lower text) else None)
   | _ \<Rightarrow> None)"

definition is_number :: "json \<Rightarrow> bool \<Rightarrow> bool" where
  "is_number v integer = (case numeric_value v of
     None \<Rightarrow> False
   | Some d \<Rightarrow> \<not> integer \<or> 0 \<le> dv_exponent d)"

definition equal_number :: "json \<Rightarrow> json \<Rightarrow> bool" where
  "equal_number l r = (case (numeric_value l, numeric_value r) of
     (Some d, Some e) \<Rightarrow> dv_digits d = dv_digits e \<and> dv_exponent d = dv_exponent e
   | _ \<Rightarrow> False)"

section \<open>What a number literal denotes\<close>

inductive exponent_part :: "string \<Rightarrow> int \<Rightarrow> bool" where
  no_exponent: "exponent_part [] 0"
| exponent: "c \<in> {CHR ''e'', CHR ''E''} \<Longrightarrow> ds \<noteq> [] \<Longrightarrow> list_all is_digit ds \<Longrightarrow> exponent_part (c # ds) (int (digits_val ds))"
| exponent_plus: "c \<in> {CHR ''e'', CHR ''E''} \<Longrightarrow> ds \<noteq> [] \<Longrightarrow> list_all is_digit ds
    \<Longrightarrow> exponent_part (c # CHR ''+'' # ds) (int (digits_val ds))"
| exponent_minus: "c \<in> {CHR ''e'', CHR ''E''} \<Longrightarrow> ds \<noteq> [] \<Longrightarrow> list_all is_digit ds
    \<Longrightarrow> exponent_part (c # CHR ''-'' # ds) (- int (digits_val ds))"

definition whole_part :: "string \<Rightarrow> bool" where
  "whole_part w \<longleftrightarrow> w \<noteq> [] \<and> list_all is_digit w \<and> (hd w = CHR ''0'' \<longrightarrow> w = ''0'')"

definition fraction_text :: "string \<Rightarrow> string" where
  "fraction_text f = (if f = [] then [] else CHR ''.'' # f)"

text \<open>The grammar of RFC 8259 with the rational each literal stands for.\<close>

inductive json_number :: "string \<Rightarrow> rat \<Rightarrow> bool" where
  nonneg: "whole_part w \<Longrightarrow> list_all is_digit f \<Longrightarrow> exponent_part e p \<Longrightarrow>
    json_number (w @ fraction_text f @ e) (of_nat (digits_val (w @ f)) * 10 powi (p - int (length f)))"
| neg: "whole_part w \<Longrightarrow> list_all is_digit f \<Longrightarrow> exponent_part e p \<Longrightarrow>
    json_number (CHR ''-'' # w @ fraction_text f @ e) (- (of_nat (digits_val (w @ f)) * 10 powi (p - int (length f))))"

section \<open>Digit strings\<close>

lemma digit_facts:
  assumes "is_digit c"
  shows "c \<noteq> CHR ''-''" "c \<noteq> CHR ''.''" "c \<noteq> CHR ''e''" "c \<noteq> CHR ''E''" "c \<noteq> CHR ''+''"
    and "ascii_lower c = c" and "digit_val c < 10" and "of_char c < (128 :: nat)"
  using assms by (auto simp: is_digit_def ascii_lower_def digit_val_def)

lemma digit_val_inj: "is_digit c \<Longrightarrow> is_digit d \<Longrightarrow> digit_val c = digit_val d \<longleftrightarrow> c = d"
  unfolding is_digit_def digit_val_def
  by (metis char_of_char diff_add le_add_diff_inverse)

lemma is_digit_0 [simp]: "is_digit (CHR ''0'')" "digit_val (CHR ''0'') = 0"
  by (simp_all add: is_digit_def digit_val_def)

lemma digits_val_Nil [simp]: "digits_val [] = 0"
  by (simp add: digits_val_def)

lemma digits_val_append: "digits_val (xs @ ys) = digits_val xs * 10 ^ length ys + digits_val ys"
proof (induction ys rule: rev_induct)
  case (snoc y ys)
  then show ?case by (simp add: digits_val_snoc [of "xs @ ys", simplified] digits_val_snoc algebra_simps)
qed simp

lemma digits_val_Cons: "digits_val (c # cs) = digit_val c * 10 ^ length cs + digits_val cs"
  using digits_val_append [of "[c]" cs] by (simp add: digits_val_def)

lemma digits_val_bound: "list_all is_digit ds \<Longrightarrow> digits_val ds < 10 ^ length ds"
proof (induction ds rule: rev_induct)
  case (snoc d ds)
  then have "digits_val ds < 10 ^ length ds" "digit_val d < 10" using digit_facts(7) by auto
  then show ?case by (simp add: digits_val_snoc)
qed simp

lemma digits_val_zeros: "digits_val (replicate n (CHR ''0'') @ ds) = digits_val ds"
  by (induction n) (simp_all add: digits_val_Cons)

lemma trim_zeros_left_split: "\<exists>n. ds = replicate n (CHR ''0'') @ trim_zeros_left ds"
proof (induction ds)
  case (Cons d ds)
  then obtain n where "ds = replicate n (CHR ''0'') @ trim_zeros_left ds" by blast
  then show ?case
    by (cases "d = CHR ''0''") (auto simp: trim_zeros_left_def intro: exI [of _ "Suc n"] exI [of _ 0])
qed (simp add: trim_zeros_left_def)

lemma trim_zeros_right_split: "\<exists>n. ds = trim_zeros_right ds @ replicate n (CHR ''0'')"
proof -
  obtain n where "rev ds = replicate n (CHR ''0'') @ trim_zeros_left (rev ds)" using trim_zeros_left_split by blast
  then have "ds = rev (replicate n (CHR ''0'') @ trim_zeros_left (rev ds))" by (metis rev_rev_ident)
  then show ?thesis by (auto simp: trim_zeros_right_def trim_zeros_left_def intro: exI [of _ n])
qed

definition canonical :: "string \<Rightarrow> bool" where
  "canonical t \<longleftrightarrow> t \<noteq> [] \<and> list_all is_digit t \<and> hd t \<noteq> CHR ''0'' \<and> last t \<noteq> CHR ''0''"

lemma trim_canonical:
  assumes "list_all is_digit ds" and "trim_zeros_left ds \<noteq> []"
  shows "canonical (trim_zeros_right (trim_zeros_left ds))"
proof -
  let ?l = "trim_zeros_left ds"
  let ?t = "trim_zeros_right ?l"
  obtain n where l: "?l = ?t @ replicate n (CHR ''0'')" using trim_zeros_right_split by blast
  have hd: "hd ?l \<noteq> CHR ''0''" using hd_dropWhile [of "\<lambda>c. c = CHR ''0''" ds] assms(2) by (simp add: trim_zeros_left_def)
  have t: "?t \<noteq> []"
  proof
    assume "?t = []"
    with l have "?l = replicate n (CHR ''0'')" by simp
    with hd assms(2) show False by (cases n) auto
  qed
  with l hd have "hd ?t \<noteq> CHR ''0''" by (metis hd_append2)
  moreover have "last ?t \<noteq> CHR ''0''"
    using t hd_dropWhile [of "\<lambda>c. c = CHR ''0''" "rev ?l"] by (simp add: trim_zeros_right_def last_rev)
  moreover have "set ?t \<subseteq> set ds"
    unfolding trim_zeros_right_def trim_zeros_left_def by (auto dest!: set_dropWhileD)
  then have "list_all is_digit ?t" using assms(1) by (auto simp: list_all_iff)
  ultimately show ?thesis using t by (simp add: canonical_def)
qed

lemma trim_value:
  assumes "trim_zeros_left ds \<noteq> []"
  shows "digits_val ds = digits_val (trim_zeros_right (trim_zeros_left ds))
    * 10 ^ (length (trim_zeros_left ds) - length (trim_zeros_right (trim_zeros_left ds)))"
    and "length (trim_zeros_right (trim_zeros_left ds)) \<le> length (trim_zeros_left ds)"
proof -
  let ?l = "trim_zeros_left ds"
  let ?t = "trim_zeros_right ?l"
  obtain m where "ds = replicate m (CHR ''0'') @ ?l" using trim_zeros_left_split by blast
  then have "digits_val ds = digits_val ?l" by (metis digits_val_zeros)
  moreover obtain n where l: "?l = ?t @ replicate n (CHR ''0'')" using trim_zeros_right_split by blast
  moreover have "digits_val (replicate n (CHR ''0'')) = 0" using digits_val_zeros [of n "[]"] by simp
  then have "digits_val (?t @ replicate n (CHR ''0'')) = digits_val ?t * 10 ^ n" by (simp add: digits_val_append)
  moreover from l have n: "length ?l = length ?t + n" by (metis length_append length_replicate)
  ultimately show "digits_val ds = digits_val ?t * 10 ^ (length ?l - length ?t)" by simp
  from n show "length ?t \<le> length ?l" by simp
qed

lemma digits_val_inj:
  assumes "list_all is_digit a" "list_all is_digit b" "length a = length b" "digits_val a = digits_val b"
  shows "a = b"
  using assms(3,1,2,4)
proof (induction a b rule: list_induct2)
  case (Cons x xs y ys)
  have b: "digits_val xs < 10 ^ length xs" "digits_val ys < 10 ^ length xs"
    using Cons digits_val_bound [of xs] digits_val_bound [of ys] by auto
  let ?p = "(10 :: nat) ^ length xs"
  from Cons have eq: "digit_val x * ?p + digits_val xs = digit_val y * ?p + digits_val ys"
    by (simp add: digits_val_Cons)
  from b have "(digit_val x * ?p + digits_val xs) div ?p = digit_val x" "(digit_val y * ?p + digits_val ys) div ?p = digit_val y"
    by simp_all
  with eq have "digit_val x = digit_val y" by simp
  with eq Cons show ?case using digit_val_inj by simp
qed simp

lemma canonical_bounds:
  assumes "canonical t" shows "10 ^ (length t - 1) \<le> digits_val t" "digits_val t < 10 ^ length t"
proof -
  obtain c cs where t: "t = c # cs" using assms by (cases t) (auto simp: canonical_def)
  have "digit_val c \<noteq> digit_val (CHR ''0'')"
    using assms digit_val_inj [of c "CHR ''0''"] by (auto simp: canonical_def t)
  then have "1 \<le> digit_val c" by simp
  then have "10 ^ length cs \<le> digit_val c * 10 ^ length cs" by simp
  then show "10 ^ (length t - 1) \<le> digits_val t"
    unfolding t digits_val_Cons by (simp only: list.size add_Suc_right add_0_right diff_Suc_1 trans_le_add1)
  show "digits_val t < 10 ^ length t" using assms digits_val_bound by (auto simp: canonical_def)
qed

lemma canonical_inj:
  assumes "canonical a" "canonical b" "digits_val a = digits_val b" shows "a = b"
proof -
  have "\<not> length x < length y" if "canonical x" "canonical y" "digits_val x = digits_val y" for x y
  proof
    assume "length x < length y"
    then have "(10::nat) ^ length x \<le> 10 ^ (length y - 1)" by (intro power_increasing) auto
    with canonical_bounds(2) [OF that(1)] canonical_bounds(1) [OF that(2)] that(3) show False by simp
  qed
  with assms have "length a = length b" by (metis linorder_less_linear)
  with assms show ?thesis by (intro digits_val_inj) (auto simp: canonical_def)
qed

lemma canonical_not_dvd:
  assumes "canonical t" shows "\<not> 10 dvd digits_val t" and "0 < digits_val t"
proof -
  have t: "t = butlast t @ [last t]" using assms by (simp add: canonical_def)
  have d: "is_digit (last t)" using assms by (simp add: canonical_def list_all_iff)
  have "digit_val (last t) \<noteq> 0" using assms digit_val_inj [OF d, of "CHR ''0''"] by (auto simp: canonical_def)
  moreover have "digits_val t mod 10 = digit_val (last t)"
    using digits_val_snoc [of "butlast t" "last t"] t digit_facts(7) [OF d] by simp
  ultimately show "\<not> 10 dvd digits_val t" by (simp add: dvd_eq_mod_eq_0)
  then show "0 < digits_val t" by (cases "digits_val t") auto
qed

section \<open>The decimal of a literal\<close>

lemma power10_unique:
  assumes "\<not> 10 dvd a" "\<not> 10 dvd b" "of_nat a * (10 :: rat) powi i = of_nat b * 10 powi j"
  shows "a = b \<and> i = j"
proof -
  have le: "i' \<le> j'" if "\<not> 10 dvd b'" "of_nat a' * (10 :: rat) powi i' = of_nat b' * 10 powi j'" for a' b' :: nat and i' j'
  proof (rule ccontr)
    assume "\<not> i' \<le> j'"
    then obtain n where n: "i' = j' + int (Suc n)" by (metis zless_iff_Suc_zadd linorder_not_le add.commute)
    have "(10 :: rat) powi i' = 10 powi j' * 10 ^ Suc n" unfolding n by (simp add: power_int_add)
    with that(2) have "of_nat (a' * 10 ^ Suc n) = (of_nat b' :: rat)" by simp
    then have "a' * 10 ^ Suc n = b'" by (simp only: of_nat_eq_iff)
    with that(1) show False by auto
  qed
  from le [OF assms(2,3)] le [OF assms(1) assms(3) [symmetric]] have "i = j" by simp
  with assms(3) show ?thesis by simp
qed

definition decimal_denotes :: "decimal_value \<Rightarrow> rat \<Rightarrow> bool" where
  "decimal_denotes d q \<longleftrightarrow>
     (q = 0 \<and> dv_digits d = ''0'' \<and> dv_exponent d = 0)
   \<or> (\<exists>t. canonical t \<and> (dv_digits d = t \<and> q = of_nat (digits_val t) * 10 powi dv_exponent d
         \<or> dv_digits d = CHR ''-'' # t \<and> q = - (of_nat (digits_val t) * 10 powi dv_exponent d)))"

lemma canonical_hd: "canonical t \<Longrightarrow> hd t \<noteq> CHR ''-'' \<and> t \<noteq> ''0'' \<and> t \<noteq> CHR ''-'' # u"
  using digit_facts(1) by (cases t) (auto simp: canonical_def)

lemma decimal_denotes_cases:
  assumes "decimal_denotes d q"
  obtains (zero) "q = 0" "dv_digits d = ''0''" "dv_exponent d = 0"
  | (pos) t where "canonical t" "dv_digits d = t" "q = of_nat (digits_val t) * 10 powi dv_exponent d" "0 < q"
  | (neg) t where "canonical t" "dv_digits d = CHR ''-'' # t" "q = - (of_nat (digits_val t) * 10 powi dv_exponent d)" "q < 0"
proof -
  have "0 < of_nat (digits_val t) * (10 :: rat) powi x" if "canonical t" for t x
    using canonical_not_dvd(2) [OF that] by simp
  with assms show thesis using that unfolding decimal_denotes_def by (metis neg_less_0_iff_less)
qed

lemma canonical_value_inj:
  assumes "canonical t" "canonical u" "of_nat (digits_val t) * (10 :: rat) powi i = of_nat (digits_val u) * 10 powi j"
  shows "t = u \<and> i = j"
  using power10_unique [OF canonical_not_dvd(1) [OF assms(1)] canonical_not_dvd(1) [OF assms(2)] assms(3)]
    canonical_inj [OF assms(1,2)] by blast

lemma same_sign_inj:
  assumes "canonical t" "canonical u"
  shows "t = u \<and> i = j \<longleftrightarrow> of_nat (digits_val t) * (10 :: rat) powi i = of_nat (digits_val u) * 10 powi j"
  using canonical_value_inj [OF assms, of i j] by blast

lemma decimal_denotes_inj:
  assumes "decimal_denotes d q" "decimal_denotes e r"
  shows "dv_digits d = dv_digits e \<and> dv_exponent d = dv_exponent e \<longleftrightarrow> q = r"
  using assms(1)
proof (cases rule: decimal_denotes_cases)
  case d: zero
  from assms(2) show ?thesis
  proof (cases rule: decimal_denotes_cases)
    case zero
    show ?thesis by (simp only: d zero simp_thms)
  next
    case (pos u)
    have "q \<noteq> r" using d(1) pos(4) by blast
    with canonical_hd [OF pos(1), of "[]"] show ?thesis by (simp only: d(2) pos(2)) blast
  next
    case (neg u)
    have "q \<noteq> r" using d(1) neg(4) by blast
    then show ?thesis by (simp only: d(2) neg(2)) simp
  qed
next
  case d: (pos t)
  from assms(2) show ?thesis
  proof (cases rule: decimal_denotes_cases)
    case zero
    have "q \<noteq> r" using d(4) zero(1) by blast
    with canonical_hd [OF d(1), of "[]"] show ?thesis by (simp only: d(2) zero(2)) blast
  next
    case (pos u)
    show ?thesis by (simp only: d(2,3) pos(2,3) same_sign_inj [OF d(1) pos(1)])
  next
    case (neg u)
    have "q \<noteq> r" using d(4) neg(4) by (metis less_asym)
    with canonical_hd [OF d(1), of u] show ?thesis by (simp only: d(2) neg(2)) blast
  qed
next
  case d: (neg t)
  from assms(2) show ?thesis
  proof (cases rule: decimal_denotes_cases)
    case zero
    have "q \<noteq> r" using d(4) zero(1) by blast
    then show ?thesis by (simp only: d(2) zero(2)) simp
  next
    case (pos u)
    have "q \<noteq> r" using d(4) pos(4) by (metis less_asym)
    with canonical_hd [OF pos(1), of t] show ?thesis by (simp only: d(2) pos(2)) blast
  next
    case (neg u)
    show ?thesis by (simp only: d(2,3) neg(2,3) list.inject simp_thms same_sign_inj [OF d(1) neg(1)] neg_equal_iff_equal)
  qed
qed

lemma decimal_denotes_integer:
  assumes "decimal_denotes d q"
  shows "0 \<le> dv_exponent d \<longleftrightarrow> q \<in> \<int>"
proof -
  have int: "0 \<le> x \<longleftrightarrow> of_nat (digits_val t) * (10 :: rat) powi x \<in> \<int>" if t: "canonical t" for t x
  proof
    assume "0 \<le> x"
    then have "of_nat (digits_val t) * (10 :: rat) powi x = of_nat (digits_val t * 10 ^ nat x)" by (simp add: power_int_def)
    then show "of_nat (digits_val t) * (10 :: rat) powi x \<in> \<int>" by (simp only: Ints_of_nat)
  next
    assume "of_nat (digits_val t) * (10 :: rat) powi x \<in> \<int>"
    then obtain z where z: "of_nat (digits_val t) * (10 :: rat) powi x = of_int z" by (auto elim: Ints_cases)
    show "0 \<le> x"
    proof (rule ccontr)
      assume "\<not> 0 \<le> x"
      then obtain n where n: "x = - int (Suc n)" using negD [of x] by auto
      from z have "of_nat (digits_val t) = of_int z * (10 :: rat) ^ Suc n"
        by (simp add: n power_int_minus field_simps del: of_nat_Suc)
      then have "(of_int (int (digits_val t)) :: rat) = of_int (z * 10 ^ Suc n)" by simp
      then have "int (digits_val t) = z * 10 ^ Suc n" by (simp only: of_int_eq_iff)
      then have "int 10 dvd int (digits_val t)" by simp
      then have "10 dvd digits_val t" by (simp only: int_dvd_int_iff)
      with canonical_not_dvd(1) [OF t] show False by blast
    qed
  qed
  from assms show ?thesis
  proof (cases rule: decimal_denotes_cases)
    case (pos t)
    with int [OF pos(1), of "dv_exponent d"] show ?thesis by simp
  next
    case (neg t)
    with int [OF neg(1), of "dv_exponent d"] show ?thesis by simp
  qed simp
qed

lemma ascii_to_lower: "\<forall>c \<in> set s. of_char c < (128 :: nat) \<Longrightarrow> to_lower s = map ascii_lower s"
proof (induction s)
  case (Cons c s)
  have neq: "char_of n \<noteq> c" if "128 \<le> n" "n < 256" for n :: nat
    using Cons.prems that by auto
  have "match_encoding [(kelvin_bytes, k), (dotted_i_bytes, i)] (c # s) = None" for k i
    unfolding kelvin_bytes_def dotted_i_bytes_def list.map match_encoding.simps strip_prefix.simps
    by (simp only: neq if_False option.case le_numeral_simps rel_simps simp_thms)
  with Cons show ?case by (simp add: to_lower_def)
qed (simp add: to_lower_def)

lemma map_ascii_lower_digits: "list_all is_digit ds \<Longrightarrow> map ascii_lower ds = ds"
  by (induction ds) (auto simp: digit_facts(6))

lemma cut_at_split: "c \<notin> set xs \<Longrightarrow> cut_at c (xs @ c # ys) = (xs, ys, True)"
proof -
  assume c: "c \<notin> set xs"
  have "takeWhile (\<lambda>x. x \<noteq> c) (xs @ c # ys) = xs" by (subst takeWhile_append2) (use c in auto)
  moreover have "dropWhile (\<lambda>x. x \<noteq> c) (xs @ c # ys) = c # ys" by (subst dropWhile_append2) (use c in auto)
  ultimately show ?thesis by (simp add: cut_at_def)
qed

lemma cut_at_none: "c \<notin> set xs \<Longrightarrow> cut_at c xs = (xs, [], False)"
proof -
  assume c: "c \<notin> set xs"
  then have tw: "takeWhile (\<lambda>x. x \<noteq> c) xs = xs" and dw: "dropWhile (\<lambda>x. x \<noteq> c) xs = []"
    by (auto simp: takeWhile_eq_all_conv dropWhile_eq_Nil_conv)
  show ?thesis unfolding cut_at_def tw dw using c by simp
qed

lemma digits_no_mark:
  assumes "list_all is_digit ds"
  shows "CHR ''e'' \<notin> set ds" "CHR ''.'' \<notin> set ds" "CHR ''-'' \<notin> set ds"
  using assms digit_facts(3) [of "CHR ''e''"] digit_facts(2) [of "CHR ''.''"] digit_facts(1) [of "CHR ''-''"]
  by (auto simp: list_all_iff)

lemma lower_marks:
  "ascii_lower (CHR ''e'') = CHR ''e''" "ascii_lower (CHR ''E'') = CHR ''e''" "ascii_lower (CHR ''+'') = CHR ''+''"
  "ascii_lower (CHR ''-'') = CHR ''-''" "ascii_lower (CHR ''.'') = CHR ''.''"
  by code_simp+

text \<open>The lower-cased exponent part of a literal, as the cut at \<open>e\<close> sees it.\<close>

lemma parse_big_digits:
  assumes "ds \<noteq> []" "list_all is_digit ds"
  shows "parse_big ds = Some (int (digits_val ds))" "parse_big (CHR ''+'' # ds) = Some (int (digits_val ds))"
    "parse_big (CHR ''-'' # ds) = Some (- int (digits_val ds))"
    "hd ds \<notin> {CHR ''+'', CHR ''-''}"
proof -
  obtain c cs where ds: "ds = c # cs" "is_digit c" using assms by (cases ds) auto
  then show "parse_big ds = Some (int (digits_val ds))" "hd ds \<notin> {CHR ''+'', CHR ''-''}"
    using assms(2) digit_facts(1,5) [OF ds(2)] by (auto simp: parse_big_def parse_nat_def)
  show "parse_big (CHR ''+'' # ds) = Some (int (digits_val ds))" "parse_big (CHR ''-'' # ds) = Some (- int (digits_val ds))"
    using assms by (auto simp: parse_big_def parse_nat_def)
qed

lemma exponent_part_facts:
  assumes "exponent_part e p"
  shows "(\<forall>c \<in> set e. of_char c < (128 :: nat)) \<and> valid_exponent e
    \<and> (e = [] \<and> p = 0 \<or> (\<exists>pw. map ascii_lower e = CHR ''e'' # pw \<and> parse_big pw = Some p))"
  using assms
proof (induction rule: exponent_part.induct)
  case no_exponent
  show ?case by (simp add: valid_exponent_def)
next
  case (exponent c ds)
  with parse_big_digits [OF exponent(2,3)] show ?case
    by (auto simp: valid_exponent_def map_ascii_lower_digits lower_marks list_all_iff digit_facts(8))
next
  case (exponent_plus c ds)
  with parse_big_digits [OF exponent_plus(2,3)] show ?case
    by (auto simp: valid_exponent_def map_ascii_lower_digits lower_marks list_all_iff digit_facts(8))
next
  case (exponent_minus c ds)
  with parse_big_digits [OF exponent_minus(2,3)] show ?case
    by (auto simp: valid_exponent_def map_ascii_lower_digits lower_marks list_all_iff digit_facts(8))
qed

lemma dropWhile_digits:
  "list_all is_digit ds \<Longrightarrow> rest = [] \<or> \<not> is_digit (hd rest) \<Longrightarrow> dropWhile is_digit (ds @ rest) = rest"
  by (induction ds) (auto simp: dropWhile_eq_self_iff)

lemma exponent_hd:
  "exponent_part e p \<Longrightarrow> e = [] \<or> hd e \<in> {CHR ''e'', CHR ''E''}"
  by (induction rule: exponent_part.induct) auto

lemma marks_no_digit: "\<not> is_digit (CHR ''e'')" "\<not> is_digit (CHR ''E'')" "\<not> is_digit (CHR ''.'')" "\<not> is_digit (CHR ''-'')"
  by (simp_all add: is_digit_def)

lemma valid_fraction_literal:
  assumes "list_all is_digit f" "exponent_part e p"
  shows "valid_fraction (fraction_text f @ e)"
proof (cases f)
  case Nil
  have "valid_exponent e" using exponent_part_facts [OF assms(2)] by blast
  with exponent_hd [OF assms(2)] Nil show ?thesis
    by (auto simp: valid_fraction_def fraction_text_def split: list.splits)
next
  case (Cons d ds)
  have "dropWhile is_digit (ds @ e) = e"
    using assms Cons exponent_hd [OF assms(2)] marks_no_digit by (intro dropWhile_digits) auto
  with Cons assms(1) exponent_part_facts [OF assms(2)] show ?thesis
    by (simp add: valid_fraction_def fraction_text_def)
qed

lemma valid_number_literal:
  assumes "whole_part w" "list_all is_digit f" "exponent_part e p"
  shows "valid_number (w @ fraction_text f @ e)" "valid_number (CHR ''-'' # w @ fraction_text f @ e)"
proof -
  obtain c cs where w: "w = c # cs" "is_digit c" "list_all is_digit cs" "c = CHR ''0'' \<longrightarrow> cs = []"
    using assms(1) by (cases w) (auto simp: whole_part_def)
  have "dropWhile is_digit (cs @ fraction_text f @ e) = fraction_text f @ e"
    using w exponent_hd [OF assms(3)] marks_no_digit
    by (intro dropWhile_digits) (auto simp: fraction_text_def)
  moreover have "valid_fraction (fraction_text f @ e)" by (rule valid_fraction_literal [OF assms(2,3)])
  moreover have "c \<noteq> CHR ''-''" using digit_facts(1) [OF w(2)] .
  ultimately show "valid_number (w @ fraction_text f @ e)" "valid_number (CHR ''-'' # w @ fraction_text f @ e)"
    using w by (auto simp: valid_number_def Let_def)
qed

definition canonical_decimal :: "bool \<Rightarrow> string \<Rightarrow> int \<Rightarrow> decimal_value" where
  "canonical_decimal negative ds x =
     (let l = trim_zeros_left ds; t = trim_zeros_right l in
      if l = [] then \<lparr>dv_digits = ''0'', dv_exponent = 0\<rparr>
      else \<lparr>dv_digits = (if negative then CHR ''-'' # t else t), dv_exponent = x + (int (length l) - int (length t))\<rparr>)"

lemma canonical_decimal_denotes:
  assumes "list_all is_digit ds"
  shows "decimal_denotes (canonical_decimal negative ds x)
    ((if negative then - 1 else 1) * (of_nat (digits_val ds) * 10 powi x))"
proof (cases "trim_zeros_left ds = []")
  case True
  then obtain n where "ds = replicate n (CHR ''0'')" using trim_zeros_left_split [of ds] by auto
  then have "digits_val ds = 0" using digits_val_zeros [of n "[]"] by simp
  with True show ?thesis by (simp add: canonical_decimal_def decimal_denotes_def)
next
  case False
  let ?l = "trim_zeros_left ds"
  let ?t = "trim_zeros_right ?l"
  have "of_nat (digits_val ds) * (10 :: rat) powi x = of_nat (digits_val ?t) * 10 powi (x + (int (length ?l) - int (length ?t)))"
  proof -
    have "(10 :: rat) powi (int (length ?l) - int (length ?t)) = 10 ^ (length ?l - length ?t)"
      using trim_value(2) [OF False] by (simp add: power_int_def nat_diff_distrib)
    then show ?thesis by (subst trim_value(1) [OF False]) (simp add: power_int_add)
  qed
  with trim_canonical [OF assms False] False show ?thesis
    unfolding decimal_denotes_def by (intro disjI2 exI [of _ ?t]) (simp add: canonical_decimal_def Let_def)
qed

lemma decimal_of_literal:
  assumes "whole_part w" "list_all is_digit f" "e' = [] \<and> p = 0 \<or> (\<exists>pw. e' = CHR ''e'' # pw \<and> parse_big pw = Some p)"
  shows "decimal_of_text (w @ fraction_text f @ e') = Some (canonical_decimal False (w @ f) (p - int (length f)))"
    and "decimal_of_text (CHR ''-'' # w @ fraction_text f @ e') = Some (canonical_decimal True (w @ f) (p - int (length f)))"
proof -
  let ?u = "w @ fraction_text f @ e'"
  have w: "list_all is_digit w" "w \<noteq> []" using assms(1) by (simp_all add: whole_part_def)
  have hd: "hd w \<noteq> CHR ''-''" using w digits_no_mark(3) [OF w(1)] by (metis list.set_sel(1))
  have ne: "CHR ''e'' \<notin> set (w @ fraction_text f)"
    using digits_no_mark(1) [OF w(1)] digits_no_mark(1) [OF assms(2)] by (auto simp: fraction_text_def)
  have cut: "\<exists>pw has. cut_at (CHR ''e'') ?u = (w @ fraction_text f, pw, has) \<and> (if has then parse_big pw else Some 0) = Some p"
    using assms(3)
  proof (elim disjE exE conjE)
    assume "e' = []" "p = 0"
    then show ?thesis using cut_at_none [OF ne] by (intro exI [of _ "[]"] exI [of _ False]) simp
  next
    fix pw
    assume "e' = CHR ''e'' # pw" "parse_big pw = Some p"
    then show ?thesis using cut_at_split [OF ne, of pw] by (intro exI [of _ pw] exI [of _ True]) simp
  qed
  have dot: "\<exists>b. cut_at (CHR ''.'') (w @ fraction_text f) = (w, f, b)"
    using cut_at_none [OF digits_no_mark(2) [OF w(1)]] cut_at_split [OF digits_no_mark(2) [OF w(1)]]
    by (cases "f = []") (auto simp: fraction_text_def)
  have np: "\<not> has_prefix ?u ''-''" using hd w(2) by (cases w) (auto simp: has_prefix_def)
  from cut dot np
  show "decimal_of_text ?u = Some (canonical_decimal False (w @ f) (p - int (length f)))"
    by (auto simp: decimal_of_text_def canonical_decimal_def Let_def)
  have "has_prefix (CHR ''-'' # ?u) ''-''" by (simp add: has_prefix_def)
  with cut dot
  show "decimal_of_text (CHR ''-'' # ?u) = Some (canonical_decimal True (w @ f) (p - int (length f)))"
    by (auto simp: decimal_of_text_def canonical_decimal_def Let_def)
qed

lemma lower_literal:
  assumes "whole_part w" "list_all is_digit f" "exponent_part e p"
  shows "to_lower (w @ fraction_text f @ e) = w @ fraction_text f @ map ascii_lower e"
    and "to_lower (CHR ''-'' # w @ fraction_text f @ e) = CHR ''-'' # w @ fraction_text f @ map ascii_lower e"
proof -
  have w: "list_all is_digit w" using assms(1) by (simp add: whole_part_def)
  have a: "\<forall>c \<in> set (CHR ''-'' # w @ fraction_text f @ e). of_char c < (128 :: nat)"
    using w assms(2) exponent_part_facts [OF assms(3)] digit_facts(8) by (auto simp: fraction_text_def list_all_iff)
  have m: "map ascii_lower (w @ fraction_text f @ e) = w @ fraction_text f @ map ascii_lower e"
    using w assms(2) by (simp add: map_ascii_lower_digits fraction_text_def lower_marks)
  from a have "\<forall>c \<in> set (w @ fraction_text f @ e). of_char c < (128 :: nat)" by simp
  from ascii_to_lower [OF this] m show "to_lower (w @ fraction_text f @ e) = w @ fraction_text f @ map ascii_lower e" by simp
  from ascii_to_lower [OF a] m show "to_lower (CHR ''-'' # w @ fraction_text f @ e) = CHR ''-'' # w @ fraction_text f @ map ascii_lower e"
    by (simp add: lower_marks)
qed

lemma numeric_value_literal:
  assumes "json_number s q"
  shows "\<exists>d. numeric_value (JNumber s) = Some d \<and> decimal_denotes d q"
  using assms
proof cases
  case (nonneg w f e p)
  have ds: "list_all is_digit (w @ f)" using nonneg by (simp add: whole_part_def)
  have e: "map ascii_lower e = [] \<and> p = 0 \<or> (\<exists>pw. map ascii_lower e = CHR ''e'' # pw \<and> parse_big pw = Some p)"
    using exponent_part_facts [OF nonneg(5)] by auto
  have ne: "w \<noteq> []" using nonneg(3) by (simp add: whole_part_def)
  have "numeric_value (JNumber s) = Some (canonical_decimal False (w @ f) (p - int (length f)))"
    using ne valid_number_literal(1) [OF nonneg(3-5)] decimal_of_literal(1) [OF nonneg(3,4) e] lower_literal(1) [OF nonneg(3-5)]
    by (simp add: numeric_value_def nonneg(1))
  with canonical_decimal_denotes [OF ds, of False "p - int (length f)"] nonneg(2) show ?thesis by simp
next
  case (neg w f e p)
  have ds: "list_all is_digit (w @ f)" using neg by (simp add: whole_part_def)
  have e: "map ascii_lower e = [] \<and> p = 0 \<or> (\<exists>pw. map ascii_lower e = CHR ''e'' # pw \<and> parse_big pw = Some p)"
    using exponent_part_facts [OF neg(5)] by auto
  have "numeric_value (JNumber s) = Some (canonical_decimal True (w @ f) (p - int (length f)))"
    using valid_number_literal(2) [OF neg(3-5)] decimal_of_literal(2) [OF neg(3,4) e] lower_literal(2) [OF neg(3-5)]
    by (simp add: numeric_value_def neg(1))
  with canonical_decimal_denotes [OF ds, of True "p - int (length f)"] neg(2) show ?thesis by simp
qed

lemma equal_number_literal:
  assumes "json_number s q" and "json_number t r"
  shows "equal_number (JNumber s) (JNumber t) \<longleftrightarrow> q = r"
proof -
  obtain d e where d: "numeric_value (JNumber s) = Some d" "decimal_denotes d q"
    and e: "numeric_value (JNumber t) = Some e" "decimal_denotes e r"
    using assms numeric_value_literal by blast
  show ?thesis using decimal_denotes_inj [OF d(2) e(2)] by (simp add: equal_number_def d(1) e(1))
qed

lemma is_number_literal:
  assumes "json_number s q"
  shows "is_number (JNumber s) integer \<longleftrightarrow> \<not> integer \<or> q \<in> \<int>"
proof -
  obtain d where d: "numeric_value (JNumber s) = Some d" "decimal_denotes d q"
    using assms numeric_value_literal by blast
  show ?thesis using decimal_denotes_integer [OF d(2)] by (simp add: is_number_def d(1))
qed

lemma json_number_unique: "json_number s q \<Longrightarrow> json_number s r \<Longrightarrow> q = r"
proof -
  assume q: "json_number s q" and r: "json_number s r"
  obtain d where d: "numeric_value (JNumber s) = Some d" "decimal_denotes d q" using q numeric_value_literal by blast
  obtain e where e: "numeric_value (JNumber s) = Some e" "decimal_denotes e r" using r numeric_value_literal by blast
  from d(1) e(1) have "e = d" by simp
  with decimal_denotes_inj [OF d(2) e(2)] show "q = r" by simp
qed

text \<open>
  C18. The canonical decimals decide equality and integrality of JSON numbers exactly: two
  literals of the JSON grammar compare equal if and only if they denote the same rational,
  and a literal is an integer if and only if its rational is, however large the exponents.
\<close>

theorem decimal_comparison_exact:
  assumes "json_number s q" and "json_number t r"
  shows "(equal_number (JNumber s) (JNumber t) \<longleftrightarrow> q = r)
    \<and> (is_number (JNumber s) True \<longleftrightarrow> q \<in> \<int>) \<and> is_number (JNumber s) False"
  using equal_number_literal [OF assms] is_number_literal [OF assms(1)] by simp

lemma literal_1e2: "json_number ''1e2'' 100"
  using json_number.nonneg [of "''1''" "[]" "''e2''" 2] exponent_part.exponent [of "CHR ''e''" "''2''"]
  by (simp add: whole_part_def is_digit_def fraction_text_def digits_val_def digit_val_def)

lemma literal_decimal: "json_number ''100.00'' 100"
  using json_number.nonneg [of "''100''" "''00''" "[]" 0] exponent_part.no_exponent
  by (simp add: whole_part_def is_digit_def fraction_text_def digits_val_def digit_val_def power_int_def power2_eq_square)

theorem decimal_comparison_witness:
  "equal_number (JNumber ''1e2'') (JNumber ''100.00'') \<and> is_number (JNumber ''1e2'') True"
  using decimal_comparison_exact [OF literal_1e2 literal_decimal] by simp

end
