(* ===== verification/Schema.thy ===== *)
theory Schema
  imports Json_Number
begin

text \<open>
  Structured-output contracts of \<open>internal/schema/schema.go\<close> on decoded JSON values:
  normalisation of shorthand schemas, validation of a contract, validation of a value against
  a contract, and the redacted diagnostics. A Go type assertion without a comma-ok is a panic
  of the model where the assertion fails. Reading and writing the JSON text around these
  functions is \<open>encoding/json\<close>'s; the model starts at the value tree. The classes of runes
  (letter, digit, control, space) are parameters, being tables of the \<open>unicode\<close> package.
\<close>

section \<open>Keywords and types\<close>

definition schema_keywords :: "string list" where
  "schema_keywords =
     [''$schema'', ''$defs'', ''additionalProperties'', ''allOf'', ''anyOf'', ''const'', ''default'',
      ''definitions'', ''description'', ''enum'', ''examples'', ''exclusiveMaximum'', ''exclusiveMinimum'',
      ''format'', ''items'', ''maxItems'', ''maxLength'', ''maximum'', ''minItems'', ''minLength'',
      ''minimum'', ''multipleOf'', ''not'', ''oneOf'', ''pattern'', ''prefixItems'', ''properties'',
      ''propertyOrdering'', ''required'', ''title'', ''type'', ''uniqueItems'']"

definition contracted_keywords :: "string list" where
  "contracted_keywords = [''type'', ''properties'', ''required'', ''additionalProperties'', ''items'',
     ''description'', ''enum'']"

definition alias_table :: "(string \<times> string) list" where
  "alias_table =
     [(''array'', ''array''), (''bool'', ''boolean''), (''boolean'', ''boolean''), (''double'', ''number''),
      (''float'', ''number''), (''int'', ''integer''), (''integer'', ''integer''), (''list'', ''array''),
      (''null'', ''null''), (''number'', ''number''), (''object'', ''object''), (''str'', ''string''),
      (''string'', ''string''), (''text'', ''string'')]"

definition type_aliases :: "string \<Rightarrow> string option" where
  "type_aliases = map_of alias_table"

definition is_schema_object :: "json_map \<Rightarrow> bool" where
  "is_schema_object m \<longleftrightarrow>
     (if list_ex (\<lambda>(k, v). k \<noteq> ''type'' \<and> k \<in> set schema_keywords) m then True
      else if \<not> has_key m ''type'' then False
      else list_all (\<lambda>(k, v). k \<in> set schema_keywords) m)"

definition normalize_type :: "string \<Rightarrow> string" where
  "normalize_type s = (case type_aliases (to_lower (trim_space s)) of Some t \<Rightarrow> t | None \<Rightarrow> s)"

definition join_path :: "string \<Rightarrow> string \<Rightarrow> string" where
  "join_path path segment = path @ ''/'' @ replace_byte (CHR ''/'') ''~1'' (replace_byte (CHR ''~'') ''~0'' segment)"

section \<open>Sizes\<close>

fun jsize :: "json \<Rightarrow> nat" where
  "jsize (JArray xs) = Suc (sum_list (map (\<lambda>x. Suc (jsize x)) xs))"
| "jsize (JObject kvs) = Suc (sum_list (map (\<lambda>(k, v). Suc (jsize v)) kvs))"
| "jsize _ = 0"

definition msize :: "json_map \<Rightarrow> nat" where
  "msize m = sum_list (map (\<lambda>(k, v). Suc (jsize v)) m)"

lemma msize_simps [simp]: "msize [] = 0" "msize ((k, v) # m) = Suc (jsize v) + msize m"
  by (simp_all add: msize_def)

lemma jsize_JObject [simp]: "jsize (JObject m) = Suc (msize m)"
  by (simp add: msize_def)

declare jsize.simps(2) [simp del]

lemma msize_mem: "(k, v) \<in> set m \<Longrightarrow> jsize v < msize m"
  by (induction m) auto

lemma jsize_get_any: "get_any m k \<noteq> JNull \<Longrightarrow> jsize (get_any m k) < msize m"
  by (auto simp: get_any_def split: option.splits dest: map_of_SomeD intro: msize_mem)

section \<open>Normalisation\<close>

fun normalize_type_value :: "json \<Rightarrow> json" where
  "normalize_type_value (JString s) = JString (normalize_type s)"
| "normalize_type_value (JArray xs) =
     JArray (map (\<lambda>x. case x of JString s \<Rightarrow> JString (normalize_type s) | _ \<Rightarrow> x) xs)"
| "normalize_type_value v = v"

text \<open>
  \<open>normalizeObject\<close> and \<open>normalizeDescriptor\<close>. The tree is freshly decoded and shares nothing,
  so the in-place updates of the nested slices and maps are updates of the value.
\<close>

function normalize_descriptor :: "json \<Rightarrow> json"
  and normalize_object :: "json_map \<Rightarrow> json_map"
  and normalize_values :: "json_map \<Rightarrow> json_map"
  and normalize_fields :: "json_map \<Rightarrow> json_map"
  and normalize_list :: "json list \<Rightarrow> json list" where
  "normalize_descriptor (JString s) = JObject [(''type'', JString (normalize_type s))]"
| "normalize_descriptor (JArray []) =
     JObject [(''type'', JString ''array''), (''items'', JObject [(''type'', JString (normalize_type ''string''))])]"
| "normalize_descriptor (JArray (x # xs)) =
     JObject [(''type'', JString ''array''), (''items'', normalize_descriptor x)]"
| "normalize_descriptor (JObject m) = JObject (normalize_object m)"
| "normalize_descriptor JNull = JObject [(''type'', JString ''string'')]"
| "normalize_descriptor (JBool b) = JObject [(''type'', JString ''string'')]"
| "normalize_descriptor (JNumber n) = JObject [(''type'', JString ''string'')]"
| "normalize_object m =
     (if is_schema_object m then normalize_fields m
      else [(''type'', JString ''object''), (''properties'', JObject (normalize_values m)),
            (''required'', JArray (map JString (sort (map fst m)))), (''additionalProperties'', JBool False)])"
| "normalize_values [] = []"
| "normalize_values ((k, v) # m) = (k, normalize_descriptor v) # normalize_values m"
| "normalize_fields [] = []"
| "normalize_fields ((k, v) # m) =
     (k, if k = ''type'' then normalize_type_value v
         else if k = ''properties'' then (case v of JObject ps \<Rightarrow> JObject (normalize_values ps) | _ \<Rightarrow> v)
         else if k = ''items'' then
           (case v of JArray xs \<Rightarrow> JArray (normalize_list xs) | _ \<Rightarrow> normalize_descriptor v)
         else v) # normalize_fields m"
| "normalize_list [] = []"
| "normalize_list (x # xs) = normalize_descriptor x # normalize_list xs"
  by pat_completeness auto
termination
  by (relation "measures [\<lambda>x. case x of Inl (Inl j) \<Rightarrow> jsize j | Inl (Inr m) \<Rightarrow> msize m
        | Inr (Inl m) \<Rightarrow> msize m | Inr (Inr (Inl m)) \<Rightarrow> msize m
        | Inr (Inr (Inr xs)) \<Rightarrow> sum_list (map (\<lambda>x. Suc (jsize x)) xs),
      \<lambda>x. case x of Inl (Inr m) \<Rightarrow> 1 | _ \<Rightarrow> 0]") auto

section \<open>Contracts\<close>

datatype contract_message =
    Message string | NotContractedKeyword string | NotContractedType string
  | RequiredDuplicated string | RequiredUndefined string | MustBeRequired string

datatype contract_error = ContractError string string contract_message

text \<open>\<open>contractError\<close>: the empty path is written as the root.\<close>

definition contract_error_at :: "string \<Rightarrow> string \<Rightarrow> contract_message \<Rightarrow> contract_error" where
  "contract_error_at path keyword message = ContractError (if path = [] then ''/'' else path) keyword message"

definition string_pair :: "json list \<Rightarrow> (string \<times> string) option" where
  "string_pair xs = (case xs of [JString a, JString b] \<Rightarrow> Some (a, b) | _ \<Rightarrow> None)"

definition supported_types :: "string list" where
  "supported_types = [''object'', ''array'', ''string'', ''number'', ''integer'', ''boolean'']"

definition type_error :: "string \<Rightarrow> contract_message \<Rightarrow> contract_error" where
  "type_error path m = contract_error_at (join_path path ''type'') ''type'' m"

definition named_type :: "string \<Rightarrow> bool \<Rightarrow> string \<Rightarrow> contract_error + string \<times> bool" where
  "named_type name nullable path =
     (if name \<in> set supported_types then Inr (name, nullable) else Inl (type_error path (NotContractedType name)))"

definition contract_type :: "json \<Rightarrow> string \<Rightarrow> contract_error + string \<times> bool" where
  "contract_type raw path = (case raw of
     JString s \<Rightarrow> named_type s False path
   | JArray xs \<Rightarrow>
     (case string_pair xs of
        None \<Rightarrow> Inl (type_error path (Message ''type union must contain one supported type and null''))
      | Some (a, b) \<Rightarrow>
        (if a = b \<or> (a \<noteq> ''null'' \<and> b \<noteq> ''null'')
         then Inl (type_error path (Message ''type union must contain one supported type and null''))
         else named_type (if a = ''null'' then b else a) True path))
   | _ \<Rightarrow> Inl (type_error path (Message ''type must be a supported type or its nullable union'')))"

fun is_scalar :: "json \<Rightarrow> bool" where
  "is_scalar (JArray _) \<longleftrightarrow> False"
| "is_scalar (JObject _) \<longleftrightarrow> False"
| "is_scalar _ \<longleftrightarrow> True"

definition validate_enum :: "json_map \<Rightarrow> string \<Rightarrow> contract_error option" where
  "validate_enum node path =
     (if \<not> has_key node ''enum'' then None
      else let bad = (\<lambda>m. Some (contract_error_at (join_path path ''enum'') ''enum'' (Message m))) in
        case get_any node ''enum'' of
          JArray values \<Rightarrow>
            (if values = [] then bad ''enum must contain scalar values''
             else if \<not> list_all is_scalar values then bad ''enum must contain only scalar values'' else None)
        | _ \<Rightarrow> bad ''enum must contain scalar values'')"

fun validate_required :: "json_map \<Rightarrow> string \<Rightarrow> string list \<Rightarrow> json list \<Rightarrow> contract_error + string list" where
  "validate_required properties path seen [] = Inr seen"
| "validate_required properties path seen (raw # rest) =
     (let bad = (\<lambda>m. Inl (contract_error_at (join_path path ''required'') ''required'' m)) in
      case raw of
        JString name \<Rightarrow>
          (if name \<in> set seen then bad (RequiredDuplicated name)
           else if \<not> has_key properties name then bad (RequiredUndefined name)
           else validate_required properties path (name # seen) rest)
      | _ \<Rightarrow> bad (Message ''required entries must be strings''))"

text \<open>The checks \<open>validateNode\<close> makes before it looks at children.\<close>

definition validate_head :: "json_map \<Rightarrow> string \<Rightarrow> bool \<Rightarrow> contract_error + string" where
  "validate_head node path at_root =
     (case find (\<lambda>(k, v). k \<notin> set contracted_keywords) node of
        Some (k, v) \<Rightarrow> Inl (contract_error_at (join_path path k) k (NotContractedKeyword k))
      | None \<Rightarrow>
       (case contract_type (get_any node ''type'') path of
          Inl e \<Rightarrow> Inl e
        | Inr (name, nullable) \<Rightarrow>
          (if at_root \<and> (name \<noteq> ''object'' \<or> nullable)
           then Inl (contract_error_at (join_path path ''type'') ''type'' (Message ''root schema must be an object''))
           else if has_key node ''description'' \<and> \<not> (case get_any node ''description'' of JString _ \<Rightarrow> True | _ \<Rightarrow> False)
           then Inl (contract_error_at (join_path path ''description'') ''description'' (Message ''description must be a string''))
           else (case validate_enum node path of Some e \<Rightarrow> Inl e | None \<Rightarrow> Inr name))))"

function validate_node :: "json_map \<Rightarrow> string \<Rightarrow> bool \<Rightarrow> contract_error option"
  and validate_children :: "json_map \<Rightarrow> string list \<Rightarrow> string \<Rightarrow> contract_error option" where
  "validate_node node path at_root =
     (case validate_head node path at_root of
        Inl e \<Rightarrow> Some e
      | Inr name \<Rightarrow>
        (if name = ''object'' then
          (case get_any node ''properties'' of
             JObject properties \<Rightarrow>
               (if get_any node ''additionalProperties'' \<noteq> JBool False
                then Some (contract_error_at (join_path path ''additionalProperties'') ''additionalProperties''
                  (Message ''object schemas must set additionalProperties: false''))
                else (case get_any node ''required'' of
                   JArray values \<Rightarrow>
                     (case validate_required properties path [] values of
                        Inl e \<Rightarrow> Some e
                      | Inr required \<Rightarrow> validate_children properties required path)
                 | _ \<Rightarrow> Some (contract_error_at (join_path path ''required'') ''required''
                     (Message ''object schemas must list all required properties''))))
           | _ \<Rightarrow> Some (contract_error_at (join_path path ''properties'') ''properties''
               (Message ''object schemas must define properties'')))
         else if name = ''array'' then
          (case get_any node ''items'' of
             JObject items \<Rightarrow> validate_node items (join_path path ''items'') False
           | _ \<Rightarrow> Some (contract_error_at (join_path path ''items'') ''items''
               (Message ''array schemas must define one object-form items schema'')))
         else None))"
| "validate_children [] required path = None"
| "validate_children ((name, child) # rest) required path =
     (let here = join_path (join_path path ''properties'') name in
      if name \<notin> set required then Some (contract_error_at here ''required'' (MustBeRequired name))
      else case child of
          JObject node \<Rightarrow>
            (case validate_node node here False of
               Some e \<Rightarrow> Some e
             | None \<Rightarrow> validate_children rest required path)
        | _ \<Rightarrow> Some (contract_error_at here ''schema'' (Message ''schema node must be an object'')))"
  by pat_completeness auto
termination
proof (relation "measure (\<lambda>x. case x of Inl (node, _) \<Rightarrow> msize node | Inr (props, _) \<Rightarrow> msize props)", goal_cases)
  case (2 node path at_root name m)
  then show ?case using jsize_get_any [of node "''properties''"] by simp
next
  case (3 node path at_root name m)
  then show ?case using jsize_get_any [of node "''items''"] by simp
qed auto

declare validate_node.simps [simp del]

definition validate_contract :: "json \<Rightarrow> contract_error option" where
  "validate_contract value = (case value of
     JObject node \<Rightarrow> validate_node node [] True
   | _ \<Rightarrow> Some (contract_error_at ''/'' ''schema'' (Message ''schema node must be an object'')))"

definition normalize :: "json \<Rightarrow> contract_error + json" where
  "normalize value = (case value of
     JObject m \<Rightarrow>
       (let encoded = JObject (normalize_object m) in
        case validate_contract encoded of Some e \<Rightarrow> Inl e | None \<Rightarrow> Inr encoded)
   | _ \<Rightarrow> Inl (contract_error_at ''/'' ''schema'' (Message ''root schema must be an object'')))"

section \<open>Values\<close>

datatype value_error =
    ContractInvalid contract_error
  | NotEnumValue string
  | NotAllowed string string
  | IsRequired string string
  | MustBe string string
  | TypeAssertionPanic

function (sequential) equal_json_value :: "json \<Rightarrow> json \<Rightarrow> bool" where
  "equal_json_value (JObject l) right = (case right of
     JObject r \<Rightarrow> length l = length r
       \<and> list_all (\<lambda>(k, v). case map_of r k of None \<Rightarrow> False | Some w \<Rightarrow> equal_json_value v w) l
   | _ \<Rightarrow> False)"
| "equal_json_value (JArray l) right = (case right of
     JArray r \<Rightarrow> length l = length r \<and> list_all (\<lambda>(v, w). equal_json_value v w) (zip l r)
   | _ \<Rightarrow> False)"
| "equal_json_value (JNumber n) right =
     (if numeric_value (JNumber n) \<noteq> None then equal_number (JNumber n) right else JNumber n = right)"
| "equal_json_value left right = (left = right)"
  by pat_completeness auto
termination
proof (relation "measure (\<lambda>p. jsize (fst p))", goal_cases)
  case (2 l right r k v w x)
  then show ?case using msize_mem [of v w l] by simp
next
  case (3 l right r p v w)
  then have "v \<in> set l" by (auto dest: set_zip_leftD)
  then have "jsize v < sum_list (map (\<lambda>x. Suc (jsize x)) l)" by (induction l) auto
  then show ?case by simp
qed auto

definition enum_matches :: "json_map \<Rightarrow> json \<Rightarrow> bool" where
  "enum_matches node v = (case get_any node ''enum'' of
     JArray candidates \<Rightarrow> list_ex (\<lambda>c. equal_json_value c v) candidates
   | _ \<Rightarrow> True)"

definition validate_scalar :: "string \<Rightarrow> json \<Rightarrow> string \<Rightarrow> value_error option" where
  "validate_scalar name v path =
     (if name = ''string'' then (case v of JString _ \<Rightarrow> None | _ \<Rightarrow> Some (MustBe path ''a string''))
      else if name = ''boolean'' then (case v of JBool _ \<Rightarrow> None | _ \<Rightarrow> Some (MustBe path ''a boolean''))
      else if name = ''number'' then (if is_number v False then None else Some (MustBe path ''a number''))
      else if name = ''integer'' then (if is_number v True then None else Some (MustBe path ''an integer''))
      else None)"

definition index_path :: "string \<Rightarrow> nat \<Rightarrow> string" where
  "index_path path i = path @ ''['' @ show_nat i @ '']''"

function validate_value_node :: "json_map \<Rightarrow> json \<Rightarrow> string \<Rightarrow> value_error option"
  and validate_properties :: "json_map \<Rightarrow> json_map \<Rightarrow> string \<Rightarrow> value_error option"
  and validate_items :: "json_map \<Rightarrow> json list \<Rightarrow> nat \<Rightarrow> string \<Rightarrow> value_error option" where
  "validate_value_node node v path =
     (case contract_type (get_any node ''type'') path of
        Inl e \<Rightarrow> Some (ContractInvalid e)
      | Inr (name, nullable) \<Rightarrow>
        (if \<not> enum_matches node v then Some (NotEnumValue path)
         else if nullable \<and> v = JNull then None
         else if name = ''object'' then
           (case v of
              JObject obj \<Rightarrow>
                (case get_any node ''properties'' of
                   JObject properties \<Rightarrow>
                     (case find (\<lambda>(k, x). \<not> has_key properties k) obj of
                        Some (k, x) \<Rightarrow> Some (NotAllowed path k)
                      | None \<Rightarrow> validate_properties properties obj path)
                 | _ \<Rightarrow> Some TypeAssertionPanic)
            | _ \<Rightarrow> Some (MustBe path ''an object''))
         else if name = ''array'' then
           (case v of
              JArray items \<Rightarrow>
                (case get_any node ''items'' of
                   JObject item_schema \<Rightarrow> validate_items item_schema items 0 path
                 | _ \<Rightarrow> Some TypeAssertionPanic)
            | _ \<Rightarrow> Some (MustBe path ''an array''))
         else validate_scalar name v path))"
| "validate_properties [] obj path = None"
| "validate_properties ((key, child) # rest) obj path =
     (if \<not> has_key obj key then Some (IsRequired path key)
      else case child of
          JObject node \<Rightarrow>
            (case validate_value_node node (get_any obj key) (path @ ''.'' @ key) of
               Some e \<Rightarrow> Some e
             | None \<Rightarrow> validate_properties rest obj path)
        | _ \<Rightarrow> Some TypeAssertionPanic)"
| "validate_items schema [] i path = None"
| "validate_items schema (x # xs) i path =
     (case validate_value_node schema x (index_path path i) of
        Some e \<Rightarrow> Some e
      | None \<Rightarrow> validate_items schema xs (Suc i) path)"
  by pat_completeness auto
termination
proof (relation "measures [\<lambda>x. case x of Inl (node, _) \<Rightarrow> msize node | Inr (Inl (props, _)) \<Rightarrow> msize props
      | Inr (Inr (schema, _)) \<Rightarrow> msize schema,
    \<lambda>x. case x of Inr (Inr (_, xs, _)) \<Rightarrow> Suc (length xs) | _ \<Rightarrow> 0]", goal_cases)
  case (2 node v path b name nullable obj properties)
  then show ?case using jsize_get_any [of node "''properties''"] by simp
next
  case (3 node v path b name nullable items item_schema)
  then show ?case using jsize_get_any [of node "''items''"] by simp
qed auto

declare validate_value_node.simps [simp del]

text \<open>\<open>ValidateValue\<close>: a contract that is not an object is not decoded; a null contract leaves a
  nil map.\<close>

definition validate_value :: "json \<Rightarrow> json \<Rightarrow> value_error option" where
  "validate_value contract v = (case contract of
     JObject node \<Rightarrow> validate_value_node node v ''$''
   | JNull \<Rightarrow> validate_value_node [] v ''$''
   | _ \<Rightarrow> Some (ContractInvalid (contract_error_at ''/'' ''schema'' (Message ''cannot decode the contract''))))"

text \<open>\<open>ParseAndValidate\<close> after decoding: the contract's error, the value's error, or the value.\<close>

datatype structured_error = BadContract contract_error | BadValue value_error

definition parse_and_validate :: "json \<Rightarrow> json \<Rightarrow> structured_error + json" where
  "parse_and_validate contract v =
     (case validate_contract contract of
        Some e \<Rightarrow> Inl (BadContract e)
      | None \<Rightarrow> (case validate_value contract v of Some e \<Rightarrow> Inl (BadValue e) | None \<Rightarrow> Inr v))"

section \<open>Diagnostics\<close>

record rune_classes =
  is_letter_rune :: "nat \<Rightarrow> bool"
  is_digit_rune :: "nat \<Rightarrow> bool"
  is_control_rune :: "nat \<Rightarrow> bool"
  is_space_rune :: "nat \<Rightarrow> bool"

definition encode_rune :: "nat \<Rightarrow> string" where
  "encode_rune r =
     (if r < 0x80 then [char_of r]
      else if r < 0x800 then [char_of (0xC0 + r div 0x40), char_of (0x80 + r mod 0x40)]
      else if r < 0x10000 then
        [char_of (0xE0 + r div 0x1000), char_of (0x80 + r div 0x40 mod 0x40), char_of (0x80 + r mod 0x40)]
      else [char_of (0xF0 + r div 0x40000), char_of (0x80 + r div 0x1000 mod 0x40),
            char_of (0x80 + r div 0x40 mod 0x40), char_of (0x80 + r mod 0x40)])"

definition encode_runes :: "nat list \<Rightarrow> string" where
  "encode_runes rs = concat (map encode_rune rs)"

definition utf16_width :: "nat \<Rightarrow> nat" where
  "utf16_width r = (if 0xFFFF < r then 2 else 1)"

definition utf16_length :: "string \<Rightarrow> nat" where
  "utf16_length s = sum_list (map utf16_width (runes s))"

definition redact_rune :: "rune_classes \<Rightarrow> nat \<Rightarrow> nat" where
  "redact_rune u r = (if is_letter_rune u r \<or> is_digit_rune u r then 0x2A
     else if is_control_rune u r \<and> \<not> is_space_rune u r then 0x20 else r)"

text \<open>The loop that walks back from the end while the units fit.\<close>

fun fitting_suffix :: "nat \<Rightarrow> nat \<Rightarrow> nat list \<Rightarrow> nat list" where
  "fitting_suffix limit units [] = []"
| "fitting_suffix limit units (r # rs) =
     (if limit < units + utf16_width r then [] else r # fitting_suffix limit (units + utf16_width r) rs)"

definition safe_tail_runes :: "rune_classes \<Rightarrow> string \<Rightarrow> int \<Rightarrow> nat list" where
  "safe_tail_runes u raw limit =
     (if limit \<le> 0 then [] else rev (fitting_suffix (nat limit) 0 (rev (map (redact_rune u) (runes raw)))))"

definition safe_tail :: "rune_classes \<Rightarrow> string \<Rightarrow> int \<Rightarrow> string" where
  "safe_tail u raw limit = encode_runes (safe_tail_runes u raw limit)"

record diagnostic =
  diag_category :: string
  diag_stage :: string
  diag_message :: string
  diag_raw_length :: nat
  diag_raw_tail :: string

definition new_diagnostic :: "rune_classes \<Rightarrow> string \<Rightarrow> string \<Rightarrow> string \<Rightarrow> diagnostic" where
  "new_diagnostic u stage raw err_text =
     \<lparr>diag_category = ''parse_error'', diag_stage = stage,
      diag_message = take 256 (encode_runes (map (\<lambda>r. if is_control_rune u r then 0x20 else r) (runes err_text))),
      diag_raw_length = utf16_length raw, diag_raw_tail = safe_tail u raw 128\<rparr>"

end
