(* ===== verification/Schema_Semantics.thy ===== *)
theory Schema_Semantics
  imports Schema
begin

text \<open>
  What a contract means: the schema a contract node denotes, the values such a schema accepts,
  and the proofs that \<open>ValidateContract\<close> admits exactly the nodes that denote a schema and
  that value validation decides acceptance without ever panicking.
\<close>

section \<open>Abstract schemas\<close>

datatype scalar_kind = KString | KBoolean | KNumber | KInteger

type_synonym annotation = "bool \<times> json list option"

datatype schema =
    SObject annotation "(string \<times> schema) list"
  | SArray annotation schema
  | SScalar annotation scalar_kind

definition same_scalar :: "json \<Rightarrow> json \<Rightarrow> bool" where
  "same_scalar c v \<longleftrightarrow> (case (c, v) of
     (JNumber s, JNumber t) \<Rightarrow> (\<exists>q. json_number s q \<and> json_number t q)
   | _ \<Rightarrow> c = v)"

definition enum_allows :: "annotation \<Rightarrow> json \<Rightarrow> bool" where
  "enum_allows a v \<longleftrightarrow> (case snd a of None \<Rightarrow> True | Some cs \<Rightarrow> \<exists>c \<in> set cs. same_scalar c v)"

fun kind_accepts :: "scalar_kind \<Rightarrow> json \<Rightarrow> bool" where
  "kind_accepts KString v \<longleftrightarrow> (\<exists>s. v = JString s)"
| "kind_accepts KBoolean v \<longleftrightarrow> (\<exists>b. v = JBool b)"
| "kind_accepts KNumber v \<longleftrightarrow> (\<exists>s q. v = JNumber s \<and> json_number s q)"
| "kind_accepts KInteger v \<longleftrightarrow> (\<exists>s q. v = JNumber s \<and> json_number s q \<and> q \<in> \<int>)"

fun accepts :: "schema \<Rightarrow> json \<Rightarrow> bool" where
  "accepts (SObject a fs) v \<longleftrightarrow> enum_allows a v \<and> (fst a \<and> v = JNull
     \<or> (\<exists>obj. v = JObject obj \<and> fst ` set obj = fst ` set fs \<and> (\<forall>(k, s) \<in> set fs. accepts s (get_any obj k))))"
| "accepts (SArray a s) v \<longleftrightarrow> enum_allows a v \<and> (fst a \<and> v = JNull
     \<or> (\<exists>xs. v = JArray xs \<and> (\<forall>x \<in> set xs. accepts s x)))"
| "accepts (SScalar a k) v \<longleftrightarrow> enum_allows a v \<and> (fst a \<and> v = JNull \<or> kind_accepts k v)"

definition type_denotes :: "json \<Rightarrow> string \<Rightarrow> bool \<Rightarrow> bool" where
  "type_denotes raw name nullable \<longleftrightarrow>
     (if nullable then raw = JArray [JString name, JString ''null''] \<or> raw = JArray [JString ''null'', JString name]
      else raw = JString name)"

fun kind_name :: "scalar_kind \<Rightarrow> string" where
  "kind_name KString = ''string''"
| "kind_name KBoolean = ''boolean''"
| "kind_name KNumber = ''number''"
| "kind_name KInteger = ''integer''"

definition enum_denotes :: "json_map \<Rightarrow> json list option \<Rightarrow> bool" where
  "enum_denotes node e \<longleftrightarrow> (case e of
     None \<Rightarrow> \<not> has_key node ''enum''
   | Some cs \<Rightarrow> get_any node ''enum'' = JArray cs \<and> cs \<noteq> [] \<and> list_all is_scalar cs)"

definition head_denotes :: "json_map \<Rightarrow> string \<Rightarrow> annotation \<Rightarrow> bool" where
  "head_denotes node name a \<longleftrightarrow> fst ` set node \<subseteq> set contracted_keywords
     \<and> type_denotes (get_any node ''type'') name (fst a) \<and> enum_denotes node (snd a)
     \<and> (has_key node ''description'' \<longrightarrow> (\<exists>s. get_any node ''description'' = JString s))"

inductive contract_denotes :: "json_map \<Rightarrow> schema \<Rightarrow> bool"
  and fields_denote :: "json_map \<Rightarrow> (string \<times> schema) list \<Rightarrow> bool" where
  object: "head_denotes node ''object'' a \<Longrightarrow> get_any node ''properties'' = JObject props
    \<Longrightarrow> get_any node ''additionalProperties'' = JBool False
    \<Longrightarrow> get_any node ''required'' = JArray (map JString req) \<Longrightarrow> distinct req \<Longrightarrow> set req = fst ` set props
    \<Longrightarrow> fields_denote props fs \<Longrightarrow> contract_denotes node (SObject a fs)"
| array: "head_denotes node ''array'' a \<Longrightarrow> get_any node ''items'' = JObject items \<Longrightarrow> contract_denotes items s
    \<Longrightarrow> contract_denotes node (SArray a s)"
| scalar: "head_denotes node (kind_name k) a \<Longrightarrow> contract_denotes node (SScalar a k)"
| no_fields: "fields_denote [] []"
| field: "contract_denotes node s \<Longrightarrow> fields_denote props fs \<Longrightarrow> fields_denote ((k, JObject node) # props) ((k, s) # fs)"

inductive_simps fields_denote_Nil: "fields_denote [] fs"
inductive_simps fields_denote_Cons: "fields_denote ((k, c) # props) fs"
inductive_cases contract_denotes_objectE: "contract_denotes node (SObject a fs)"

definition root_schema :: "schema \<Rightarrow> bool" where
  "root_schema s \<longleftrightarrow> (\<exists>a fs. s = SObject a fs \<and> \<not> fst a)"

text \<open>Values whose numbers are literals of the JSON grammar, as a decoder produces them.\<close>

fun proper_json :: "json \<Rightarrow> bool" where
  "proper_json (JArray xs) \<longleftrightarrow> list_all proper_json xs"
| "proper_json (JObject kvs) \<longleftrightarrow> list_all proper_json (map snd kvs)"
| "proper_json (JNumber s) \<longleftrightarrow> (\<exists>q. json_number s q)"
| "proper_json _ \<longleftrightarrow> True"

section \<open>The contract validator\<close>

lemma string_pair_Some: "string_pair xs = Some (a, b) \<longleftrightarrow> xs = [JString a, JString b]"
  by (auto simp: string_pair_def split: list.splits json.splits)

lemma contract_type_spec:
  "contract_type raw path = Inr (name, nullable) \<longleftrightarrow> type_denotes raw name nullable \<and> name \<in> set supported_types"
proof (cases raw)
  case (JArray xs)
  have nn: "''null'' \<notin> set supported_types" by (simp add: supported_types_def)
  show ?thesis
  proof (cases "string_pair xs")
    case None
    then have "xs \<noteq> [JString t1, JString t2]" for t1 t2 using string_pair_Some [of xs t1 t2] by simp
    with None JArray show ?thesis by (simp add: contract_type_def type_denotes_def)
  next
    case (Some p)
    obtain t1 t2 where "p = (t1, t2)" by (cases p)
    with Some have xs: "xs = [JString t1, JString t2]" by (simp add: string_pair_Some)
    with Some JArray nn show ?thesis
      by (auto simp: contract_type_def type_denotes_def named_type_def string_pair_def split: if_splits)
  qed
qed (auto simp: contract_type_def type_denotes_def named_type_def)

lemma validate_enum_spec: "validate_enum node path = None \<longleftrightarrow> (\<exists>e. enum_denotes node e)"
proof (cases "has_key node ''enum''")
  case False
  then show ?thesis by (auto simp: validate_enum_def enum_denotes_def intro: exI [of _ None])
next
  case True
  show ?thesis
  proof (cases "get_any node ''enum''")
    case (JArray cs)
    have "(\<exists>e. enum_denotes node e) \<longleftrightarrow> cs \<noteq> [] \<and> list_all is_scalar cs"
      using True JArray by (auto simp: enum_denotes_def split: option.splits intro: exI [of _ "Some cs"])
    then show ?thesis using True JArray by (auto simp: validate_enum_def Let_def)
  qed (use True in \<open>auto simp: validate_enum_def enum_denotes_def Let_def split: option.splits\<close>)
qed

lemma find_keyword_None: "find (\<lambda>(k, v). k \<notin> K) node = None \<longleftrightarrow> fst ` set node \<subseteq> K"
  by (auto simp: find_None_iff)

lemma description_test:
  "(case get_any node ''description'' of JString _ \<Rightarrow> True | _ \<Rightarrow> False) \<longleftrightarrow> (\<exists>s. get_any node ''description'' = JString s)"
  by (cases "get_any node ''description''") auto

lemma validate_head_spec:
  "validate_head node path at_root = Inr name \<longleftrightarrow>
     (\<exists>a. head_denotes node name a \<and> (at_root \<longrightarrow> name = ''object'' \<and> \<not> fst a) \<and> name \<in> set supported_types)"
proof -
  have "validate_head node path at_root = Inr name \<longleftrightarrow> fst ` set node \<subseteq> set contracted_keywords
      \<and> (\<exists>nullable. contract_type (get_any node ''type'') path = Inr (name, nullable)
          \<and> (at_root \<longrightarrow> name = ''object'' \<and> \<not> nullable))
      \<and> (has_key node ''description'' \<longrightarrow> (\<exists>s. get_any node ''description'' = JString s))
      \<and> validate_enum node path = None"
    unfolding validate_head_def description_test find_keyword_None [symmetric]
    by (auto split: option.splits sum.splits if_splits)
  also have "\<dots> \<longleftrightarrow> (\<exists>a. head_denotes node name a \<and> (at_root \<longrightarrow> name = ''object'' \<and> \<not> fst a) \<and> name \<in> set supported_types)"
    unfolding contract_type_spec validate_enum_spec head_denotes_def by (auto simp: split_paired_Ex)
  finally show ?thesis .
qed

lemma validate_required_spec:
  "validate_required props path seen vals = Inr req \<longleftrightarrow>
     (\<exists>ns. vals = map JString ns \<and> distinct ns \<and> set ns \<inter> set seen = {} \<and> (\<forall>n \<in> set ns. has_key props n) \<and> req = rev ns @ seen)"
proof (induction vals arbitrary: seen)
  case Nil
  then show ?case by auto
next
  case (Cons raw rest)
  show ?case
  proof (cases raw)
    case (JString name)
    have "(\<exists>ns. raw # rest = map JString ns \<and> distinct ns \<and> set ns \<inter> set seen = {} \<and> (\<forall>n \<in> set ns. has_key props n) \<and> req = rev ns @ seen)
      \<longleftrightarrow> name \<notin> set seen \<and> has_key props name \<and> (\<exists>ns. rest = map JString ns \<and> distinct ns \<and> set ns \<inter> set (name # seen) = {}
          \<and> (\<forall>n \<in> set ns. has_key props n) \<and> req = rev ns @ name # seen)" (is "?L \<longleftrightarrow> ?R")
    proof
      assume ?L
      then show ?R unfolding JString by (auto simp: Cons_eq_map_conv)
    next
      assume ?R
      then obtain ns where "rest = map JString ns" "distinct ns" "set ns \<inter> set (name # seen) = {}"
        "\<forall>n \<in> set ns. has_key props n" "req = rev ns @ name # seen" "name \<notin> set seen" "has_key props name" by blast
      then show ?L unfolding JString by (intro exI [of _ "name # ns"]) auto
    qed
    then show ?thesis using Cons.IH [of "name # seen"] JString by (auto simp: Let_def)
  qed (auto simp: Let_def Cons_eq_map_conv)
qed

lemma fields_denote_keys: "fields_denote props fs \<Longrightarrow> map fst fs = map fst props"
  by (induction props arbitrary: fs) (auto simp: fields_denote_Nil fields_denote_Cons)

text \<open>What the children loop checks, as a relation between the properties and the fields.\<close>

lemma validate_children_spec:
  assumes "\<And>k n p. (k, JObject n) \<in> set props \<Longrightarrow> validate_node n p False = None \<longleftrightarrow> (\<exists>s. contract_denotes n s)"
  shows "validate_children props req path = None \<longleftrightarrow> fst ` set props \<subseteq> set req \<and> (\<exists>fs. fields_denote props fs)"
  using assms
proof (induction props)
  case Nil
  then show ?case by (simp add: fields_denote_Nil)
next
  case (Cons p props)
  obtain k c where p: "p = (k, c)" by (cases p)
  have IH: "validate_children props req path = None \<longleftrightarrow> fst ` set props \<subseteq> set req \<and> (\<exists>fs. fields_denote props fs)"
    using Cons.prems by (intro Cons.IH) auto
  show ?case
  proof (cases c)
    case (JObject n)
    have "(\<exists>fs. fields_denote (p # props) fs) \<longleftrightarrow> (\<exists>s. contract_denotes n s) \<and> (\<exists>fs. fields_denote props fs)"
      unfolding p JObject by (auto simp: fields_denote_Cons)
    moreover have "validate_node n (join_path (join_path path ''properties'') k) False = None \<longleftrightarrow> (\<exists>s. contract_denotes n s)"
      by (rule Cons.prems [of k n]) (simp add: p JObject)
    ultimately show ?thesis
      using IH by (cases "validate_node n (join_path (join_path path ''properties'') k) False") (auto simp: p JObject Let_def)
  qed (simp_all add: p Let_def fields_denote_Cons)
qed

lemma supported_kinds:
  "name \<in> set supported_types \<longleftrightarrow> name = ''object'' \<or> name = ''array'' \<or> (\<exists>k. name = kind_name k)"
proof -
  have "(\<exists>k. name = kind_name k) \<longleftrightarrow> name \<in> {''string'', ''boolean'', ''number'', ''integer''}"
  proof
    assume "\<exists>k. name = kind_name k"
    then obtain k where "name = kind_name k" by blast
    then show "name \<in> {''string'', ''boolean'', ''number'', ''integer''}" by (cases k) simp_all
  next
    assume "name \<in> {''string'', ''boolean'', ''number'', ''integer''}"
    then have "name \<in> {kind_name KString, kind_name KBoolean, kind_name KNumber, kind_name KInteger}" by simp
    then show "\<exists>k. name = kind_name k" by blast
  qed
  then show ?thesis by (auto simp: supported_types_def)
qed

lemma kind_name_not: "kind_name k \<noteq> ''object''" "kind_name k \<noteq> ''array''"
  by (cases k; simp)+

lemma head_denotes_inj: "head_denotes node n a \<Longrightarrow> head_denotes node n' a' \<Longrightarrow> n \<in> set supported_types
    \<Longrightarrow> n' \<in> set supported_types \<Longrightarrow> n = n' \<and> fst a = fst a'"
  using contract_type_spec [of "get_any node ''type''" "[]" n "fst a"] contract_type_spec [of "get_any node ''type''" "[]" n' "fst a'"]
  by (simp add: head_denotes_def)

lemma msize_property: "(k, JObject n) \<in> set props \<Longrightarrow> get_any node key = JObject props \<Longrightarrow> msize n < msize node"
  using msize_mem [of k "JObject n" props] jsize_get_any [of node key] by simp

lemma msize_get: "get_any node key = JObject n \<Longrightarrow> msize n < msize node"
  using jsize_get_any [of node key] by simp

definition root_fits :: "bool \<Rightarrow> schema \<Rightarrow> bool" where
  "root_fits at_root s \<longleftrightarrow> (at_root \<longrightarrow> root_schema s)"

lemma denotes_head: "contract_denotes node s \<Longrightarrow> \<exists>name a. head_denotes node name a \<and> name \<in> set supported_types
    \<and> (root_schema s \<longleftrightarrow> name = ''object'' \<and> \<not> fst a)"
proof (induction rule: contract_denotes.cases)
  case (object node a props req fs)
  then show ?case by (intro exI [of _ "''object''"] exI [of _ a]) (auto simp: supported_types_def root_schema_def)
next
  case (array node a items s)
  then show ?case by (intro exI [of _ "''array''"] exI [of _ a]) (auto simp: supported_types_def root_schema_def)
next
  case (scalar node k a)
  then show ?case using kind_name_not [of k] supported_kinds [of "kind_name k"]
    by (intro exI [of _ "kind_name k"] exI [of _ a]) (auto simp: root_schema_def)
qed

text \<open>The three kinds of node, once the head has been checked.\<close>

lemma denotes_object:
  assumes "head_denotes node ''object'' a"
  shows "(\<exists>s. contract_denotes node s) \<longleftrightarrow> (\<exists>props ns fs. get_any node ''properties'' = JObject props
      \<and> get_any node ''additionalProperties'' = JBool False \<and> get_any node ''required'' = JArray (map JString ns)
      \<and> distinct ns \<and> set ns = fst ` set props \<and> fields_denote props fs)"
proof
  assume "\<exists>s. contract_denotes node s"
  then obtain s where "contract_denotes node s" by blast
  then show "\<exists>props ns fs. get_any node ''properties'' = JObject props
      \<and> get_any node ''additionalProperties'' = JBool False \<and> get_any node ''required'' = JArray (map JString ns)
      \<and> distinct ns \<and> set ns = fst ` set props \<and> fields_denote props fs"
  proof (cases rule: contract_denotes.cases)
    case (array a' items s')
    with head_denotes_inj [OF assms, of "''array''" a'] show ?thesis by (simp add: supported_types_def)
  next
    case (scalar k a')
    with head_denotes_inj [OF assms, of "kind_name k" a'] kind_name_not [of k] supported_kinds
    show ?thesis by (metis (full_types))
  qed blast
next
  assume "\<exists>props ns fs. get_any node ''properties'' = JObject props
      \<and> get_any node ''additionalProperties'' = JBool False \<and> get_any node ''required'' = JArray (map JString ns)
      \<and> distinct ns \<and> set ns = fst ` set props \<and> fields_denote props fs"
  then show "\<exists>s. contract_denotes node s" using contract_denotes_fields_denote.object [OF assms] by blast
qed

lemma denotes_array:
  assumes "head_denotes node ''array'' a"
  shows "(\<exists>s. contract_denotes node s) \<longleftrightarrow> (\<exists>items s. get_any node ''items'' = JObject items \<and> contract_denotes items s)"
proof
  assume "\<exists>s. contract_denotes node s"
  then obtain s where "contract_denotes node s" by blast
  then show "\<exists>items s. get_any node ''items'' = JObject items \<and> contract_denotes items s"
  proof (cases rule: contract_denotes.cases)
    case (object a' props req fs)
    with head_denotes_inj [OF assms, of "''object''" a'] show ?thesis by (simp add: supported_types_def)
  next
    case (scalar k a')
    with head_denotes_inj [OF assms, of "kind_name k" a'] kind_name_not [of k] supported_kinds
    show ?thesis by (metis (full_types))
  qed blast
next
  assume "\<exists>items s. get_any node ''items'' = JObject items \<and> contract_denotes items s"
  then show "\<exists>s. contract_denotes node s" using contract_denotes_fields_denote.array [OF assms] by blast
qed

lemma root_fits_head:
  assumes "head_denotes node name a" "name \<in> set supported_types" "at_root \<longrightarrow> name = ''object'' \<and> \<not> fst a"
    and "contract_denotes node s"
  shows "root_fits at_root s"
proof -
  obtain name' a' where "head_denotes node name' a'" "name' \<in> set supported_types"
      "root_schema s \<longleftrightarrow> name' = ''object'' \<and> \<not> fst a'" using denotes_head [OF assms(4)] by blast
  with head_denotes_inj [OF assms(1), of name' a'] assms(2,3) show ?thesis by (simp add: root_fits_def)
qed

lemma validate_object_spec:
  assumes "\<And>n p. msize n < msize node \<Longrightarrow> validate_node n p False = None \<longleftrightarrow> (\<exists>s. contract_denotes n s)"
    and "validate_head node path at_root = Inr ''object''"
  shows "validate_node node path at_root = None \<longleftrightarrow> (\<exists>props ns fs. get_any node ''properties'' = JObject props
      \<and> get_any node ''additionalProperties'' = JBool False \<and> get_any node ''required'' = JArray (map JString ns)
      \<and> distinct ns \<and> set ns = fst ` set props \<and> fields_denote props fs)"
proof (cases "\<exists>props vals. get_any node ''properties'' = JObject props
    \<and> get_any node ''additionalProperties'' = JBool False \<and> get_any node ''required'' = JArray vals")
  case True
  then obtain props vals where g: "get_any node ''properties'' = JObject props"
    "get_any node ''additionalProperties'' = JBool False" "get_any node ''required'' = JArray vals" by blast
  have kids: "validate_children props req path = None \<longleftrightarrow> fst ` set props \<subseteq> set req \<and> (\<exists>fs. fields_denote props fs)" for req
    using assms(1) msize_property [OF _ g(1)] by (intro validate_children_spec) blast
  have "validate_node node path at_root = None \<longleftrightarrow>
      (\<exists>req. validate_required props path [] vals = Inr req \<and> validate_children props req path = None)"
    using g assms(2) by (simp add: validate_node.simps split: sum.splits)
  also have "\<dots> \<longleftrightarrow> (\<exists>ns fs. vals = map JString ns \<and> distinct ns \<and> set ns = fst ` set props \<and> fields_denote props fs)"
  proof
    assume "\<exists>req. validate_required props path [] vals = Inr req \<and> validate_children props req path = None"
    then obtain ns fs where "vals = map JString ns" "distinct ns" "\<forall>n \<in> set ns. has_key props n"
      "fst ` set props \<subseteq> set ns" "fields_denote props fs"
      unfolding validate_required_spec kids by auto
    then show "\<exists>ns fs. vals = map JString ns \<and> distinct ns \<and> set ns = fst ` set props \<and> fields_denote props fs"
      unfolding has_key_iff by blast
  next
    assume "\<exists>ns fs. vals = map JString ns \<and> distinct ns \<and> set ns = fst ` set props \<and> fields_denote props fs"
    then obtain ns fs where ns: "vals = map JString ns" "distinct ns" "set ns = fst ` set props" "fields_denote props fs"
      by blast
    then have "validate_required props path [] vals = Inr (rev ns)"
      unfolding validate_required_spec has_key_iff by (intro exI [of _ ns]) simp
    moreover have "validate_children props (rev ns) path = None" unfolding kids using ns by auto
    ultimately show "\<exists>req. validate_required props path [] vals = Inr req \<and> validate_children props req path = None" by blast
  qed
  finally show ?thesis using g by auto
next
  case False
  then show ?thesis
    using assms(2) by (auto simp: validate_node.simps split: json.splits if_splits)
qed

lemma validate_node_spec:
  "validate_node node path at_root = None \<longleftrightarrow> (\<exists>s. contract_denotes node s \<and> root_fits at_root s)"
proof (induction "msize node" arbitrary: node path at_root rule: less_induct)
  case less
  have child: "validate_node n p False = None \<longleftrightarrow> (\<exists>s. contract_denotes n s)" if "msize n < msize node" for n p
    using less [OF that, of p False] by (simp add: root_fits_def)
  show ?case
  proof (cases "validate_head node path at_root")
    case (Inl e)
    have "\<not> (contract_denotes node s \<and> root_fits at_root s)" for s
    proof
      assume s: "contract_denotes node s \<and> root_fits at_root s"
      with denotes_head obtain name a where "head_denotes node name a" "name \<in> set supported_types"
        "root_schema s \<longleftrightarrow> name = ''object'' \<and> \<not> fst a" by blast
      with s have "validate_head node path at_root = Inr name" unfolding validate_head_spec root_fits_def by blast
      with Inl show False by simp
    qed
    with Inl show ?thesis by (simp add: validate_node.simps)
  next
    case (Inr name)
    then obtain a where a: "head_denotes node name a" "at_root \<longrightarrow> name = ''object'' \<and> \<not> fst a" "name \<in> set supported_types"
      unfolding validate_head_spec by blast
    have fits: "(\<exists>s. contract_denotes node s \<and> root_fits at_root s) \<longleftrightarrow> (\<exists>s. contract_denotes node s)"
      using root_fits_head [OF a(1,3,2)] by blast
    from a(3) consider "name = ''object''" | "name = ''array''" | k where "name = kind_name k"
      unfolding supported_kinds by blast
    then show ?thesis
    proof cases
      case 1
      with validate_object_spec [OF child] denotes_object a(1) Inr fits show ?thesis by simp
    next
      case 2
      have "validate_node node path at_root = None \<longleftrightarrow> (\<exists>items s. get_any node ''items'' = JObject items \<and> contract_denotes items s)"
        using Inr 2 child msize_get [of node "''items''"] by (auto simp: validate_node.simps [of node] split: json.splits)
      with denotes_array a(1) 2 fits show ?thesis by simp
    next
      case 3
      then have "contract_denotes node (SScalar a k)" using a(1) scalar by simp
      with Inr 3 kind_name_not [of k] fits show ?thesis by (auto simp: validate_node.simps)
    qed
  qed
qed

text \<open>
  C17. \<open>ValidateContract\<close> accepts exactly the documents that denote a schema of the contracted
  subset with a non-nullable object at the root: every keyword contracted, every type
  supported or its union with null, every object closed with all its properties required.
\<close>

theorem validate_contract_iff:
  "validate_contract c = None \<longleftrightarrow> (\<exists>node s. c = JObject node \<and> contract_denotes node s \<and> root_schema s)"
  by (cases c) (auto simp: validate_contract_def validate_node_spec root_fits_def)

section \<open>The value validator\<close>

text \<open>The errors a value can cause; the others are faults of the contract.\<close>

fun ordinary :: "value_error \<Rightarrow> bool" where
  "ordinary TypeAssertionPanic \<longleftrightarrow> False"
| "ordinary (ContractInvalid e) \<longleftrightarrow> False"
| "ordinary _ \<longleftrightarrow> True"

lemma numeric_value_not_number: "(\<nexists>s. v = JNumber s) \<Longrightarrow> numeric_value v = None"
  by (cases v) (simp_all add: numeric_value_def)

lemma equal_not_number: "numeric_value v = None \<Longrightarrow> \<not> equal_number c v"
  by (simp add: equal_number_def split: option.splits)

lemma equal_scalar:
  assumes "is_scalar c" "proper_json c" "proper_json v"
  shows "equal_json_value c v \<longleftrightarrow> same_scalar c v"
proof (cases c)
  case (JNumber n)
  then obtain q where q: "json_number n q" using assms(2) by auto
  then have nv: "numeric_value (JNumber n) \<noteq> None" using numeric_value_literal by fastforce
  show ?thesis
  proof (cases v)
    fix t assume v: "v = JNumber t"
    then obtain r where r: "json_number t r" using assms(3) by auto
    have "(\<exists>x. json_number n x \<and> json_number t x) \<longleftrightarrow> q = r" using q r json_number_unique by blast
    then show ?thesis using equal_number_literal [OF q r] nv by (simp add: JNumber v same_scalar_def)
  qed (use nv in \<open>simp_all add: JNumber same_scalar_def equal_not_number numeric_value_not_number\<close>)
qed (use assms in \<open>auto simp: same_scalar_def\<close>)

lemma proper_get_any: "proper_json (JObject m) \<Longrightarrow> proper_json (get_any m k)"
  by (force simp: get_any_def list_all_iff split: option.splits dest: map_of_SomeD)

lemma enum_matches_allows:
  assumes "head_denotes node name a" "proper_json (JObject node)" "proper_json v"
  shows "enum_matches node v \<longleftrightarrow> enum_allows a v"
proof (cases "snd a")
  case None
  then have "get_any node ''enum'' = JNull"
    using assms(1) by (simp add: head_denotes_def enum_denotes_def has_key_def get_any_def)
  with None show ?thesis by (simp add: enum_matches_def enum_allows_def)
next
  case (Some cs)
  then have cs: "get_any node ''enum'' = JArray cs" "list_all is_scalar cs"
    using assms(1) by (simp_all add: head_denotes_def enum_denotes_def)
  with proper_get_any [OF assms(2), of "''enum''"] have "list_all proper_json cs" by simp
  then have "equal_json_value c v \<longleftrightarrow> same_scalar c v" if "c \<in> set cs" for c
    using cs(2) that assms(3) by (intro equal_scalar) (auto simp: list_all_iff)
  with Some cs show ?thesis by (auto simp: enum_matches_def enum_allows_def list_ex_iff)
qed

lemma head_contract_type:
  assumes "head_denotes node name a" "name \<in> set supported_types"
  shows "contract_type (get_any node ''type'') path = Inr (name, fst a)"
  using assms by (simp add: contract_type_spec head_denotes_def)

lemma validate_scalar_spec:
  assumes "proper_json v"
  shows "validate_scalar (kind_name k) v path = None \<longleftrightarrow> kind_accepts k v"
    and "pred_option ordinary (validate_scalar (kind_name k) v path)"
proof -
  have num: "is_number v integer \<longleftrightarrow> (\<exists>s q. v = JNumber s \<and> json_number s q \<and> (integer \<longrightarrow> q \<in> \<int>))" for integer
  proof (cases v)
    case (JNumber s)
    then obtain q where "json_number s q" using assms by auto
    with JNumber json_number_unique show ?thesis by (auto simp: is_number_literal)
  qed (simp_all add: is_number_def numeric_value_def)
  show "validate_scalar (kind_name k) v path = None \<longleftrightarrow> kind_accepts k v"
    by (cases k) (auto simp: validate_scalar_def num split: json.splits)
  show "pred_option ordinary (validate_scalar (kind_name k) v path)"
    by (cases k) (auto simp: validate_scalar_def split: json.splits)
qed

lemma validate_items_spec:
  assumes "\<And>x path. x \<in> set xs \<Longrightarrow> (validate_value_node n x path = None \<longleftrightarrow> accepts s x)
      \<and> pred_option ordinary (validate_value_node n x path)"
  shows "(validate_items n xs i path = None \<longleftrightarrow> (\<forall>x \<in> set xs. accepts s x)) \<and> pred_option ordinary (validate_items n xs i path)"
  using assms
proof (induction xs arbitrary: i)
  case (Cons x xs)
  have "(validate_items n xs (Suc i) path = None \<longleftrightarrow> (\<forall>x \<in> set xs. accepts s x)) \<and> pred_option ordinary (validate_items n xs (Suc i) path)"
    using Cons.prems by (intro Cons.IH) simp
  with Cons.prems [of x "index_path path i"] show ?case
    by (cases "validate_value_node n x (index_path path i)") auto
qed simp

definition decides :: "json_map \<Rightarrow> schema \<Rightarrow> bool" where
  "decides node s \<longleftrightarrow> (proper_json (JObject node) \<longrightarrow> (\<forall>v path. proper_json v \<longrightarrow>
     (validate_value_node node v path = None \<longleftrightarrow> accepts s v) \<and> pred_option ordinary (validate_value_node node v path)))"

definition decides_fields :: "json_map \<Rightarrow> (string \<times> schema) list \<Rightarrow> bool" where
  "decides_fields props fs \<longleftrightarrow> (proper_json (JObject props) \<longrightarrow> (\<forall>obj path. proper_json (JObject obj) \<longrightarrow>
     (validate_properties props obj path = None \<longleftrightarrow> (\<forall>(k, s) \<in> set fs. has_key obj k \<and> accepts s (get_any obj k)))
     \<and> pred_option ordinary (validate_properties props obj path)))"

lemma find_unknown_key: "find (\<lambda>(k, x). \<not> has_key props k) obj = None \<longleftrightarrow> fst ` set obj \<subseteq> fst ` set props"
  unfolding find_None_iff has_key_iff image_subset_iff split_beta by blast

lemma decides_object:
  assumes "head_denotes node ''object'' a" "get_any node ''properties'' = JObject props"
    and "fields_denote props fs" "decides_fields props fs"
  shows "decides node (SObject a fs)"
  unfolding decides_def
proof (intro impI allI)
  fix v path
  assume pn: "proper_json (JObject node)" and pv: "proper_json v"
  have ct: "contract_type (get_any node ''type'') path = Inr (''object'', fst a)"
    using assms(1) by (intro head_contract_type) (simp_all add: supported_types_def)
  have en: "enum_matches node v \<longleftrightarrow> enum_allows a v" by (rule enum_matches_allows [OF assms(1) pn pv])
  have pp: "proper_json (JObject props)" using proper_get_any [OF pn, of "''properties''"] assms(2) by simp
  have keys: "fst ` set fs = fst ` set props"
    using fields_denote_keys [OF assms(3)] by (metis list.set_map)
  have eqn: "validate_value_node node v path =
      (if \<not> enum_allows a v then Some (NotEnumValue path) else if fst a \<and> v = JNull then None
       else case v of
         JObject obj \<Rightarrow> (case find (\<lambda>(k, x). \<not> has_key props k) obj of
            Some (k, x) \<Rightarrow> Some (NotAllowed path k) | None \<Rightarrow> validate_properties props obj path)
       | _ \<Rightarrow> Some (MustBe path ''an object''))"
    by (simp add: validate_value_node.simps ct en assms(2) cong: json.case_cong)
  show "(validate_value_node node v path = None \<longleftrightarrow> accepts (SObject a fs) v) \<and> pred_option ordinary (validate_value_node node v path)"
  proof (cases "\<exists>obj. v = JObject obj")
    case True
    then obtain obj where v: "v = JObject obj" by blast
    have d: "(validate_properties props obj path = None \<longleftrightarrow> (\<forall>(k, s) \<in> set fs. has_key obj k \<and> accepts s (get_any obj k)))
        \<and> pred_option ordinary (validate_properties props obj path)"
      using assms(4) pp pv v by (simp add: decides_fields_def)
    have eq: "fst ` set obj \<subseteq> fst ` set props \<and> (\<forall>(k, s) \<in> set fs. has_key obj k \<and> accepts s (get_any obj k))
        \<longleftrightarrow> fst ` set obj = fst ` set fs \<and> (\<forall>(k, s) \<in> set fs. accepts s (get_any obj k))"
    proof -
      have *: "(\<forall>(k, s) \<in> set fs. has_key obj k \<and> accepts s (get_any obj k))
          \<longleftrightarrow> fst ` set fs \<subseteq> fst ` set obj \<and> (\<forall>(k, s) \<in> set fs. accepts s (get_any obj k))"
        unfolding has_key_iff by (simp only: image_subset_iff split_def ball_conj_distrib)
      have "A \<subseteq> K \<and> K \<subseteq> A \<and> P \<longleftrightarrow> A = K \<and> P" for A K :: "string set" and P by blast
      then show ?thesis unfolding * keys by (simp only:)
    qed
    have acc: "accepts (SObject a fs) v \<longleftrightarrow> enum_allows a v \<and> fst ` set obj \<subseteq> fst ` set props
        \<and> (\<forall>(k, s) \<in> set fs. has_key obj k \<and> accepts s (get_any obj k))"
      unfolding eq by (simp add: v)
    show ?thesis
    proof (cases "find (\<lambda>(k, x). \<not> has_key props k) obj")
      case None
      then have "fst ` set obj \<subseteq> fst ` set props" by (simp add: find_unknown_key)
      with None d show ?thesis unfolding acc eqn by (simp add: v)
    next
      case (Some kx)
      then have "\<not> fst ` set obj \<subseteq> fst ` set props" using find_unknown_key [of props obj] by simp
      with Some show ?thesis unfolding acc eqn by (cases kx) (simp add: v)
    qed
  next
    case False
    then show ?thesis unfolding eqn by (cases v) simp_all
  qed
qed

lemma decides_array:
  assumes "head_denotes node ''array'' a" "get_any node ''items'' = JObject items" "decides items s"
  shows "decides node (SArray a s)"
  unfolding decides_def
proof (intro impI allI)
  fix v path
  assume pn: "proper_json (JObject node)" and pv: "proper_json v"
  have ct: "contract_type (get_any node ''type'') path = Inr (''array'', fst a)"
    using assms(1) by (intro head_contract_type) (simp_all add: supported_types_def)
  have en: "enum_matches node v \<longleftrightarrow> enum_allows a v" by (rule enum_matches_allows [OF assms(1) pn pv])
  have pi: "proper_json (JObject items)" using proper_get_any [OF pn, of "''items''"] assms(2) by simp
  have eqn: "validate_value_node node v path =
      (if \<not> enum_allows a v then Some (NotEnumValue path) else if fst a \<and> v = JNull then None
       else case v of JArray xs \<Rightarrow> validate_items items xs 0 path | _ \<Rightarrow> Some (MustBe path ''an array''))"
    by (simp add: validate_value_node.simps ct en assms(2) cong: json.case_cong)
  show "(validate_value_node node v path = None \<longleftrightarrow> accepts (SArray a s) v) \<and> pred_option ordinary (validate_value_node node v path)"
  proof (cases "\<exists>xs. v = JArray xs")
    case True
    then obtain xs where v: "v = JArray xs" by blast
    have "(validate_items items xs 0 path = None \<longleftrightarrow> (\<forall>x \<in> set xs. accepts s x)) \<and> pred_option ordinary (validate_items items xs 0 path)"
      using assms(3) pi pv v by (intro validate_items_spec) (simp add: decides_def list_all_iff)
    then show ?thesis unfolding eqn by (simp add: v)
  next
    case False
    then show ?thesis unfolding eqn by (cases v) simp_all
  qed
qed

lemma decides_scalar:
  assumes "head_denotes node (kind_name k) a"
  shows "decides node (SScalar a k)"
  unfolding decides_def
proof (intro impI allI)
  fix v path
  assume pn: "proper_json (JObject node)" and pv: "proper_json v"
  have ct: "contract_type (get_any node ''type'') path = Inr (kind_name k, fst a)"
    using assms supported_kinds by (intro head_contract_type) blast+
  have en: "enum_matches node v \<longleftrightarrow> enum_allows a v" by (rule enum_matches_allows [OF assms pn pv])
  have "validate_value_node node v path =
      (if \<not> enum_allows a v then Some (NotEnumValue path) else if fst a \<and> v = JNull then None
       else validate_scalar (kind_name k) v path)"
    by (simp add: validate_value_node.simps ct en kind_name_not)
  with validate_scalar_spec [OF pv, of k path]
  show "(validate_value_node node v path = None \<longleftrightarrow> accepts (SScalar a k) v) \<and> pred_option ordinary (validate_value_node node v path)"
    by auto
qed

lemma denotes_decides:
  shows "contract_denotes node s \<Longrightarrow> decides node s" and "fields_denote props fs \<Longrightarrow> decides_fields props fs"
proof (induction rule: contract_denotes_fields_denote.inducts)
  case (object node a props req fs)
  then show ?case by (intro decides_object)
next
  case (array node a items s)
  then show ?case by (intro decides_array)
next
  case (scalar node k a)
  then show ?case by (rule decides_scalar)
next
  case no_fields
  then show ?case by (simp add: decides_fields_def)
next
  case (field node s props fs k)
  show ?case
    unfolding decides_fields_def
  proof (intro impI allI)
    fix obj path
    assume "proper_json (JObject ((k, JObject node) # props))" and po: "proper_json (JObject obj)"
    then have d: "(validate_value_node node (get_any obj k) p = None \<longleftrightarrow> accepts s (get_any obj k))
        \<and> pred_option ordinary (validate_value_node node (get_any obj k) p)"
      and f: "(validate_properties props obj path = None \<longleftrightarrow> (\<forall>(k, s) \<in> set fs. has_key obj k \<and> accepts s (get_any obj k)))
        \<and> pred_option ordinary (validate_properties props obj path)" for p
      using field.IH proper_get_any [OF po, of k] by (simp_all add: decides_def decides_fields_def)
    from f d [of "path @ ''.'' @ k"]
    show "(validate_properties ((k, JObject node) # props) obj path = None
        \<longleftrightarrow> (\<forall>(k, s) \<in> set ((k, s) # fs). has_key obj k \<and> accepts s (get_any obj k)))
      \<and> pred_option ordinary (validate_properties ((k, JObject node) # props) obj path)"
      by (cases "validate_value_node node (get_any obj k) (path @ ''.'' @ k)") auto
  qed
qed

text \<open>
  C16. For every contract \<open>ValidateContract\<close> accepts, \<open>ValidateValue\<close> decides whether a value
  conforms to the schema the contract denotes: it returns nil exactly on the accepted values
  (closed objects with all fields, integers by their rational value, enumerations by value)
  and otherwise an error about the value; no type assertion in it can panic.
\<close>

theorem validate_value_decides:
  assumes "validate_contract c = None" and "proper_json c" and "proper_json v"
  shows "\<exists>node s. c = JObject node \<and> contract_denotes node s
    \<and> (validate_value c v = None \<longleftrightarrow> accepts s v) \<and> pred_option ordinary (validate_value c v)"
proof -
  obtain node s where c: "c = JObject node" and s: "contract_denotes node s"
    using assms(1) by (cases c) (auto simp: validate_contract_def validate_node_spec)
  from denotes_decides(1) [OF s] assms(2,3) c s show ?thesis
    by (auto simp: decides_def validate_value_def)
qed

definition sample_contract :: json where
  "sample_contract = JObject [(''type'', JString ''object''),
     (''properties'', JObject [(''n'', JObject [(''type'', JArray [JString ''integer'', JString ''null''])]),
        (''tags'', JObject [(''type'', JString ''array''), (''items'', JObject [(''type'', JString ''string'')])])]),
     (''required'', JArray [JString ''tags'', JString ''n'']), (''additionalProperties'', JBool False)]"

definition sample_value :: json where
  "sample_value = JObject [(''tags'', JArray [JString ''a'', JString ''b'']), (''n'', JNumber ''1e2'')]"

theorem validate_value_decides_witness:
  "\<exists>node s. sample_contract = JObject node \<and> contract_denotes node s \<and> accepts s sample_value"
proof -
  have "validate_contract sample_contract = None" "validate_value sample_contract sample_value = None"
    by code_simp+
  moreover have "proper_json sample_contract" "proper_json sample_value"
    using literal_1e2 by (auto simp: sample_contract_def sample_value_def)
  ultimately show ?thesis using validate_value_decides [of sample_contract sample_value] by auto
qed

section \<open>Normalisation\<close>

definition canonical_types :: "string list" where
  "canonical_types = [''array'', ''boolean'', ''number'', ''integer'', ''null'', ''object'', ''string'']"

lemma canonical_types_fixed:
  "list_all (\<lambda>t. graph_char (hd t) \<and> graph_char (last t) \<and> list_all (\<lambda>c. of_char c < (128 :: nat)) t
     \<and> map ascii_lower t = t \<and> type_aliases t = Some t) canonical_types"
  by (simp add: canonical_types_def graph_char_def ascii_lower_def type_aliases_def alias_table_def)

lemma normalize_type_canonical:
  assumes "t \<in> set canonical_types" shows "normalize_type t = t"
proof -
  from assms canonical_types_fixed have t: "graph_char (hd t)" "graph_char (last t)"
    "list_all (\<lambda>c. of_char c < (128 :: nat)) t" "map ascii_lower t = t" "type_aliases t = Some t"
    unfolding list_all_iff by blast+
  then have "trim_space t = t" "to_lower t = t"
    by (auto simp: trim_space_graph ascii_to_lower list_all_iff)
  with t(5) show ?thesis by (simp add: normalize_type_def)
qed

lemma type_aliases_canonical: "type_aliases s = Some t \<Longrightarrow> t \<in> set canonical_types"
proof -
  assume "type_aliases s = Some t"
  then have "(s, t) \<in> set alias_table" unfolding type_aliases_def by (rule map_of_SomeD)
  then have "t \<in> set (map snd alias_table)" by (metis list.set_map image_eqI snd_conv)
  moreover have "set (map snd alias_table) \<subseteq> set canonical_types" by (simp add: alias_table_def canonical_types_def)
  ultimately show ?thesis by blast
qed

lemma normalize_type_idem: "normalize_type (normalize_type s) = normalize_type s"
proof (cases "type_aliases (to_lower (trim_space s))")
  case None
  then have "normalize_type s = s" by (simp add: normalize_type_def)
  then show ?thesis by simp
next
  case (Some t)
  then have "normalize_type s = t" by (simp add: normalize_type_def)
  with normalize_type_canonical [OF type_aliases_canonical [OF Some]] show ?thesis by simp
qed

lemma normalize_type_object: "normalize_type ''object'' = ''object''" "normalize_type ''array'' = ''array''"
    "normalize_type ''string'' = ''string''"
  by (rule normalize_type_canonical; simp add: canonical_types_def)+

lemma normalize_type_value_idem: "normalize_type_value (normalize_type_value v) = normalize_type_value v"
  by (cases v) (auto simp: normalize_type_idem split: json.splits)

lemma keys_normalize_fields: "map fst (normalize_fields m) = map fst m"
  by (induction m) auto

lemma is_schema_object_keys: "map fst m = map fst m' \<Longrightarrow> is_schema_object m = is_schema_object m'"
proof -
  assume keys: "map fst m = map fst m'"
  have ex: "list_ex (\<lambda>(k, v). P k) x = list_ex P (map fst x)" and al: "list_all (\<lambda>(k, v). P k) x = list_all P (map fst x)"
    for P and x :: json_map by (induction x) auto
  have "has_key m ''type'' = has_key m' ''type''" unfolding has_key_iff using keys by (metis list.set_map)
  then show ?thesis unfolding is_schema_object_def ex [of "\<lambda>k. k \<noteq> ''type'' \<and> k \<in> set schema_keywords"]
    al [of "\<lambda>k. k \<in> set schema_keywords"] keys by simp
qed

lemma normalize_descriptor_object: "\<exists>m. normalize_descriptor v = JObject m"
  by (cases v rule: normalize_descriptor.cases) auto

lemma schema_object_shapes:
  "is_schema_object [(''type'', t)]" "is_schema_object [(''type'', t), (''items'', i)]"
  "is_schema_object [(''type'', t), (''properties'', p), (''required'', r), (''additionalProperties'', a)]"
  by (simp_all add: is_schema_object_def schema_keywords_def has_key_def)

definition normalized_items :: "json \<Rightarrow> json" where
  "normalized_items v = (case v of JArray xs \<Rightarrow> JArray (normalize_list xs) | _ \<Rightarrow> normalize_descriptor v)"

definition normalize_properties :: "json \<Rightarrow> json" where
  "normalize_properties v = (case v of JObject ps \<Rightarrow> JObject (normalize_values ps) | _ \<Rightarrow> v)"

lemma normalize_fields_step:
  "normalize_fields ((k, v) # m) =
     (k, if k = ''type'' then normalize_type_value v else if k = ''properties'' then normalize_properties v
         else if k = ''items'' then normalized_items v else v) # normalize_fields m"
  by (simp add: normalized_items_def normalize_properties_def)

lemma normalize_idem:
  "normalize_descriptor (normalize_descriptor v) = normalize_descriptor v"
  "normalize_object (normalize_object m) = normalize_object m"
  "normalize_values (normalize_values m) = normalize_values m"
  "normalize_fields (normalize_fields m) = normalize_fields m"
  "normalize_list (normalize_list xs) = normalize_list xs"
proof (induction v and m and m and m and xs
    rule: normalize_descriptor_normalize_object_normalize_values_normalize_fields_normalize_list.induct)
  case (3 x xs)
  obtain d where "normalize_descriptor x = JObject d" using normalize_descriptor_object by blast
  with 3 show ?case by (simp add: schema_object_shapes normalize_type_object)
next
  case (8 m)
  show ?case
  proof (cases "is_schema_object m")
    case True
    then have "is_schema_object (normalize_fields m)"
      using is_schema_object_keys [OF keys_normalize_fields] by blast
    with True 8 show ?thesis by simp
  next
    case False
    with 8 show ?thesis by (simp add: schema_object_shapes normalize_type_object)
  qed
next
  case (12 k v m)
  have items: "normalized_items (normalized_items v) = normalized_items v" if "k = ''items''"
  proof (cases v)
    case (JArray xs)
    with 12 that show ?thesis by (simp add: normalized_items_def)
  qed (use 12 that normalize_descriptor_object [of v] in \<open>auto simp: normalized_items_def\<close>)
  have props: "normalize_properties (normalize_properties v) = normalize_properties v" if "k = ''properties''"
    using 12 that by (cases v) (auto simp: normalize_properties_def)
  show ?case
    unfolding normalize_fields_step using 12 items props by (simp add: normalize_type_value_idem)
qed (auto simp: schema_object_shapes normalize_type_object normalize_type_idem)

lemma normalize_fixpoint:
  assumes "normalize v = Inr c"
  shows "normalize c = Inr c" and "validate_contract c = None"
proof -
  obtain m where v: "v = JObject m" using assms by (cases v) (auto simp: normalize_def)
  then have c: "c = JObject (normalize_object m)" and ok: "validate_contract c = None"
    using assms by (auto simp: normalize_def Let_def split: option.splits)
  show "validate_contract c = None" by (rule ok)
  show "normalize c = Inr c" using ok by (simp add: normalize_def c normalize_idem(2) Let_def del: normalize_object.simps)
qed

text \<open>
  C19. Normalisation is idempotent: whatever shorthand or schema \<open>Normalize\<close> accepts, its
  result is a valid contract and a fixed point of \<open>Normalize\<close>.
\<close>

theorem normalize_idempotent:
  assumes "normalize v = Inr c"
  shows "normalize c = Inr c \<and> validate_contract c = None"
  using normalize_fixpoint [OF assms] by blast

definition sample_shorthand :: json where
  "sample_shorthand = JObject [(''name'', JString ''string''), (''tags'', JArray [JString ''string''])]"

theorem normalize_idempotent_witness:
  "\<exists>c. normalize sample_shorthand = Inr c \<and> normalize c = Inr c"
proof -
  have "validate_contract (JObject (normalize_object [(''name'', JString ''string''), (''tags'', JArray [JString ''string''])])) = None"
    unfolding normalize_object.simps normalize_values.simps normalize_descriptor.simps normalize_type_object by code_simp
  then obtain c where "normalize sample_shorthand = Inr c" by (simp add: normalize_def sample_shorthand_def Let_def del: normalize_object.simps)
  with normalize_idempotent [OF this] show ?thesis by blast
qed

section \<open>Diagnostics\<close>

lemma fitting_suffix_bound: "units \<le> limit \<Longrightarrow> units + sum_list (map utf16_width (fitting_suffix limit units rs)) \<le> limit"
  by (induction limit units rs rule: fitting_suffix.induct) (auto simp: add.assoc)

lemma fitting_suffix_prefix: "\<exists>rest. rs = fitting_suffix limit units rs @ rest"
  by (induction limit units rs rule: fitting_suffix.induct) auto

lemma fitting_suffix_maximal:
  "rs = fitting_suffix limit units rs @ r # rest \<Longrightarrow> units \<le> limit
     \<Longrightarrow> limit < units + sum_list (map utf16_width (fitting_suffix limit units rs)) + utf16_width r"
  by (induction limit units rs rule: fitting_suffix.induct) (auto split: if_splits)

text \<open>
  C20. The raw tail of a diagnostic never shows a letter or a digit of the provider's output, is
  a suffix of the redacted output and has at most the given number of UTF-16 units. (Neither
  the asterisk nor the space is a letter or a digit in the rune tables.)
\<close>

theorem safe_tail_redacts:
  assumes "\<And>r. r \<in> {0x2A, 0x20} \<Longrightarrow> \<not> is_letter_rune u r \<and> \<not> is_digit_rune u r"
  shows "(\<forall>r \<in> set (safe_tail_runes u raw limit). \<not> is_letter_rune u r \<and> \<not> is_digit_rune u r)
    \<and> sum_list (map utf16_width (safe_tail_runes u raw limit)) \<le> nat limit
    \<and> suffix (safe_tail_runes u raw limit) (map (redact_rune u) (runes raw))"
proof (cases "limit \<le> 0")
  case False
  let ?rs = "rev (map (redact_rune u) (runes raw))"
  obtain rest where rest: "?rs = fitting_suffix (nat limit) 0 ?rs @ rest" using fitting_suffix_prefix by blast
  then have "rev ?rs = rev rest @ rev (fitting_suffix (nat limit) 0 ?rs)" by (metis rev_append)
  then have suf: "suffix (safe_tail_runes u raw limit) (map (redact_rune u) (runes raw))"
    using False by (auto simp: safe_tail_runes_def suffix_def)
  have "\<not> is_letter_rune u (redact_rune u r) \<and> \<not> is_digit_rune u (redact_rune u r)" for r
    using assms by (simp add: redact_rune_def)
  then have "\<forall>r \<in> set (safe_tail_runes u raw limit). \<not> is_letter_rune u r \<and> \<not> is_digit_rune u r"
    using set_mono_suffix [OF suf] by auto
  with suf fitting_suffix_bound [of 0 "nat limit" ?rs] False show ?thesis
    by (simp add: safe_tail_runes_def rev_map [symmetric])
qed (simp add: safe_tail_runes_def)

definition ascii_classes :: rune_classes where
  "ascii_classes = \<lparr>is_letter_rune = \<lambda>r. 65 \<le> r \<and> r \<le> 90 \<or> 97 \<le> r \<and> r \<le> 122,
     is_digit_rune = \<lambda>r. 48 \<le> r \<and> r \<le> 57, is_control_rune = \<lambda>r. r < 32 \<or> r = 127,
     is_space_rune = \<lambda>r. 9 \<le> r \<and> r \<le> 13 \<or> r = 32\<rparr>"

theorem safe_tail_redacts_witness:
  "suffix (safe_tail_runes ascii_classes ''key1!'' 3) (map (redact_rune ascii_classes) (runes ''key1!''))
   \<and> sum_list (map utf16_width (safe_tail_runes ascii_classes ''key1!'' 3)) \<le> 3"
proof -
  have "\<not> is_letter_rune ascii_classes r \<and> \<not> is_digit_rune ascii_classes r" if "r \<in> {0x2A, 0x20}" for r
    using that by (auto simp: ascii_classes_def)
  from safe_tail_redacts [OF this, of "''key1!''" 3] show ?thesis by (simp only: nat_numeral simp_thms)
qed

end
