(* ===== verification/Controller.thy ===== *)
theory Controller
  imports Go_Prelude
begin

text \<open>
  The admission controller of \<open>stateful/batch/controller.go\<close>: its policy, the token pacing of
  launches, the admission window, and the cooldown with its recovery probe. The invariant
  \<open>controller_inv\<close> bounds every counter, so that no arithmetic wraps and \<open>Start\<close> never divides
  by zero; the locale \<open>cooling_gate\<close> states what the pool relies on.
\<close>

section \<open>Errors and policies\<close>

datatype batch_error =
    Invalid_Admission_Policy
  | Invalid_Admission_Window
  | Invalid_Generation_Timeout
  | Err_Not_Found
  | Err_Conflict
  | Err_Unavailable
  | Err_Generation_Fenced
  | Err_Claim_Owned

record admission_policy =
  concurrency :: int
  burst :: int
  start_rate :: int
  maximum_rate :: int
  refill_estimate :: duration
  window_requests :: int
  window_duration :: duration
  recovery_jitter_ms :: int

definition default_admission_policy :: admission_policy where
  "default_admission_policy = \<lparr>concurrency = 128, burst = 200, start_rate = 100, maximum_rate = 200,
     refill_estimate = 61 * second, window_requests = 200, window_duration = 61 * second,
     recovery_jitter_ms = 0\<rparr>"

definition admission_policy_validate :: "admission_policy \<Rightarrow> batch_error option" where
  "admission_policy_validate p =
     (if concurrency p < 1 \<or> concurrency p > 1000 \<or> burst p < 1 \<or> burst p > 1000 \<or> start_rate p < 1
       \<or> maximum_rate p < start_rate p \<or> maximum_rate p > 1000 \<or> refill_estimate p < second
       \<or> refill_estimate p > hour \<or> recovery_jitter_ms p < 0 \<or> recovery_jitter_ms p > 1000
      then Some Invalid_Admission_Policy
      else if window_requests p < 0 \<or> window_requests p > 1000
        \<or> (window_requests p > 0 \<and> (window_duration p < second \<or> window_duration p > hour))
      then Some Invalid_Admission_Window
      else None)"

section \<open>The controller\<close>

text \<open>
  An instant is \<open>0\<close> when it is Go's zero instant, which the code uses for \<open>not set\<close>. A result
  \<open>None\<close> of \<open>controller_start\<close> is the runtime panic of an integer division by zero.
\<close>

record controller =
  ctl_policy :: admission_policy
  rate :: int
  burst_left :: int
  successes :: int
  epoch :: gtime
  next_start :: gtime
  next_eligible :: gtime
  cooling :: bool
  probing :: bool
  probe_delay :: duration
  paused :: bool
  window_start :: gtime
  window_starts :: int
  refill_window_burst :: bool
  paced_recovery :: bool
  accumulate_pace :: bool
  honor_failure_hints :: bool

definition new_controller :: "admission_policy \<Rightarrow> controller" where
  "new_controller p = \<lparr>ctl_policy = p, rate = start_rate p, burst_left = burst p, successes = 0,
     epoch = 0, next_start = 0, next_eligible = 0, cooling = False, probing = False,
     probe_delay = 2 * second, paused = False, window_start = 0, window_starts = 0,
     refill_window_burst = True, paced_recovery = True, accumulate_pace = True,
     honor_failure_hints = True\<rparr>"

definition configure :: "admission_policy \<Rightarrow> controller \<Rightarrow> batch_error + controller" where
  "configure p c = (case admission_policy_validate p of
       Some e \<Rightarrow> Inl e
     | None \<Rightarrow> Inr (c\<lparr>ctl_policy := p, rate := start_rate p, successes := 0\<rparr>))"

definition window_wait :: "gtime \<Rightarrow> controller \<Rightarrow> gtime" where
  "window_wait now c =
     (if window_requests (ctl_policy c) > 0 \<and> window_starts c \<ge> window_requests (ctl_policy c)
         \<and> now < window_start c + window_duration (ctl_policy c)
      then window_start c + window_duration (ctl_policy c) else 0)"

definition can_start :: "gtime \<Rightarrow> int \<Rightarrow> controller \<Rightarrow> bool" where
  "can_start now active c =
     (if paused c \<or> active \<ge> concurrency (ctl_policy c) \<or> probing c then False
      else if cooling c then \<not> now < next_eligible c
      else if window_wait now c \<noteq> 0 then False
      else burst_left c > 0 \<or> \<not> now < next_start c)"

definition next_admission :: "gtime \<Rightarrow> controller \<Rightarrow> gtime" where
  "next_admission now c =
     (if cooling c then next_eligible c
      else let next = window_wait now c in
        if next \<noteq> 0 then next else if burst_left c > 0 then now else next_start c)"

definition start_window :: "gtime \<Rightarrow> controller \<Rightarrow> controller" where
  "start_window now c =
     (if window_requests (ctl_policy c) > 0 then
        let c = (if window_start c = 0 \<or> \<not> now < window_start c + window_duration (ctl_policy c) then
                   (let c = (if window_start c \<noteq> 0 \<and> refill_window_burst c
                             then c\<lparr>burst_left := burst (ctl_policy c)\<rparr> else c)
                    in c\<lparr>window_start := now, window_starts := 0\<rparr>)
                 else c)
        in c\<lparr>window_starts := wrap64 (window_starts c + 1)\<rparr>
      else c)"

definition start_pace :: "gtime \<Rightarrow> controller \<Rightarrow> controller option" where
  "start_pace now c =
     (if rate c = 0 then None
      else let interval = go_div second (rate c) in
        if burst_left c > 0 then
          Some (c\<lparr>burst_left := burst_left c - 1, next_start := now + interval\<rparr>)
        else if accumulate_pace c then
          (let oldest = now + wrap64 (wrap64 (- wrap64 (burst (ctl_policy c) - 1)) * interval);
               from = (if next_start c < oldest then oldest else next_start c)
           in Some (c\<lparr>next_start := from + interval\<rparr>))
        else Some (c\<lparr>next_start := now + interval\<rparr>))"

definition controller_start :: "gtime \<Rightarrow> controller \<Rightarrow> controller option" where
  "controller_start now c =
     (let c = start_window now c;
          c = (if epoch c = 0 then c\<lparr>epoch := now\<rparr> else c)
      in if cooling c then Some (c\<lparr>probing := True\<rparr>) else start_pace now c)"

definition success_probe :: "gtime \<Rightarrow> controller \<Rightarrow> controller" where
  "success_probe now c =
     c\<lparr>cooling := False, probing := False, epoch := now, next_eligible := 0,
       burst_left := (if paced_recovery c then 0 else wrap64 (burst (ctl_policy c) - 1)),
       next_start := now, probe_delay := 2 * second, successes := 0\<rparr>"

definition controller_success :: "gtime \<Rightarrow> controller \<Rightarrow> controller" where
  "controller_success now c =
     (let c = (if probing c then success_probe now c else c);
          c = c\<lparr>successes := wrap64 (successes c + 1)\<rparr>
      in if successes c \<ge> 100
         then c\<lparr>rate := min (maximum_rate (ctl_policy c)) (wrap64 (rate c * 2)), successes := 0\<rparr>
         else c)"

definition throttle_backoff :: "controller \<Rightarrow> controller" where
  "throttle_backoff c =
     (let c = (if \<not> cooling c then c\<lparr>rate := max 1 (go_div (rate c) 2), successes := 0\<rparr> else c);
          c = (if probing c then c\<lparr>probing := False, probe_delay := min minute (wrap64 (probe_delay c * 2))\<rparr>
               else c)
      in c\<lparr>cooling := True\<rparr>)"

definition throttle_next :: "gtime \<Rightarrow> duration \<Rightarrow> controller \<Rightarrow> gtime" where
  "throttle_next now delay c =
     (if delay \<le> 0
      then (let next = now + probe_delay c; estimate = epoch c + refill_estimate (ctl_policy c)
            in if estimate > next then estimate else next)
      else now + delay)"

definition throttle :: "gtime \<Rightarrow> duration \<Rightarrow> controller \<Rightarrow> controller" where
  "throttle now delay c =
     (let c = throttle_backoff c; next = throttle_next now delay c
      in if next > next_eligible c then c\<lparr>next_eligible := next\<rparr> else c)"

definition complete_throttle :: "gtime \<Rightarrow> gtime \<Rightarrow> bool \<Rightarrow> duration \<Rightarrow> controller \<Rightarrow> controller" where
  "complete_throttle now dispatched probe delay c =
     (if dispatched < epoch c then c
      else let was_probing = probing c;
               c = (if \<not> probe then c\<lparr>probing := False\<rparr> else c);
               c = throttle now delay c
           in if \<not> probe then c\<lparr>probing := was_probing\<rparr> else c)"

definition complete_kind ::
  "gtime \<Rightarrow> gtime \<Rightarrow> gtime \<Rightarrow> bool \<Rightarrow> string \<Rightarrow> duration \<Rightarrow> controller \<Rightarrow> controller" where
  "complete_kind now dispatched reserved probe kind delay c =
     (if kind = ''rejected'' then
        (let c = (if window_requests (ctl_policy c) > 0 \<and> \<not> reserved < window_start c \<and> window_starts c > 0
                  then c\<lparr>window_starts := window_starts c - 1\<rparr> else c)
         in complete_throttle now dispatched probe delay c)
      else if kind = ''terminal_throttle'' then complete_throttle now dispatched probe delay c
      else if kind = ''failed'' \<or> kind = ''unconfirmed'' then
        (if honor_failure_hints c \<and> delay > 0 then complete_throttle now dispatched probe delay c else c)
      else if kind = ''completed'' then
        (if \<not> cooling c \<or> probe
         then (let c = controller_success now c in if probe then c\<lparr>epoch := dispatched\<rparr> else c)
         else c)
      else if kind = ''policy'' then c\<lparr>paused := True\<rparr>
      else c)"

definition complete ::
  "gtime \<Rightarrow> gtime \<Rightarrow> gtime \<Rightarrow> bool \<Rightarrow> string \<Rightarrow> duration \<Rightarrow> controller \<Rightarrow> controller" where
  "complete now dispatched reserved probe kind delay c =
     (let c = complete_kind now dispatched reserved probe kind delay c
      in if probe \<and> probing c \<and> kind \<noteq> ''completed'' \<and> kind \<noteq> ''rejected'' then throttle now 0 c else c)"

definition retry_delay :: "int \<Rightarrow> duration" where
  "retry_delay ms = (if ms > go_div max_int64 millisecond then max_int64 else max 0 ms * millisecond)"

section \<open>Outcomes\<close>

record item_error =
  ie_code :: string
  ie_message :: string
  ie_http_status :: int

record outcome =
  kind :: string
  admission :: string
  generation_budget_ms :: int
  generation_deadline_at :: "gtime option"
  item_err :: "item_error option"
  retry_after_ms :: int
  artifact_id :: string
  attempt_no :: int
  queue_ms :: int
  retry_wait_ms :: int
  started_at :: "gtime option"
  finished_at :: "gtime option"
  duration_ms :: int
  headers_ms :: "int option"
  first_output_ms :: "int option"
  out_input_tokens :: "int option"
  out_output_tokens :: "int option"
  out_reasoning_tokens :: "int option"
  out_cached_tokens :: "int option"
  provider_request_id :: string
  cpa_internal_attempts :: "int option"

definition zero_outcome :: outcome where
  "zero_outcome = \<lparr>kind = [], admission = [], generation_budget_ms = 0, generation_deadline_at = None,
     item_err = None, retry_after_ms = 0, artifact_id = [], attempt_no = 0, queue_ms = 0,
     retry_wait_ms = 0, started_at = None, finished_at = None, duration_ms = 0, headers_ms = None,
     first_output_ms = None, out_input_tokens = None, out_output_tokens = None,
     out_reasoning_tokens = None, out_cached_tokens = None, provider_request_id = [],
     cpa_internal_attempts = None\<rparr>"

definition admission_kind :: "outcome \<Rightarrow> string" where
  "admission_kind out =
     (if admission out = ''restricted'' then ''policy''
      else if admission out = ''throttled'' \<and> kind out \<noteq> ''rejected'' then ''terminal_throttle''
      else kind out)"

definition complete_outcome ::
  "gtime \<Rightarrow> gtime \<Rightarrow> gtime \<Rightarrow> bool \<Rightarrow> outcome \<Rightarrow> controller \<Rightarrow> controller" where
  "complete_outcome now dispatched reserved probe out c =
     complete now dispatched reserved probe (admission_kind out) (retry_delay (retry_after_ms out)) c"

section \<open>Generation budgets\<close>

abbreviation maximum_generation_ms :: int where
  "maximum_generation_ms \<equiv> 900000"

definition generation_budget :: "int \<Rightarrow> duration" where
  "generation_budget timeout_ms =
     (if timeout_ms = 0 then 180 * second
      else if timeout_ms < 1 \<or> timeout_ms > maximum_generation_ms then 0
      else timeout_ms * millisecond)"

definition resolve_new_generation_budget :: "int \<Rightarrow> batch_error + int" where
  "resolve_new_generation_budget ms =
     (if ms < 0 \<or> ms > maximum_generation_ms then Inl Invalid_Generation_Timeout
      else if ms = 0 then Inr 300000 else Inr ms)"

definition generation_deadline :: "gtime \<Rightarrow> int \<Rightarrow> gtime \<Rightarrow> gtime" where
  "generation_deadline now timeout_ms job_deadline =
     (let deadline = now + generation_budget timeout_ms
      in if job_deadline < deadline then job_deadline else deadline)"

section \<open>The invariant\<close>

definition controller_inv :: "controller \<Rightarrow> bool" where
  "controller_inv c \<longleftrightarrow>
     admission_policy_validate (ctl_policy c) = None
     \<and> 1 \<le> rate c \<and> rate c \<le> maximum_rate (ctl_policy c)
     \<and> 0 \<le> burst_left c \<and> burst_left c \<le> 1000
     \<and> 0 \<le> successes c \<and> successes c < 100
     \<and> 2 * second \<le> probe_delay c \<and> probe_delay c \<le> minute
     \<and> (probing c \<longrightarrow> cooling c) \<and> (\<not> cooling c \<longrightarrow> next_eligible c = 0)"

text \<open>The bounds a valid policy gives.\<close>

lemma valid_policyD:
  assumes "admission_policy_validate p = None"
  shows "1 \<le> concurrency p \<and> concurrency p \<le> 1000" "1 \<le> burst p \<and> burst p \<le> 1000"
    "1 \<le> start_rate p \<and> start_rate p \<le> maximum_rate p" "maximum_rate p \<le> 1000"
    "second \<le> refill_estimate p \<and> refill_estimate p \<le> hour"
    "0 \<le> recovery_jitter_ms p \<and> recovery_jitter_ms p \<le> 1000"
    "0 \<le> window_requests p \<and> window_requests p \<le> 1000"
    "0 < window_requests p \<longrightarrow> second \<le> window_duration p \<and> window_duration p \<le> hour"
  using assms by (auto simp: admission_policy_validate_def split: if_splits)

text \<open>
  The operations treat \<open>window_requests = 0\<close> as \<open>no window\<close>, and the pool runs \<open>Start\<close> under that
  override; validity of a policy does not depend on it.
\<close>

lemma validate_no_window [simp]:
  "admission_policy_validate p = None \<Longrightarrow> admission_policy_validate (p\<lparr>window_requests := 0\<rparr>) = None"
  by (simp add: admission_policy_validate_def split: if_splits)

lemma new_controller_inv:
  "admission_policy_validate p = None \<Longrightarrow> controller_inv (new_controller p)"
  by (auto simp: controller_inv_def new_controller_def dest: valid_policyD)

lemma configure_Inr_iff:
  "configure p c = Inr c' \<longleftrightarrow>
     admission_policy_validate p = None \<and> c' = c\<lparr>ctl_policy := p, rate := start_rate p, successes := 0\<rparr>"
  by (auto simp: configure_def split: option.splits)

lemma configure_inv:
  assumes "configure p c = Inr c'" "controller_inv c"
  shows "controller_inv c'"
proof -
  have p: "admission_policy_validate p = None"
    and c': "c' = c\<lparr>ctl_policy := p, rate := start_rate p, successes := 0\<rparr>"
    using assms(1) by (simp_all add: configure_Inr_iff)
  show ?thesis using assms(2) p valid_policyD(3) [OF p] by (simp add: controller_inv_def c')
qed

lemma start_window_inv: "controller_inv c \<Longrightarrow> controller_inv (start_window now c)"
  using valid_policyD(2) [of "ctl_policy c"] by (auto simp: start_window_def controller_inv_def Let_def)

lemma start_window_frame [simp]:
  "ctl_policy (start_window now c) = ctl_policy c" "rate (start_window now c) = rate c"
  "cooling (start_window now c) = cooling c" "probing (start_window now c) = probing c"
  "epoch (start_window now c) = epoch c" "next_start (start_window now c) = next_start c"
  "next_eligible (start_window now c) = next_eligible c" "paused (start_window now c) = paused c"
  "accumulate_pace (start_window now c) = accumulate_pace c"
  by (simp_all add: start_window_def Let_def)

lemma start_window_off [simp]: "window_requests (ctl_policy c) = 0 \<Longrightarrow> start_window now c = c"
  by (simp add: start_window_def)

lemma start_pace_total:
  assumes "controller_inv c"
  obtains n where "start_pace now c = Some (c\<lparr>burst_left := max 0 (burst_left c - 1), next_start := n\<rparr>)"
proof -
  have "rate c \<noteq> 0" and "0 \<le> burst_left c" using assms by (auto simp: controller_inv_def)
  then have "\<exists>n. start_pace now c = Some (c\<lparr>burst_left := max 0 (burst_left c - 1), next_start := n\<rparr>)"
    by (cases c; cases "burst_left c = 0") (auto simp: start_pace_def Let_def)
  then show thesis using that by blast
qed

lemma epoch_inv [simp]: "controller_inv (c\<lparr>epoch := t\<rparr>) = controller_inv c"
  by (simp add: controller_inv_def)

lemma controller_start_spec:
  assumes "controller_inv c"
  obtains c' where "controller_start now c = Some c'" "controller_inv c'"
    "cooling c' = cooling c" "probing c' = cooling c" "ctl_policy c' = ctl_policy c"
    "next_eligible c' = next_eligible c" "paused c' = paused c" "epoch c' = (if epoch c = 0 then now else epoch c)"
    "rate c' = rate c" "window_starts c' = window_starts (start_window now c)"
    "window_start c' = window_start (start_window now c)"
proof -
  define d where "d = (let c = start_window now c in if epoch c = 0 then c\<lparr>epoch := now\<rparr> else c)"
  have inv: "controller_inv d" using start_window_inv [OF assms] by (simp add: d_def Let_def)
  have d: "cooling d = cooling c" "ctl_policy d = ctl_policy c" "next_eligible d = next_eligible c"
    "paused d = paused c" "epoch d = (if epoch c = 0 then now else epoch c)" "rate d = rate c"
    "window_starts d = window_starts (start_window now c)" "window_start d = window_start (start_window now c)"
    "probing d = probing c"
    by (simp_all add: d_def Let_def)
  have start: "controller_start now c = (if cooling d then Some (d\<lparr>probing := True\<rparr>) else start_pace now d)"
    by (simp add: controller_start_def d_def Let_def)
  show thesis
  proof (cases "cooling d")
    case True
    with inv have "controller_inv (d\<lparr>probing := True\<rparr>)" by (simp add: controller_inv_def)
    with True show thesis by (intro that [of "d\<lparr>probing := True\<rparr>"]) (use d in \<open>simp_all add: start\<close>)
  next
    case False
    obtain n where n: "start_pace now d = Some (d\<lparr>burst_left := max 0 (burst_left d - 1), next_start := n\<rparr>)"
      using start_pace_total [OF inv] by blast
    have "\<not> probing d" using inv False by (simp add: controller_inv_def)
    moreover have "controller_inv (d\<lparr>burst_left := max 0 (burst_left d - 1), next_start := n\<rparr>)"
      using inv by (simp add: controller_inv_def)
    ultimately show thesis using False
      by (intro that [of "d\<lparr>burst_left := max 0 (burst_left d - 1), next_start := n\<rparr>"])
        (use d in \<open>simp_all add: start n\<close>)
  qed
qed

lemma go_div_2: "0 \<le> x \<Longrightarrow> go_div x 2 = x div 2"
  by (simp add: go_div_nonneg)

lemma controller_success_inv:
  assumes inv: "controller_inv c"
  shows "controller_inv (controller_success now c)"
proof -
  define d where "d = (if probing c then success_probe now c else c)"
  have pol: "admission_policy_validate (ctl_policy c) = None" using inv by (simp add: controller_inv_def)
  note b = valid_policyD [OF pol]
  have d: "controller_inv d" "ctl_policy d = ctl_policy c"
    using inv b by (auto simp: d_def success_probe_def controller_inv_def int64_def)
  have s: "wrap64 (successes d + 1) = successes d + 1" and r: "wrap64 (rate d * 2) = rate d * 2"
    using d b by (auto simp: controller_inv_def int64_def)
  have "controller_success now c = (if successes d + 1 \<ge> 100
      then d\<lparr>successes := 0, rate := min (maximum_rate (ctl_policy d)) (rate d * 2)\<rparr>
      else d\<lparr>successes := successes d + 1\<rparr>)"
    by (simp add: controller_success_def d_def [symmetric] s r Let_def)
  then show ?thesis using d b by (auto simp: controller_inv_def)
qed

text \<open>What throttling does, with the arithmetic that the invariant keeps in range.\<close>

lemma throttle_backoff_spec:
  assumes inv: "controller_inv c"
  shows "controller_inv (throttle_backoff c)" "cooling (throttle_backoff c)" "\<not> probing (throttle_backoff c)"
    "next_eligible (throttle_backoff c) = next_eligible c"
proof -
  have w: "wrap64 (probe_delay c * 2) = probe_delay c * 2"
    using inv by (simp add: controller_inv_def int64_def)
  have r: "go_div (rate c) 2 = rate c div 2" "max 1 (rate c div 2) \<le> maximum_rate (ctl_policy c)"
    using inv by (auto simp: controller_inv_def go_div_2)
  show "cooling (throttle_backoff c)" "\<not> probing (throttle_backoff c)"
    "next_eligible (throttle_backoff c) = next_eligible c"
    by (simp_all add: throttle_backoff_def Let_def)
  show "controller_inv (throttle_backoff c)"
    using inv r(2)
    by (cases "cooling c"; cases "probing c")
      (simp_all add: throttle_backoff_def Let_def controller_inv_def w r(1) min_def)
qed

lemma throttle_frame [simp]:
  "ctl_policy (throttle now delay c) = ctl_policy c" "epoch (throttle now delay c) = epoch c"
  "window_starts (throttle now delay c) = window_starts c" "window_start (throttle now delay c) = window_start c"
  "paused (throttle now delay c) = paused c" "burst_left (throttle now delay c) = burst_left c"
  "cooling (throttle now delay c)" "\<not> probing (throttle now delay c)"
  by (simp_all add: throttle_def throttle_backoff_def Let_def)

lemma throttle_eligible: "next_eligible c \<le> next_eligible (throttle now delay c)"
  by (simp add: throttle_def throttle_backoff_def Let_def)

lemma throttle_hint: "0 < delay \<Longrightarrow> now + delay \<le> next_eligible (throttle now delay c)"
  by (simp add: throttle_def throttle_next_def Let_def not_less)

lemma throttle_inv:
  assumes inv: "controller_inv c"
  shows "controller_inv (throttle now delay c)"
  using throttle_backoff_spec [OF inv] by (simp add: throttle_def Let_def controller_inv_def)

lemma probing_off_inv: "controller_inv c \<Longrightarrow> controller_inv (c\<lparr>probing := False\<rparr>)"
  by (simp add: controller_inv_def)

lemma window_starts_inv [simp]: "controller_inv (c\<lparr>window_starts := n\<rparr>) = controller_inv c"
  by (simp add: controller_inv_def)

lemma complete_throttle_inv:
  assumes "controller_inv c"
  shows "controller_inv (complete_throttle now dispatched probe delay c)"
proof (cases probe)
  case True
  then show ?thesis using assms throttle_inv by (simp add: complete_throttle_def Let_def)
next
  case False
  let ?t = "throttle now delay (c\<lparr>probing := False\<rparr>)"
  have "controller_inv ?t" using assms by (intro throttle_inv probing_off_inv)
  then have "controller_inv (?t\<lparr>probing := probing c\<rparr>)" using throttle_frame(7) by (simp add: controller_inv_def)
  then show ?thesis using assms False by (simp add: complete_throttle_def Let_def)
qed

lemma complete_throttle_frame [simp]:
  "ctl_policy (complete_throttle now dispatched probe delay c) = ctl_policy c"
  "epoch (complete_throttle now dispatched probe delay c) = epoch c"
  "window_starts (complete_throttle now dispatched probe delay c) = window_starts c"
  "window_start (complete_throttle now dispatched probe delay c) = window_start c"
  "probing (complete_throttle now dispatched probe delay c) =
     (probing c \<and> (probe \<longrightarrow> dispatched < epoch c))"
  "cooling (complete_throttle now dispatched probe delay c) = (cooling c \<or> \<not> dispatched < epoch c)"
  by (simp_all add: complete_throttle_def Let_def)

lemma complete_throttle_eligible:
  "next_eligible c \<le> next_eligible (complete_throttle now dispatched probe delay c)"
  using throttle_eligible [of c now delay] throttle_eligible [of "c\<lparr>probing := False\<rparr>" now delay]
  by (simp add: complete_throttle_def Let_def)

lemma controller_success_frame [simp]:
  "ctl_policy (controller_success now c) = ctl_policy c" "\<not> probing (controller_success now c)"
  "window_starts (controller_success now c) = window_starts c"
  "window_start (controller_success now c) = window_start c"
  "cooling (controller_success now c) = (cooling c \<and> \<not> probing c)"
  "next_eligible (controller_success now c) = (if probing c then 0 else next_eligible c)"
  "epoch (controller_success now c) = (if probing c then now else epoch c)"
  "paused (controller_success now c) = paused c"
  by (simp_all add: controller_success_def success_probe_def Let_def)

lemma paused_inv [simp]: "controller_inv (c\<lparr>paused := b\<rparr>) = controller_inv c"
  by (simp add: controller_inv_def)

lemma complete_kind_inv:
  "controller_inv c \<Longrightarrow> controller_inv (complete_kind now dispatched reserved probe kd delay c)"
  by (simp add: complete_kind_def Let_def complete_throttle_inv controller_success_inv)

lemma complete_kind_frame [simp]:
  "ctl_policy (complete_kind now dispatched reserved probe kd delay c) = ctl_policy c"
  "window_start (complete_kind now dispatched reserved probe kd delay c) = window_start c"
  by (simp_all add: complete_kind_def Let_def)

lemma complete_kind_window_starts:
  "window_starts (complete_kind now dispatched reserved probe kd delay c) \<le> window_starts c"
  "0 \<le> window_starts c \<Longrightarrow> 0 \<le> window_starts (complete_kind now dispatched reserved probe kd delay c)"
  by (simp_all add: complete_kind_def Let_def)

lemma complete_inv:
  assumes "controller_inv c"
  shows "controller_inv (complete now dispatched reserved probe kd delay c)"
  using complete_kind_inv [OF assms] by (simp add: complete_def Let_def throttle_inv)

lemma complete_frame [simp]:
  "ctl_policy (complete now dispatched reserved probe kd delay c) = ctl_policy c"
  "window_start (complete now dispatched reserved probe kd delay c) = window_start c"
  by (simp_all add: complete_def Let_def)

lemma complete_window_starts:
  "window_starts (complete now dispatched reserved probe kd delay c) \<le> window_starts c"
  "0 \<le> window_starts c \<Longrightarrow> 0 \<le> window_starts (complete now dispatched reserved probe kd delay c)"
  using complete_kind_window_starts by (simp_all add: complete_def Let_def)

text \<open>
  A completion leaves the gate closed, and its deadline where it was or later, unless it is
  the success of the probe in flight; and the probe's own completion always ends the probe.
\<close>

lemma complete_stays:
  assumes "cooling c" "\<not> (probe \<and> probing c \<and> kd = ''completed'')"
  shows "cooling (complete now dispatched reserved probe kd delay c)
    \<and> next_eligible c \<le> next_eligible (complete now dispatched reserved probe kd delay c)"
proof -
  let ?c = "complete_kind now dispatched reserved probe kd delay c"
  have k: "cooling ?c \<and> next_eligible c \<le> next_eligible ?c"
    using assms complete_throttle_eligible [of "c\<lparr>window_starts := window_starts c - 1\<rparr>"]
      complete_throttle_eligible [of c]
    by (auto simp: complete_kind_def Let_def)
  show ?thesis using k throttle_eligible [of ?c now 0] by (auto simp: complete_def Let_def)
qed

lemma complete_ends_probe:
  assumes "epoch c \<le> dispatched"
  shows "\<not> probing (complete now dispatched reserved True kd delay c)"
proof (cases "kd = ''completed'' \<or> kd = ''rejected''")
  case True
  then show ?thesis using assms by (auto simp: complete_def complete_kind_def Let_def)
next
  case False
  then show ?thesis by (simp add: complete_def Let_def)
qed

section \<open>The gate the pool relies on\<close>

text \<open>
  The interface of a gate: applying an event keeps the invariant, and unless the event is one
  that reopens, a closed gate stays closed and its deadline does not move back.
\<close>

locale cooling_gate =
  fixes inv :: "'c \<Rightarrow> bool" and closed :: "'c \<Rightarrow> bool" and deadline :: "'c \<Rightarrow> gtime"
    and reopens :: "'e \<Rightarrow> 'c \<Rightarrow> bool" and event :: "'e \<Rightarrow> 'c \<Rightarrow> 'c"
  assumes inv_event: "inv c \<Longrightarrow> inv (event e c)"
    and stays_closed: "inv c \<Longrightarrow> closed c \<Longrightarrow> \<not> reopens e c \<Longrightarrow> closed (event e c) \<and> deadline c \<le> deadline (event e c)"
begin

lemma inv_events: "inv c \<Longrightarrow> inv (fold event es c)"
  by (induction es arbitrary: c) (simp_all add: inv_event)

lemma events_stay_closed:
  "inv c \<Longrightarrow> closed c \<Longrightarrow> (\<And>e c. e \<in> set es \<Longrightarrow> \<not> reopens e c) \<Longrightarrow>
   closed (fold event es c) \<and> deadline c \<le> deadline (fold event es c)"
proof (induction es arbitrary: c)
  case (Cons e es)
  have "closed (event e c)" "deadline c \<le> deadline (event e c)"
    using stays_closed [of c e] Cons.prems by auto
  with Cons.IH [of "event e c"] inv_event Cons.prems show ?case by fastforce
qed simp

end

type_synonym completion = "gtime \<times> gtime \<times> gtime \<times> bool \<times> outcome"

fun apply_completion :: "completion \<Rightarrow> controller \<Rightarrow> controller" where
  "apply_completion (now, dispatched, reserved, probe, out) c = complete_outcome now dispatched reserved probe out c"

fun probe_success :: "completion \<Rightarrow> controller \<Rightarrow> bool" where
  "probe_success (now, dispatched, reserved, probe, out) c \<longleftrightarrow>
     probe \<and> probing c \<and> admission_kind out = ''completed''"

interpretation controller_gate: cooling_gate controller_inv cooling next_eligible probe_success apply_completion
proof
  fix c e
  show "controller_inv c \<Longrightarrow> controller_inv (apply_completion e c)"
    by (cases e) (simp add: complete_outcome_def complete_inv)
  assume "controller_inv c" "cooling c" "\<not> probe_success e c"
  then show "cooling (apply_completion e c) \<and> next_eligible c \<le> next_eligible (apply_completion e c)"
    by (cases e) (simp add: complete_outcome_def complete_stays)
qed

section \<open>Pacing\<close>

text \<open>A sequence of launches, each with the number of requests then active, as far as all are admitted.\<close>

fun admitted_run :: "(gtime \<times> int) list \<Rightarrow> controller \<Rightarrow> controller option" where
  "admitted_run [] c = Some c"
| "admitted_run ((t, n) # ts) c =
     (if can_start t n c then Option.bind (controller_start t c) (admitted_run ts) else None)"

text \<open>The part of the state that decides pacing, outside a cooldown and without a window.\<close>

definition paced :: "controller \<Rightarrow> bool" where
  "paced c \<longleftrightarrow> controller_inv c \<and> \<not> cooling c \<and> accumulate_pace c \<and> window_requests (ctl_policy c) = 0"

lemma interval_pos: "controller_inv c \<Longrightarrow> 0 < second div rate c"
proof -
  assume inv: "controller_inv c"
  have "maximum_rate (ctl_policy c) \<le> 1000" using inv valid_policyD(4) by (simp add: controller_inv_def)
  then have "0 < rate c" "rate c \<le> second" using inv by (auto simp: controller_inv_def)
  then show ?thesis by (simp add: pos_imp_zdiv_pos_iff)
qed

lemma burst_credit:
  assumes inv: "controller_inv c"
  shows "wrap64 (wrap64 (- wrap64 (burst (ctl_policy c) - 1)) * go_div second (rate c))
    = - ((burst (ctl_policy c) - 1) * (second div rate c))"
proof -
  have p: "admission_policy_validate (ctl_policy c) = None" and r: "0 < rate c" "1 \<le> rate c"
    using inv by (auto simp: controller_inv_def)
  note b = valid_policyD(2) [OF p]
  have i: "0 \<le> second div rate c" "second div rate c \<le> second"
    using r zdiv_mono2 [of second 1 "rate c"] by (simp_all add: pos_imp_zdiv_nonneg_iff)
  have m: "0 \<le> (burst (ctl_policy c) - 1) * (second div rate c)"
    "(burst (ctl_policy c) - 1) * (second div rate c) \<le> 999 * second"
    using b i mult_mono [of "burst (ctl_policy c) - 1" 999 "second div rate c" second] by auto
  have g: "go_div second (rate c) = second div rate c" using r by (simp add: go_div_nonneg)
  have w: "wrap64 (burst (ctl_policy c) - 1) = burst (ctl_policy c) - 1"
    "wrap64 (- (burst (ctl_policy c) - 1)) = - (burst (ctl_policy c) - 1)"
    using b by (simp_all add: int64_def)
  have n: "- (burst (ctl_policy c) - 1) * (second div rate c) = - ((burst (ctl_policy c) - 1) * (second div rate c))"
    by (rule mult_minus_left)
  have "int64 (- ((burst (ctl_policy c) - 1) * (second div rate c)))"
    using m unfolding int64_def by linarith
  then show ?thesis by (simp only: w g n wrap64_id)
qed

text \<open>One launch outside the cooldown: from the burst, or paced.\<close>

lemma paced_start:
  assumes c: "paced c" and start: "can_start t n c" "controller_start t c = Some c'"
  shows "paced c'" "rate c' = rate c" "ctl_policy c' = ctl_policy c"
    "burst_left c' = max 0 (burst_left c - 1)"
    "0 < burst_left c \<Longrightarrow> next_start c' = t + second div rate c"
    "burst_left c = 0 \<Longrightarrow> next_start c \<le> t
       \<and> next_start c' = max (next_start c) (t - (burst (ctl_policy c) - 1) * (second div rate c)) + second div rate c"
proof -
  have inv: "controller_inv c" and nc: "\<not> cooling c" and ap: "accumulate_pace c"
    and nw: "window_requests (ctl_policy c) = 0" using c by (simp_all add: paced_def)
  have r: "0 < rate c" and g: "go_div second (rate c) = second div rate c"
    using inv by (auto simp: controller_inv_def go_div_nonneg)
  define d where "d = (if epoch c = 0 then c\<lparr>epoch := t\<rparr> else c)"
  have d: "rate d = rate c" "ctl_policy d = ctl_policy c" "burst_left d = burst_left c" "cooling d = cooling c"
    "next_start d = next_start c" "accumulate_pace d = accumulate_pace c" "controller_inv d"
    using inv by (simp_all add: d_def)
  have eq: "start_pace t d = Some c'"
    using start(2) nw nc by (simp add: controller_start_def Let_def d_def split: if_splits)
  have b: "0 \<le> burst_left c" using inv by (simp add: controller_inv_def)
  let ?old = "t - (burst (ctl_policy c) - 1) * (second div rate c)"
  have c': "c' = (if 0 < burst_left c then d\<lparr>burst_left := burst_left c - 1, next_start := t + second div rate c\<rparr>
      else d\<lparr>next_start := max (next_start c) ?old + second div rate c\<rparr>)"
    using eq r ap burst_credit [OF inv]
    by (auto simp: start_pace_def d g Let_def max_def split: if_splits)
  have adm: "0 < burst_left c \<or> next_start c \<le> t"
    using start(1) nc by (auto simp: can_start_def split: if_splits)
  show "rate c' = rate c" "ctl_policy c' = ctl_policy c" "burst_left c' = max 0 (burst_left c - 1)"
    using b by (simp_all add: c' d)
  show "paced c'" using d(7) nc ap nw b
    by (auto simp: paced_def c' d(1-6) controller_inv_def)
  show "0 < burst_left c \<Longrightarrow> next_start c' = t + second div rate c" by (simp add: c')
  show "burst_left c = 0 \<Longrightarrow> next_start c \<le> t \<and> next_start c' = max (next_start c) ?old + second div rate c"
    using adm by (simp add: c')
qed

text \<open>While the burst is spent, each launch after the first waits for the next interval.\<close>

lemma paced_run:
  assumes "paced c" "burst_left c = 0" "admitted_run ts c = Some c'" "ts \<noteq> []"
  shows "next_start c + (int (length ts) - 1) * (second div rate c) \<le> fst (last ts)"
  using assms
proof (induction ts arbitrary: c)
  case (Cons p ts)
  obtain t n where p: "p = (t, n)" by (cases p)
  obtain d where adm: "can_start t n c" and d: "controller_start t c = Some d" "admitted_run ts d = Some c'"
    using Cons.prems(3) by (auto simp: p bind_eq_Some_conv split: if_splits)
  note step = paced_start [OF Cons.prems(1) adm d(1)]
  have n: "next_start c \<le> t" "next_start c + second div rate c \<le> next_start d"
    using step(6) Cons.prems(2) by auto
  show ?case
  proof (cases "ts = []")
    case True
    then show ?thesis using n by (simp add: p)
  next
    case False
    have "next_start d + (int (length ts) - 1) * (second div rate c) \<le> fst (last ts)"
      using Cons.IH [OF step(1) _ d(2) False] step(2,4) Cons.prems(2) by simp
    then show ?thesis using n False by (simp add: algebra_simps)
  qed
qed simp

lemma paced_run_burst:
  assumes "paced c" "admitted_run ts c = Some c'" "ts \<noteq> []" "\<forall>p \<in> set ts. t0 \<le> fst p"
  shows "(int (length ts) - burst_left c - burst (ctl_policy c)) * (second div rate c) \<le> fst (last ts) - t0"
  using assms
proof (induction ts arbitrary: c)
  case (Cons p ts)
  obtain t n where p: "p = (t, n)" by (cases p)
  have t0: "t0 \<le> t" using Cons.prems(4) by (simp add: p)
  obtain d where adm: "can_start t n c" and d: "controller_start t c = Some d" "admitted_run ts d = Some c'"
    using Cons.prems(2) by (auto simp: p bind_eq_Some_conv split: if_splits)
  note step = paced_start [OF Cons.prems(1) adm d(1)]
  have inv: "controller_inv c" using Cons.prems(1) by (simp add: paced_def)
  have i: "0 < second div rate c" and b: "0 \<le> burst_left c" "1 \<le> burst (ctl_policy c)"
    using interval_pos [OF inv] inv valid_policyD(2) [of "ctl_policy c"] by (simp_all add: controller_inv_def)
  show ?case
  proof (cases "ts = []")
    case True
    have "(1 - burst_left c - burst (ctl_policy c)) * (second div rate c) \<le> 0"
      using i b by (simp add: mult_le_0_iff)
    then show ?thesis using t0 True by (simp add: p)
  next
    case ts: False
    show ?thesis
    proof (cases "0 < burst_left c")
      case True
      then have "burst_left d = burst_left c - 1" using step(4) by simp
      then have "int (length (p # ts)) - burst_left c = int (length ts) - burst_left d" by simp
      then show ?thesis using Cons.IH [OF step(1) d(2) ts] step(2,3) Cons.prems(4) ts
        by (simp only: step(2,3)) simp
    next
      case False
      then have z: "burst_left c = 0" "burst_left d = 0" using b step(4) by auto
      have "next_start d + (int (length ts) - 1) * (second div rate c) \<le> fst (last ts)"
        using paced_run [OF step(1) z(2) d(2) ts] step(2) by simp
      moreover have "t0 - (burst (ctl_policy c) - 1) * (second div rate c) + second div rate c \<le> next_start d"
        using step(6) z(1) t0 by simp
      ultimately show ?thesis using ts z(1) by (simp add: p algebra_simps)
    qed
  qed
qed simp

section \<open>Properties\<close>

text \<open>
  C29. From every state that satisfies the invariant (counters in range, a valid policy, probing
  only while cooling), \<open>Start\<close> returns, without dividing by zero, in a state that satisfies it
  again; a launch admitted during a cooldown becomes the probe and leaves the deadline alone.
\<close>

theorem controller_start_safe:
  assumes "controller_inv c"
  shows "\<exists>c'. controller_start now c = Some c' \<and> controller_inv c' \<and> cooling c' = cooling c
    \<and> probing c' = cooling c \<and> next_eligible c' = next_eligible c \<and> rate c' = rate c"
  using controller_start_spec [OF assms, of now] by metis

theorem controller_start_safe_witness:
  "\<exists>c'. controller_start 5 (new_controller default_admission_policy) = Some c' \<and> controller_inv c'
    \<and> cooling c' = False \<and> probing c' = False \<and> next_eligible c' = 0 \<and> rate c' = 100"
proof -
  have "controller_inv (new_controller default_admission_policy)"
    by (rule new_controller_inv) (simp add: admission_policy_validate_def default_admission_policy_def)
  from controller_start_safe [OF this, of 5] show ?thesis
    by (simp add: new_controller_def default_admission_policy_def)
qed


text \<open>
  C30. A cooldown ends only through its probe: whatever other completions arrive, in any order
  and however many, the controller stays closed, its deadline never moves back, and no launch
  is admitted before that deadline.
\<close>

theorem cooling_persists:
  assumes "controller_inv c" "cooling c" "t < next_eligible c"
    and "\<forall>(now, dispatched, reserved, probe, out) \<in> set es. \<not> (probe \<and> admission_kind out = ''completed'')"
  shows "cooling (fold apply_completion es c) \<and> next_eligible c \<le> next_eligible (fold apply_completion es c)
    \<and> \<not> can_start t n (fold apply_completion es c)"
proof -
  have "\<And>e c. e \<in> set es \<Longrightarrow> \<not> probe_success e c" using assms(4) by fastforce
  then have "cooling (fold apply_completion es c) \<and> next_eligible c \<le> next_eligible (fold apply_completion es c)"
    by (intro controller_gate.events_stay_closed [OF assms(1,2)])
  then show ?thesis using assms(3) by (simp add: can_start_def)
qed

text \<open>
  The concrete launches of the two examples: a burst of one and a rate of one per second admits
  a launch at once and then one a second; a cooldown outlives a straggling success.
\<close>

definition slow_policy :: admission_policy where
  "slow_policy = default_admission_policy\<lparr>burst := 1, start_rate := 1, window_requests := 0\<rparr>"

lemma slow_policy_valid: "admission_policy_validate slow_policy = None"
  by (simp add: slow_policy_def default_admission_policy_def admission_policy_validate_def)


definition straggler :: completion where
  "straggler = (7, 3, 0, False, zero_outcome\<lparr>kind := ''completed''\<rparr>)"

theorem cooling_persists_witness:
  "cooling (fold apply_completion [straggler, straggler] (throttle 5 0 (new_controller slow_policy)))
   \<and> \<not> can_start 10 0 (fold apply_completion [straggler, straggler] (throttle 5 0 (new_controller slow_policy)))"
proof -
  let ?c = "throttle 5 0 (new_controller slow_policy)"
  have inv: "controller_inv ?c" by (intro throttle_inv new_controller_inv slow_policy_valid)
  have cool: "cooling ?c" by simp
  have t: "10 < next_eligible ?c"
    by (simp add: throttle_def throttle_backoff_def throttle_next_def new_controller_def slow_policy_def
        default_admission_policy_def Let_def)
  have "\<forall>(now, dispatched, reserved, probe, out) \<in> set [straggler, straggler].
      \<not> (probe \<and> admission_kind out = ''completed'')" by (simp add: straggler_def)
  from cooling_persists [OF inv cool t this, of 0] show ?thesis by blast
qed

end
