(* ===== verification/Go_Digest.thy ===== *)
theory Go_Digest
  imports Go_Prelude "HOL-Library.Word"
begin

text \<open>
  Two parts of the Go library whose exact bytes the pool's recovery jitter depends on:
  \<open>crypto/sha256\<close> (with \<open>encoding/binary\<close>'s big-endian reader) and the layout
  \<open>time.RFC3339Nano\<close> of an instant in UTC. Both are executable.
\<close>

unbundle bit_operations_syntax

section \<open>SHA-256\<close>

type_synonym word32 = "32 word"

definition rotr32 :: "nat \<Rightarrow> word32 \<Rightarrow> word32" where
  "rotr32 n x = drop_bit n x OR push_bit (32 - n) x"

definition sha_ch :: "word32 \<Rightarrow> word32 \<Rightarrow> word32 \<Rightarrow> word32" where
  "sha_ch x y z = (x AND y) XOR (NOT x AND z)"

definition sha_maj :: "word32 \<Rightarrow> word32 \<Rightarrow> word32 \<Rightarrow> word32" where
  "sha_maj x y z = (x AND y) XOR (x AND z) XOR (y AND z)"

text \<open>
  The constants of the standard: the first 32 bits of the fractional parts of the cube roots of the
  first 64 primes, and of the square roots of the first eight. \<open>int_root k b r n\<close> decides the bits
  below \<open>b\<close> of the integer \<open>k\<close>-th root of \<open>n\<close>, from the highest down.
\<close>

fun int_root :: "nat \<Rightarrow> nat \<Rightarrow> int \<Rightarrow> int \<Rightarrow> int" where
  "int_root k 0 r n = r"
| "int_root k (Suc b) r n = int_root k b (if (r + 2 ^ b) ^ k \<le> n then r + 2 ^ b else r) n"

definition fraction_of_root :: "nat \<Rightarrow> int \<Rightarrow> word32" where
  "fraction_of_root k p = word_of_int (int_root k 36 0 (p * 2 ^ (32 * k)))"

definition primes_upto :: "int \<Rightarrow> int list" where
  "primes_upto n = filter (\<lambda>p. list_all (\<lambda>d. p mod d \<noteq> 0) [2..p - 1]) [2..n]"

definition sha_round_constants :: "word32 list" where
  "sha_round_constants = map (fraction_of_root 3) (primes_upto 311)"

definition sha_initial :: "word32 list" where
  "sha_initial = map (fraction_of_root 2) (primes_upto 19)"

lemma length_sha_initial [simp]: "length sha_initial = 8"
  unfolding sha_initial_def primes_upto_def by code_simp

text \<open>The message schedule, with the latest word first.\<close>

fun sha_schedule :: "nat \<Rightarrow> word32 list \<Rightarrow> word32 list" where
  "sha_schedule 0 w = w"
| "sha_schedule (Suc n) w = sha_schedule n
     (((rotr32 17 (w ! 1) XOR rotr32 19 (w ! 1) XOR drop_bit 10 (w ! 1)) + w ! 6
       + (rotr32 7 (w ! 14) XOR rotr32 18 (w ! 14) XOR drop_bit 3 (w ! 14)) + w ! 15) # w)"

fun sha_rounds :: "(word32 \<times> word32) list \<Rightarrow> word32 list \<Rightarrow> word32 list" where
  "sha_rounds ((k, w) # kws) [a, b, c, d, e, f, g, h] =
     (let t1 = h + (rotr32 6 e XOR rotr32 11 e XOR rotr32 25 e) + sha_ch e f g + k + w;
          t2 = (rotr32 2 a XOR rotr32 13 a XOR rotr32 22 a) + sha_maj a b c
      in sha_rounds kws [t1 + t2, a, b, c, d + t1, e, f, g])"
| "sha_rounds kws hs = hs"

definition sha_block :: "word32 list \<Rightarrow> word32 list \<Rightarrow> word32 list" where
  "sha_block hs ws = map2 (+) hs (sha_rounds (zip sha_round_constants (rev (sha_schedule 48 (rev ws)))) hs)"

fun word32_of_bytes :: "string \<Rightarrow> word32 list" where
  "word32_of_bytes (a # b # c # d # s) =
     word_of_int (((of_char a * 256 + of_char b) * 256 + of_char c) * 256 + of_char d) # word32_of_bytes s"
| "word32_of_bytes s = []"

definition bytes_of_int :: "nat \<Rightarrow> int \<Rightarrow> string" where
  "bytes_of_int n x = map (\<lambda>i. char_of (x div 256 ^ i mod 256)) (rev [0..<n])"

definition sha_pad :: "string \<Rightarrow> string" where
  "sha_pad s = s @ char_of (128 :: nat) # replicate ((119 - length s mod 64) mod 64) (char_of (0 :: nat))
     @ bytes_of_int 8 (8 * int (length s))"

function sha_blocks :: "word32 list \<Rightarrow> word32 list \<Rightarrow> word32 list" where
  "sha_blocks hs ws = (if length ws < 16 then hs else sha_blocks (sha_block hs (take 16 ws)) (drop 16 ws))"
  by pat_completeness auto
termination
  by (relation "measure (\<lambda>(hs, ws). length ws)") auto

declare sha_blocks.simps [simp del]

definition sha256 :: "string \<Rightarrow> string" where
  "sha256 s = concat (map (\<lambda>w. bytes_of_int 4 (uint w)) (sha_blocks sha_initial (word32_of_bytes (sha_pad s))))"

definition big_endian :: "string \<Rightarrow> int" where
  "big_endian s = foldl (\<lambda>n c. 256 * n + of_char c) 0 s"

lemma length_sha_rounds [simp]: "length (sha_rounds kws hs) = length hs"
  by (induction kws hs rule: sha_rounds.induct) (simp_all add: Let_def)

lemma length_sha_blocks [simp]: "length hs = 8 \<Longrightarrow> length (sha_blocks hs ws) = 8"
proof (induction hs ws rule: sha_blocks.induct)
  case (1 hs ws)
  then show ?case by (subst sha_blocks.simps) (simp add: sha_block_def)
qed

lemma sha_pad_blocks: "64 dvd length (sha_pad s)"
proof -
  define r where "r = length s mod 64"
  have r: "r < 64" by (simp add: r_def)
  have "(r + (119 - r) mod 64 + 9) mod 64 = 0"
  proof (cases "r \<le> 55")
    case True
    then have "119 - r = (55 - r) + 64" by simp
    then have "(119 - r) mod 64 = 55 - r" by (simp only: mod_add_self2) simp
    with True show ?thesis by simp
  next
    case False
    with r show ?thesis by simp
  qed
  moreover have "length (sha_pad s) mod 64 = (length s mod 64 + ((119 - r) mod 64 + 9)) mod 64"
    by (simp only: mod_add_left_eq) (simp add: sha_pad_def bytes_of_int_def r_def ac_simps)
  ultimately show ?thesis by (simp only: dvd_eq_mod_eq_0 r_def add.assoc)
qed

lemma length_sha256 [simp]: "length (sha256 s) = 32"
proof -
  have "length (concat (map (\<lambda>w. bytes_of_int 4 (uint w)) ws)) = 4 * length ws" for ws :: "word32 list"
    by (induction ws) (simp_all add: bytes_of_int_def)
  then show ?thesis by (simp add: sha256_def)
qed

section \<open>Instants in RFC 3339\<close>

text \<open>
  The civil date of a day counted from Go's zero instant, 1 January of the year 1 in the
  proleptic Gregorian calendar: years are counted from 1 March of the year 0, in eras of 400.
\<close>

definition civil_date :: "int \<Rightarrow> int \<times> int \<times> int" where
  "civil_date days = (let z = days + 306; era = z div 146097; doe = z mod 146097;
     yoe = (doe - doe div 1460 + doe div 36524 - doe div 146096) div 365;
     doy = doe - (365 * yoe + yoe div 4 - yoe div 100); mp = (5 * doy + 2) div 153;
     d = doy - (153 * mp + 2) div 5 + 1; m = (if mp < 10 then mp + 3 else mp - 9)
     in (yoe + era * 400 + (if m \<le> 2 then 1 else 0), m, d))"

definition pad_int :: "nat \<Rightarrow> int \<Rightarrow> string" where
  "pad_int w x = (let s = show_nat (nat \<bar>x\<bar>)
     in (if x < 0 then ''-'' else []) @ replicate (w - length s) (CHR ''0'') @ s)"

definition nanos_text :: "int \<Rightarrow> string" where
  "nanos_text n = (if n = 0 then []
     else CHR ''.'' # rev (dropWhile (\<lambda>c. c = CHR ''0'') (rev (pad_int 9 n))))"

definition rfc3339_nano :: "gtime \<Rightarrow> string" where
  "rfc3339_nano t = (let (y, m, d) = civil_date (t div 86400000000000); r = t mod 86400000000000
     in pad_int 4 y @ ''-'' @ pad_int 2 m @ ''-'' @ pad_int 2 d @ ''T'' @ pad_int 2 (r div hour) @ '':''
        @ pad_int 2 (r div minute mod 60) @ '':'' @ pad_int 2 (r div second mod 60)
        @ nanos_text (r mod second) @ ''Z'')"

end
