(* ===== verification/Pool.thy ===== *)
theory Pool
  imports Controller Go_Digest
begin

text \<open>
  The pool's deterministic state machine of \<open>stateful/batch/pool_state.go\<close>, with the recovery
  padding of \<open>recovery_jitter.go\<close> and the waiting status of \<open>pool_progress.go\<close>: granting permits,
  observing what the claim ledger reports of an attempt, and applying its outcome to the
  controller. The package \<open>google/uuid\<close> is not part of the repository: it is the parameter
  \<open>uuid_lib\<close> of the definitions that use it.
\<close>

section \<open>Identifiers\<close>

text \<open>\<open>uuid.Parse\<close> followed by \<open>String\<close>, and \<open>uuid.NewSHA1\<close> in the OID name space followed by \<open>String\<close>.\<close>

record uuid_lib =
  parse_uuid :: "string \<Rightarrow> string option"
  new_sha1 :: "string \<Rightarrow> string"

definition nil_uuid :: string where
  "nil_uuid = ''00000000-0000-0000-0000-000000000000''"

definition valid_permit_id :: "uuid_lib \<Rightarrow> string \<Rightarrow> bool" where
  "valid_permit_id lib i = (case parse_uuid lib i of None \<Rightarrow> False | Some u \<Rightarrow> u \<noteq> nil_uuid \<and> u = i)"

definition valid_pool :: "string \<Rightarrow> bool" where
  "valid_pool i \<longleftrightarrow> length i > 0 \<and> length i \<le> 128 \<and> trim_space i = i
     \<and> \<not> list_ex (\<lambda>c. c \<in> set (map char_of [13, 10, 9, 0 :: nat])) i"

definition valid_scope :: "string \<Rightarrow> bool" where
  "valid_scope v \<longleftrightarrow> length v = 64
     \<and> list_all (\<lambda>c. CHR ''0'' \<le> c \<and> c \<le> CHR ''9'' \<or> CHR ''a'' \<le> c \<and> c \<le> CHR ''f'') v"

section \<open>Reservations and attempts\<close>

record ref =
  ref_scope :: string
  ref_job_id :: string
  ref_index :: int

record ready_item =
  ri_kind :: string
  ri_request_id :: string
  ri_ref :: ref
  ri_budget_ms :: int
  ri_deadline :: gtime
  ri_ready_at :: gtime

record reservation =
  permit_id :: string
  res_pool_id :: string
  res_generation :: int
  res_sequence :: int
  res_ref :: ref
  res_request_id :: string
  res_kind :: string
  workflow_id :: string
  granted_at :: gtime
  start_by :: gtime
  res_deadline :: gtime
  budget_ms :: int
  res_window_id :: int
  res_epoch :: int
  res_policy_revision :: int
  res_probe :: bool

record counts =
  c_total :: int
  c_queued :: int
  c_active :: int
  c_waiting :: int
  c_succeeded :: int
  c_failed :: int

definition counts_done :: "counts \<Rightarrow> bool" where
  "counts_done c \<longleftrightarrow> c_total c > 0 \<and> c_succeeded c + c_failed c = c_total c"

record attempt_observation =
  obs_outcome :: outcome
  native_entered :: bool
  local_stopped :: bool
  observed_at :: gtime

record attempt = reservation +
  ordinal :: int
  att_state :: string
  claim_id :: string
  claimed_at :: "gtime option"
  dispatched_at :: "gtime option"
  att_generation_deadline :: "gtime option"
  stopped_at :: "gtime option"
  settlement_revision :: int
  observation :: "attempt_observation option"
  att_counts :: counts

definition execution_deadline :: "attempt \<Rightarrow> gtime" where
  "execution_deadline a = (case att_generation_deadline a of Some d \<Rightarrow> d | None \<Rightarrow> res_deadline a)"

record start_result =
  sr_permit_id :: string
  sr_started :: bool
  sr_error_code :: string

section \<open>The pool\<close>

abbreviation maximum_start_intents :: nat where "maximum_start_intents \<equiv> 64"
abbreviation maximum_items :: int where "maximum_items \<equiv> 1000"
abbreviation maximum_pool_snapshot :: nat where "maximum_pool_snapshot \<equiv> 262144"

record pool_permit =
  p_id :: string
  p_revision :: int
  p_applied :: bool
  p_awaiting_stop :: bool
  p_claimed :: bool

record recovery_padding =
  pad_floor :: gtime
  pad_until :: gtime

record pool_state =
  pool_id :: string
  generation :: int
  ctl :: controller
  sequence :: int
  policy_revision :: int
  episode :: int
  window_id :: int
  window_anchored :: bool
  after_scope :: string
  outstanding :: "pool_permit list"
  start_intents :: "reservation list"
  probe_id :: string
  probe_claim_at :: gtime
  dispatch_needs_ready :: bool
  dispatch_blocked_until :: gtime
  dispatch_backoff :: duration
  quiescing :: bool
  persistence_wait :: bool
  publication_after :: int
  publication_at :: gtime
  publication_reason :: string
  publication_next :: "gtime option"
  request_retirements :: "string list"
  coalesce_dispatch_failures :: bool
  pending_claim_limit :: int
  coalesce_transient_publication :: bool
  recovery_jitter_version :: int
  padding :: "recovery_padding option"

definition new_pool_state :: "string \<Rightarrow> int \<Rightarrow> admission_policy \<Rightarrow> pool_state" where
  "new_pool_state pool gen policy = \<lparr>pool_id = pool, generation = gen, ctl = new_controller policy,
     sequence = 0, policy_revision = 1, episode = 1, window_id = 1, window_anchored = False,
     after_scope = [], outstanding = [], start_intents = [], probe_id = [], probe_claim_at = 0,
     dispatch_needs_ready = False, dispatch_blocked_until = 0, dispatch_backoff = 2 * second,
     quiescing = False, persistence_wait = False, publication_after = 0, publication_at = 0,
     publication_reason = [], publication_next = None, request_retirements = [],
     coalesce_dispatch_failures = True, pending_claim_limit = 32,
     coalesce_transient_publication = True, recovery_jitter_version = 1, padding = None\<rparr>"

definition unclaimed :: "pool_permit list \<Rightarrow> nat" where
  "unclaimed ps = length (filter (\<lambda>p. \<not> p_claimed p) ps)"

definition pending_claims_full :: "pool_state \<Rightarrow> bool" where
  "pending_claims_full s =
     (if pending_claim_limit s = 0 then False else int (unclaimed (outstanding s)) \<ge> pending_claim_limit s)"

definition renew_window :: "controller \<Rightarrow> controller" where
  "renew_window c = (let c = c\<lparr>window_start := 0, window_starts := 0\<rparr>
     in if \<not> cooling c \<and> refill_window_burst c then c\<lparr>burst_left := burst (ctl_policy c)\<rparr> else c)"

definition refresh_window :: "gtime \<Rightarrow> pool_state \<Rightarrow> pool_state" where
  "refresh_window now s =
     (if window_anchored s \<and> window_requests (ctl_policy (ctl s)) > 0
         \<and> \<not> now < window_start (ctl s) + window_duration (ctl_policy (ctl s))
      then s\<lparr>window_id := wrap64 (window_id s + 1), window_anchored := False, ctl := renew_window (ctl s)\<rparr>
      else s)"

definition unresolved :: "pool_state \<Rightarrow> bool" where
  "unresolved s = list_ex p_awaiting_stop (outstanding s)"

text \<open>
  \<open>CanGrant\<close> refreshes the window before it answers: \<open>grantable\<close> is its answer on the state it
  leaves behind.
\<close>

definition grantable :: "gtime \<Rightarrow> pool_state \<Rightarrow> bool" where
  "grantable now s =
     (if quiescing s \<or> persistence_wait s \<or> dispatch_needs_ready s \<or> unresolved s \<or> pending_claims_full s
         \<or> length (start_intents s) \<ge> maximum_start_intents
         \<or> length (request_retirements s) + length (outstanding s) \<ge> 1000 then False
      else let c = ctl s in
        if \<not> cooling c \<and> \<not> window_anchored s \<and> window_requests (ctl_policy c) > 0
           \<and> window_starts c \<ge> window_requests (ctl_policy c) then False
        else can_start now (int (length (outstanding s))) c)"

definition can_grant :: "gtime \<Rightarrow> pool_state \<Rightarrow> pool_state \<times> bool" where
  "can_grant now s = (let s = refresh_window now s in (s, grantable now s))"

definition valid_owner :: "uuid_lib \<Rightarrow> string \<Rightarrow> ready_item \<Rightarrow> bool" where
  "valid_owner lib kd item \<longleftrightarrow>
     (kd = ''job'' \<and> valid_permit_id lib (ref_job_id (ri_ref item)) \<and> ref_index (ri_ref item) \<ge> 0
        \<and> ref_index (ri_ref item) < maximum_items \<and> ri_request_id item = [])
     \<or> (kd = ''ordinary'' \<and> valid_permit_id lib (ri_request_id item) \<and> ref_job_id (ri_ref item) = []
        \<and> ref_index (ri_ref item) = 0)"

definition same_owner :: "string \<Rightarrow> ready_item \<Rightarrow> reservation \<Rightarrow> bool" where
  "same_owner kd item r \<longleftrightarrow> res_kind r = kd
     \<and> ((kd = ''job'' \<and> res_ref r = ri_ref item) \<or> (kd = ''ordinary'' \<and> res_request_id r = ri_request_id item))"

abbreviation nul :: string where "nul \<equiv> [char_of (0 :: nat)]"

definition permit_identity :: "pool_state \<Rightarrow> string \<Rightarrow> ready_item \<Rightarrow> string" where
  "permit_identity s kd item =
     (let identity = pool_id s @ nul @ show_int (generation s) @ nul @ show_int (sequence s) @ nul
            @ ref_scope (ri_ref item) @ nul @ ref_job_id (ri_ref item) @ nul @ show_int (ref_index (ri_ref item))
      in if kd = ''ordinary'' then identity @ nul @ ''ordinary'' @ nul @ ri_request_id item else identity)"

definition reserve :: "uuid_lib \<Rightarrow> gtime \<Rightarrow> string \<Rightarrow> ready_item \<Rightarrow> pool_state \<Rightarrow> reservation" where
  "reserve lib now kd item s =
     (let i = new_sha1 lib (permit_identity s kd item);
          r = \<lparr>permit_id = i, res_pool_id = pool_id s, res_generation = generation s,
               res_sequence = sequence s, res_ref = ri_ref item, res_request_id = [], res_kind = ''job'',
               workflow_id = ''hllm-cpa-attempt-v2/'' @ i, granted_at = now,
               start_by = (if now + 5 * second < ri_deadline item then now + 5 * second else ri_deadline item),
               res_deadline = ri_deadline item, budget_ms = ri_budget_ms item, res_window_id = window_id s,
               res_epoch = episode s, res_policy_revision = policy_revision s, res_probe = cooling (ctl s)\<rparr>
      in if kd = ''ordinary''
         then r\<lparr>res_kind := kd, res_request_id := ri_request_id item, workflow_id := ''hllm-cpa-request-v2/'' @ i\<rparr>
         else r)"

text \<open>
  The grant starts the controller with its window switched off and then counts the start in the
  pool's own window. \<open>None\<close> is the panic of the controller's division, which the pool's
  invariant excludes.
\<close>

definition start_unwindowed :: "gtime \<Rightarrow> controller \<Rightarrow> controller option" where
  "start_unwindowed now c =
     (let policy = ctl_policy c in
      case controller_start now (c\<lparr>ctl_policy := policy\<lparr>window_requests := 0\<rparr>\<rparr>) of
        None \<Rightarrow> None
      | Some d \<Rightarrow> Some (let d = d\<lparr>ctl_policy := policy\<rparr>
          in if window_requests policy > 0 then d\<lparr>window_starts := wrap64 (window_starts d + 1)\<rparr> else d))"

definition record_grant :: "gtime \<Rightarrow> reservation \<Rightarrow> pool_state \<Rightarrow> pool_state option" where
  "record_grant now r s = map_option (\<lambda>c.
     s\<lparr>ctl := c,
       probe_id := (if res_probe r then permit_id r else probe_id s),
       probe_claim_at := (if res_probe r then 0 else probe_claim_at s),
       outstanding := outstanding s @
         [\<lparr>p_id = permit_id r, p_revision = 0, p_applied = False, p_awaiting_stop = False, p_claimed = False\<rparr>],
       start_intents := start_intents s @ [r]\<rparr>) (start_unwindowed now (ctl s))"

definition grant_kind :: "ready_item \<Rightarrow> string" where
  "grant_kind item = (if ri_kind item = [] then ''job'' else ri_kind item)"

definition grant_refused :: "uuid_lib \<Rightarrow> gtime \<Rightarrow> ready_item \<Rightarrow> pool_state \<Rightarrow> bool" where
  "grant_refused lib now item s \<longleftrightarrow>
     \<not> grantable now s \<or> \<not> valid_pool (pool_id s) \<or> generation s < 1 \<or> sequence s = max_int64
     \<or> \<not> valid_scope (ref_scope (ri_ref item)) \<or> \<not> valid_owner lib (grant_kind item) item
     \<or> ri_budget_ms item < 1 \<or> ri_budget_ms item > maximum_generation_ms \<or> \<not> now < ri_deadline item"

definition grant ::
  "uuid_lib \<Rightarrow> gtime \<Rightarrow> ready_item \<Rightarrow> pool_state \<Rightarrow> (pool_state \<times> (batch_error + reservation)) option" where
  "grant lib now item s =
     (let kd = grant_kind item; s = refresh_window now s in
      if grant_refused lib now item s then Some (s, Inl Err_Unavailable)
      else if list_ex (same_owner kd item) (start_intents s) then Some (s, Inl Err_Conflict)
      else let s = s\<lparr>sequence := sequence s + 1\<rparr>; r = reserve lib now kd item s
           in map_option (\<lambda>s. (s, Inr r)) (record_grant now r s))"

section \<open>Recovery padding\<close>

definition padding_seed :: "pool_state \<Rightarrow> gtime \<Rightarrow> string" where
  "padding_seed s fl = pool_id s @ nul @ show_int (episode s) @ nul @ probe_id s @ nul
     @ show_int (policy_revision s) @ nul @ rfc3339_nano fl"

definition padding_duration :: "pool_state \<Rightarrow> gtime \<Rightarrow> duration" where
  "padding_duration s fl =
     big_endian (take 8 (sha256 (padding_seed s fl))) mod (recovery_jitter_ms (ctl_policy (ctl s)) + 1) * millisecond"

definition pad_recovery_floor :: "gtime \<Rightarrow> pool_state \<Rightarrow> pool_state" where
  "pad_recovery_floor previous s =
     (let c = ctl s; jitter = recovery_jitter_ms (ctl_policy c) in
      if \<not> cooling c \<or> next_eligible c = 0 then s\<lparr>padding := None\<rparr>
      else if (case padding s of None \<Rightarrow> False | Some p \<Rightarrow> next_eligible c = pad_until p) then s
      else if \<not> next_eligible c > previous then s
      else if recovery_jitter_version s \<noteq> 1 \<or> jitter \<le> 0 \<or> jitter > 1000 then s\<lparr>padding := None\<rparr>
      else let fl = next_eligible c; until = fl + padding_duration s fl
           in s\<lparr>padding := Some \<lparr>pad_floor = fl, pad_until = until\<rparr>, ctl := c\<lparr>next_eligible := until\<rparr>\<rparr>)"

definition valid_recovery_padding :: "pool_state \<Rightarrow> bool" where
  "valid_recovery_padding s =
     (if recovery_jitter_version s < 0 \<or> recovery_jitter_version s > 1
         \<or> recovery_jitter_ms (ctl_policy (ctl s)) < 0 \<or> recovery_jitter_ms (ctl_policy (ctl s)) > 1000 then False
      else case padding s of None \<Rightarrow> True
        | Some p \<Rightarrow> recovery_jitter_version s = 1 \<and> pad_floor p \<noteq> 0 \<and> \<not> pad_until p < pad_floor p
            \<and> time_sub (pad_until p) (pad_floor p) \<le> second \<and> cooling (ctl s)
            \<and> next_eligible (ctl s) = pad_until p)"

section \<open>Observing attempts\<close>

fun drop_permit :: "string \<Rightarrow> reservation list \<Rightarrow> reservation list" where
  "drop_permit i [] = []"
| "drop_permit i (r # rs) = (if permit_id r = i then rs else r # drop_permit i rs)"

definition drop_intent :: "string \<Rightarrow> pool_state \<Rightarrow> pool_state" where
  "drop_intent i s = s\<lparr>start_intents := drop_permit i (start_intents s)\<rparr>"

definition acknowledge_starts :: "start_result list \<Rightarrow> pool_state \<Rightarrow> pool_state" where
  "acknowledge_starts rs s = fold (\<lambda>r s. if sr_started r then drop_intent (sr_permit_id r) s else s) rs s"

definition refund_start :: "controller \<Rightarrow> controller" where
  "refund_start c = (if window_starts c > 0 then c\<lparr>window_starts := window_starts c - 1\<rparr> else c)"

definition current_probe :: "attempt \<Rightarrow> pool_state \<Rightarrow> bool" where
  "current_probe a s \<longleftrightarrow> res_probe a \<and> permit_id a = probe_id s"

definition release_grant :: "attempt \<Rightarrow> pool_state \<Rightarrow> pool_state" where
  "release_grant a s =
     (let c = (if res_window_id a = window_id s then refund_start (ctl s) else ctl s)
      in if current_probe a s then s\<lparr>ctl := c\<lparr>probing := False\<rparr>, probe_id := []\<rparr> else s\<lparr>ctl := c\<rparr>)"

definition dispatch_backpressure :: "gtime \<Rightarrow> pool_state \<Rightarrow> pool_state" where
  "dispatch_backpressure now s =
     (let backoff = (if dispatch_backoff s < 2 * second then 2 * second else dispatch_backoff s)
      in s\<lparr>dispatch_needs_ready := True, dispatch_blocked_until := now + backoff,
           dispatch_backoff := min (30 * second) (wrap64 (backoff * 2))\<rparr>)"

definition apply_never_dispatched :: "gtime \<Rightarrow> attempt \<Rightarrow> pool_state \<Rightarrow> pool_state" where
  "apply_never_dispatched now a s =
     (if res_kind a = ''ordinary'' \<or> (coalesce_dispatch_failures s \<and> dispatch_needs_ready s)
      then release_grant a s else dispatch_backpressure now (release_grant a s))"

definition reserved_time :: "attempt \<Rightarrow> pool_state \<Rightarrow> gtime" where
  "reserved_time a s = (if res_window_id a = window_id s then window_start (ctl s) else window_start (ctl s) - 1)"

definition dispatched_time :: "attempt \<Rightarrow> pool_state \<Rightarrow> gtime" where
  "dispatched_time a s = (if current_probe a s \<and> probe_claim_at s \<noteq> 0 then probe_claim_at s else epoch (ctl s))"

definition complete_attempt :: "gtime \<Rightarrow> attempt \<Rightarrow> outcome \<Rightarrow> pool_state \<Rightarrow> pool_state" where
  "complete_attempt now a out s =
     (let c = ctl s; is_probe = current_probe a s;
          d = complete_outcome now (dispatched_time a s) (reserved_time a s) is_probe out c;
          s = s\<lparr>ctl := d\<rparr>;
          s = (if \<not> cooling c \<and> cooling d then s\<lparr>episode := wrap64 (episode s + 1)\<rparr> else s);
          s = pad_recovery_floor (next_eligible c) s
      in if is_probe \<and> \<not> probing (ctl s) then s\<lparr>probe_id := []\<rparr> else s)"

definition apply_outcome :: "gtime \<Rightarrow> attempt \<Rightarrow> outcome \<Rightarrow> pool_state \<Rightarrow> pool_state" where
  "apply_outcome now a out s =
     (let c = ctl s; is_probe = current_probe a s;
          current_window = res_window_id a = window_id s;
          restricted = kind out = ''policy'' \<or> admission out = ''restricted'';
          throttled = kind out = ''rejected'' \<or> admission out = ''throttled'' \<or> retry_after_ms out > 0
      in if kind out = ''never_dispatched'' then apply_never_dispatched now a s
         else if kind out = ''completed'' \<and> \<not> is_probe \<and> (cooling c \<or> res_epoch a \<noteq> episode s) then s
         else if throttled \<and> \<not> restricted \<and> res_epoch a < episode s \<and> \<not> cooling c then
           (if kind out = ''rejected'' \<and> current_window then s\<lparr>ctl := refund_start c\<rparr> else s)
         else if is_probe \<and> kind out = ''completed'' \<and> now < next_eligible c then
           s\<lparr>ctl := c\<lparr>probing := False\<rparr>, probe_id := []\<rparr>
         else complete_attempt now a out s)"

fun permit_index :: "string \<Rightarrow> pool_permit list \<Rightarrow> nat option" where
  "permit_index i [] = None"
| "permit_index i (p # ps) = (if p_id p = i then Some 0 else map_option Suc (permit_index i ps))"

definition observe_claim :: "gtime \<Rightarrow> attempt \<Rightarrow> nat \<Rightarrow> pool_state \<Rightarrow> pool_state \<times> bool" where
  "observe_claim now a i s =
     (let p = outstanding s ! i;
          newly = pending_claim_limit s > 0 \<and> \<not> p_claimed p;
          s = (if newly then s\<lparr>outstanding := (outstanding s)[i := p\<lparr>p_claimed := True\<rparr>]\<rparr> else s);
          s = drop_intent (permit_id a) s;
          s = s\<lparr>dispatch_backoff := 2 * second\<rparr>;
          s = (if permit_id a = probe_id s \<and> probe_claim_at s = 0 then s\<lparr>probe_claim_at := now\<rparr> else s)
      in if res_window_id a = window_id s \<and> \<not> window_anchored s then
           (s\<lparr>window_anchored := True,
              ctl := (let c = (ctl s)\<lparr>window_start := now\<rparr> in if \<not> cooling c then c\<lparr>epoch := now\<rparr> else c)\<rparr>, True)
         else (s, newly))"

definition settle_permit :: "gtime \<Rightarrow> attempt \<Rightarrow> outcome \<Rightarrow> nat \<Rightarrow> pool_state \<Rightarrow> pool_state" where
  "settle_permit now a out i s =
     (let s = drop_intent (permit_id a) s;
          p = outstanding s ! i;
          s = (if p_applied p then s else apply_outcome now a out s);
          p = p\<lparr>p_applied := True, p_revision := settlement_revision a, p_awaiting_stop := stopped_at a = None\<rparr>
      in if stopped_at a \<noteq> None then
           (let s = s\<lparr>outstanding := take i (outstanding s) @ drop (Suc i) (outstanding s)\<rparr>
            in if res_kind a = ''ordinary'' then s\<lparr>request_retirements := request_retirements s @ [permit_id a]\<rparr> else s)
         else s\<lparr>outstanding := (outstanding s)[i := p]\<rparr>)"

definition observe_attempt :: "gtime \<Rightarrow> attempt \<Rightarrow> pool_state \<Rightarrow> pool_state \<times> bool" where
  "observe_attempt now a s =
     (case permit_index (permit_id a) (outstanding s) of
        None \<Rightarrow> (s, False)
      | Some i \<Rightarrow>
          if res_pool_id a \<noteq> pool_id s \<or> res_generation a \<noteq> generation s then (s, False)
          else let (s, changed) = (if claimed_at a = None then (s, False) else observe_claim now a i s) in
            case observation a of
              None \<Rightarrow> (s, changed)
            | Some obs \<Rightarrow>
                if att_state a \<noteq> ''settled'' \<or> settlement_revision a < 1 then (s, changed)
                else if settlement_revision a \<le> p_revision (outstanding s ! i) then (s, changed)
                else (settle_permit now a (obs_outcome obs) i s, True))"

section \<open>Snapshots and status\<close>

text \<open>
  \<open>encode\<close> is \<open>json.Marshal\<close> of the whole state (its bytes depend on the time zones the
  instants carry, which the model leaves out); \<open>None\<close> is its error.
\<close>

definition snapshot :: "(pool_state \<Rightarrow> string option) \<Rightarrow> pool_state \<Rightarrow> batch_error + string" where
  "snapshot encode s = (case encode s of
       None \<Rightarrow> Inl Err_Unavailable
     | Some raw \<Rightarrow>
         if \<not> valid_recovery_padding s \<or> pending_claim_limit s < 0
            \<or> pending_claim_limit s > int maximum_start_intents \<or> length raw \<ge> maximum_pool_snapshot
            \<or> length (start_intents s) > maximum_start_intents
            \<or> length (outstanding s) + length (request_retirements s) > 1000
         then Inl Err_Unavailable else Inr raw)"

definition ready_request_exclusions :: "pool_state \<Rightarrow> string list" where
  "ready_request_exclusions s = map res_request_id (filter (\<lambda>r. res_kind r = ''ordinary'') (start_intents s))"

definition ready_exclusions :: "pool_state \<Rightarrow> ref list" where
  "ready_exclusions s = map res_ref (filter (\<lambda>r. res_kind r = ''job'') (start_intents s))"

definition waiting :: "gtime \<Rightarrow> pool_state \<Rightarrow> string \<times> gtime option" where
  "waiting now s =
     (let c = ctl s; full = request_retirements s \<noteq> [] \<and> length (request_retirements s) + length (outstanding s) \<ge> 1000
      in if unresolved s then (''unresolved_execution'', None)
         else if persistence_wait s \<or> full then (''persistence_wait'', None)
         else if quiescing s then (''workflow_rollover'', None)
         else if paused c then (''account_restricted'', None)
         else if dispatch_needs_ready s then
           (''worker_unavailable'', if dispatch_blocked_until s > now then Some (dispatch_blocked_until s) else None)
         else if cooling c then
           (''provider_throttled'', if \<not> probing c \<and> next_eligible c \<noteq> 0 then Some (next_eligible c) else None)
         else if window_wait now c \<noteq> 0 then (''admission_window'', Some (window_wait now c))
         else if \<not> window_anchored s \<and> window_requests (ctl_policy c) > 0
                 \<and> window_starts c \<ge> window_requests (ctl_policy c) then (''admission_window'', None)
         else if start_intents s \<noteq> [] \<or> pending_claims_full s then (''dispatch_pending'', None)
         else if int (length (outstanding s)) \<ge> concurrency (ctl_policy c) then (''pool_capacity'', None)
         else ([], None))"

definition transient_reason :: "string \<Rightarrow> bool" where
  "transient_reason r \<longleftrightarrow> r = [] \<or> r = ''dispatch_pending'' \<or> r = ''pool_capacity''"

definition coalescible_publication :: "string \<Rightarrow> gtime option \<Rightarrow> pool_state \<Rightarrow> bool" where
  "coalescible_publication reason next s \<longleftrightarrow> coalesce_transient_publication s
     \<and> transient_reason (publication_reason s) \<and> transient_reason reason \<and> publication_next s = next"

definition publication_due :: "gtime \<Rightarrow> string \<Rightarrow> gtime option \<Rightarrow> pool_state \<Rightarrow> bool" where
  "publication_due now reason next s =
     (if publication_at s = 0 \<or> \<not> now < publication_at s + 5 * second then True
      else (reason \<noteq> publication_reason s \<or> next \<noteq> publication_next s)
           \<and> \<not> coalescible_publication reason next s)"

definition valid_waiting_reason :: "string \<Rightarrow> bool" where
  "valid_waiting_reason r \<longleftrightarrow> r \<in> set [[], ''provider_throttled'', ''admission_window'', ''account_restricted'',
     ''dispatch_pending'', ''workflow_rollover'', ''persistence_wait'', ''worker_unavailable'',
     ''unresolved_execution'', ''pool_capacity'']"

section \<open>Signals and activity results\<close>

text \<open>What \<open>PoolWorkflow\<close> (\<open>pool_workflow.go\<close>) does to the state on each signal and on each result.\<close>

definition resume_pool :: "gtime \<Rightarrow> pool_state \<Rightarrow> pool_state" where
  "resume_pool now s =
     (let c = (ctl s)\<lparr>paused := False\<rparr> in
      if \<not> probing c then
        pad_recovery_floor (next_eligible c)
          (s\<lparr>ctl := c\<lparr>cooling := True, next_eligible := max (next_eligible c) now\<rparr>,
             episode := wrap64 (episode s + 1), probe_id := []\<rparr>)
      else s\<lparr>ctl := c\<rparr>)"

definition set_policy :: "admission_policy \<Rightarrow> pool_state \<Rightarrow> pool_state" where
  "set_policy p s = (case configure p (ctl s) of
       Inl e \<Rightarrow> s
     | Inr c \<Rightarrow> s\<lparr>ctl := c, policy_revision := wrap64 (policy_revision s + 1)\<rparr>)"

definition readiness_result :: "gtime \<Rightarrow> bool \<Rightarrow> pool_state \<Rightarrow> pool_state" where
  "readiness_result now ok s =
     (if ok then s\<lparr>dispatch_needs_ready := False, dispatch_blocked_until := 0\<rparr>
      else s\<lparr>dispatch_blocked_until := now + dispatch_backoff s,
             dispatch_backoff := min (30 * second) (wrap64 (dispatch_backoff s * 2))\<rparr>)"

record publication_request =
  pr_reason :: string
  pr_next :: "gtime option"
  pr_after :: int

record publication_page =
  pp_after :: int
  pp_more :: bool
  pp_updated :: int

definition publication_result ::
  "gtime \<Rightarrow> publication_request \<Rightarrow> publication_page option \<Rightarrow> pool_state \<Rightarrow> pool_state" where
  "publication_result now req page s =
     (let s' = s\<lparr>publication_reason := pr_reason req, publication_next := pr_next req\<rparr> in
      case page of
        None \<Rightarrow> s'\<lparr>publication_at := now, publication_after := 0\<rparr>
      | Some pg \<Rightarrow>
          (let (reason, next) = waiting now s in
           if (reason \<noteq> pr_reason req \<or> next \<noteq> pr_next req) \<and> \<not> coalescible_publication reason next s'
           then s'\<lparr>publication_after := 0, publication_at := 0\<rparr>
           else if pp_more pg then s'\<lparr>publication_after := pp_after pg, publication_at := 0\<rparr>
           else s'\<lparr>publication_after := 0, publication_at := now\<rparr>))"

end
