(* ===== verification/Transition.thy ===== *)
theory Transition
  imports Go_Prelude
begin

text \<open>
  Clocked transition systems: states reached by steps whose clock readings never decrease, and
  the locale that turns a per-step argument into a fact about every reached state.
\<close>

inductive reach :: "(gtime \<Rightarrow> 's \<Rightarrow> bool) \<Rightarrow> (gtime \<Rightarrow> 's \<Rightarrow> 's \<Rightarrow> bool) \<Rightarrow> gtime \<Rightarrow> 's \<Rightarrow> bool"
  for init :: "gtime \<Rightarrow> 's \<Rightarrow> bool" and step :: "gtime \<Rightarrow> 's \<Rightarrow> 's \<Rightarrow> bool" where
  reach_init: "init t s \<Longrightarrow> reach init step t s"
| reach_step: "reach init step t s \<Longrightarrow> t \<le> now \<Longrightarrow> step now s s' \<Longrightarrow> reach init step now s'"

inductive steps :: "(gtime \<Rightarrow> 's \<Rightarrow> 's \<Rightarrow> bool) \<Rightarrow> gtime \<Rightarrow> 's \<Rightarrow> 's \<Rightarrow> bool"
  for step :: "gtime \<Rightarrow> 's \<Rightarrow> 's \<Rightarrow> bool" and now :: gtime where
  steps_refl [intro]: "steps step now s s"
| steps_step: "steps step now s t \<Longrightarrow> step now t u \<Longrightarrow> steps step now s u"

lemma steps_trans: "steps step now t u \<Longrightarrow> steps step now s t \<Longrightarrow> steps step now s u"
  by (induction rule: steps.induct) (auto intro: steps_step)

lemma steps_one: "step now s t \<Longrightarrow> steps step now s t"
  by (rule steps_step [OF steps_refl])

text \<open>Several steps at one reading of the clock.\<close>

lemma reach_steps:
  assumes "steps step now s s'" "reach init step t s" "t \<le> now"
  shows "s' = s \<or> reach init step now s'"
  using assms
proof (induction rule: steps.induct)
  case (steps_step u v)
  then show ?case by (metis order_refl reach_step)
qed simp

locale timed_invariant =
  fixes init :: "gtime \<Rightarrow> 's \<Rightarrow> bool" and step :: "gtime \<Rightarrow> 's \<Rightarrow> 's \<Rightarrow> bool" and inv :: "gtime \<Rightarrow> 's \<Rightarrow> bool"
  assumes inv_init: "init t s \<Longrightarrow> inv t s"
    and inv_step: "inv t s \<Longrightarrow> t \<le> now \<Longrightarrow> step now s s' \<Longrightarrow> inv now s'"
begin

lemma reach_inv: "reach init step t s \<Longrightarrow> inv t s"
  by (induction rule: reach.induct) (blast intro: inv_init inv_step)+

lemma steps_inv: "steps step now s s' \<Longrightarrow> inv now s \<Longrightarrow> inv now s'"
  by (induction rule: steps.induct) (auto intro: inv_step [OF _ order_refl])

end

end
