(* ===== verification/Pool_Invariant.thy ===== *)
theory Pool_Invariant
  imports Pool Transition
begin

text \<open>
  The invariants of the pool: a step relation that covers every operation the workflow performs
  on the state, the bounds that every reachable state keeps, the uniqueness of permits, and the
  life of the recovery probe. The theorems are proved by rule induction over the steps.
\<close>

section \<open>The invariant of one state\<close>

definition pool_inv :: "pool_state \<Rightarrow> bool" where
  "pool_inv s \<longleftrightarrow>
     controller_inv (ctl s) \<and> valid_recovery_padding s
     \<and> 0 \<le> window_starts (ctl s) \<and> window_starts (ctl s) \<le> sequence s \<and> sequence s \<le> max_int64
     \<and> length (start_intents s) \<le> maximum_start_intents
     \<and> length (outstanding s) + length (request_retirements s) \<le> 1000
     \<and> 2 * second \<le> dispatch_backoff s \<and> dispatch_backoff s \<le> 30 * second
     \<and> 0 < pending_claim_limit s \<and> pending_claim_limit s \<le> int maximum_start_intents
     \<and> int (unclaimed (outstanding s)) \<le> pending_claim_limit s"

lemma valid_recovery_padding_iff:
  "valid_recovery_padding s \<longleftrightarrow>
     0 \<le> recovery_jitter_version s \<and> recovery_jitter_version s \<le> 1
     \<and> 0 \<le> recovery_jitter_ms (ctl_policy (ctl s)) \<and> recovery_jitter_ms (ctl_policy (ctl s)) \<le> 1000
     \<and> (\<forall>p. padding s = Some p \<longrightarrow> recovery_jitter_version s = 1 \<and> pad_floor p \<noteq> 0 \<and> pad_floor p \<le> pad_until p
          \<and> time_sub (pad_until p) (pad_floor p) \<le> second \<and> cooling (ctl s) \<and> next_eligible (ctl s) = pad_until p)"
  by (auto simp: valid_recovery_padding_def split: option.splits)

text \<open>Padding: what \<open>padRecoveryFloor\<close> needs of the deadline before and after a change.\<close>

lemma padding_duration_bounds:
  assumes "0 \<le> recovery_jitter_ms (ctl_policy (ctl s))" "recovery_jitter_ms (ctl_policy (ctl s)) \<le> 1000"
  shows "0 \<le> padding_duration s fl" "padding_duration s fl \<le> second"
proof -
  let ?j = "recovery_jitter_ms (ctl_policy (ctl s)) + 1"
  have "0 \<le> big_endian (take 8 (sha256 (padding_seed s fl))) mod ?j"
    "big_endian (take 8 (sha256 (padding_seed s fl))) mod ?j < ?j"
    using assms by (simp, intro pos_mod_bound, simp)
  then show "0 \<le> padding_duration s fl" "padding_duration s fl \<le> second"
    using assms unfolding padding_duration_def by linarith+
qed

lemma pad_recovery_floor_frame [simp]:
  "sequence (pad_recovery_floor t s) = sequence s" "start_intents (pad_recovery_floor t s) = start_intents s"
  "outstanding (pad_recovery_floor t s) = outstanding s"
  "request_retirements (pad_recovery_floor t s) = request_retirements s"
  "dispatch_backoff (pad_recovery_floor t s) = dispatch_backoff s"
  "pending_claim_limit (pad_recovery_floor t s) = pending_claim_limit s"
  "pool_id (pad_recovery_floor t s) = pool_id s" "generation (pad_recovery_floor t s) = generation s"
  "probe_id (pad_recovery_floor t s) = probe_id s" "probe_claim_at (pad_recovery_floor t s) = probe_claim_at s"
  "cooling (ctl (pad_recovery_floor t s)) = cooling (ctl s)"
  "probing (ctl (pad_recovery_floor t s)) = probing (ctl s)"
  "epoch (ctl (pad_recovery_floor t s)) = epoch (ctl s)"
  "window_starts (ctl (pad_recovery_floor t s)) = window_starts (ctl s)"
  "paused (ctl (pad_recovery_floor t s)) = paused (ctl s)"
  "episode (pad_recovery_floor t s) = episode s" "window_id (pad_recovery_floor t s) = window_id s"
  by (auto simp: pad_recovery_floor_def Let_def split: option.splits)

lemma pad_recovery_floor_ctl:
  assumes "controller_inv (ctl s)"
  shows "controller_inv (ctl (pad_recovery_floor t s))"
    "next_eligible (ctl s) \<le> next_eligible (ctl (pad_recovery_floor t s))"
    "next_eligible (ctl (pad_recovery_floor t s)) \<le> next_eligible (ctl s) + second"
proof -
  have "admission_policy_validate (ctl_policy (ctl s)) = None" using assms by (simp add: controller_inv_def)
  note d = padding_duration_bounds [of s "next_eligible (ctl s)"] valid_policyD(6) [OF this]
  show "controller_inv (ctl (pad_recovery_floor t s))"
    "next_eligible (ctl s) \<le> next_eligible (ctl (pad_recovery_floor t s))"
    "next_eligible (ctl (pad_recovery_floor t s)) \<le> next_eligible (ctl s) + second"
    using assms d by (auto simp: pad_recovery_floor_def controller_inv_def Let_def split: option.splits)
qed

lemma pad_recovery_floor_valid:
  assumes inv: "controller_inv (ctl s)" and v: "0 \<le> recovery_jitter_version s" "recovery_jitter_version s \<le> 1"
    and p: "\<And>p. padding s = Some p \<Longrightarrow> cooling (ctl s) \<Longrightarrow>
      recovery_jitter_version s = 1 \<and> pad_floor p \<noteq> 0 \<and> pad_floor p \<le> pad_until p
      \<and> time_sub (pad_until p) (pad_floor p) \<le> second \<and> pad_until p = t \<and> t \<le> next_eligible (ctl s)"
  shows "valid_recovery_padding (pad_recovery_floor t s)"
proof -
  have "admission_policy_validate (ctl_policy (ctl s)) = None" using inv by (simp add: controller_inv_def)
  note j = valid_policyD(6) [OF this]
  note d = padding_duration_bounds [OF conjunct1 [OF j] conjunct2 [OF j], of "next_eligible (ctl s)"]
  have sub: "time_sub (x + padding_duration s (next_eligible (ctl s))) x \<le> second" for x
    using d by (simp add: time_sub_def)
  show ?thesis
  proof (cases "padding s")
    case None
    then show ?thesis using v j d sub
      by (simp add: pad_recovery_floor_def valid_recovery_padding_def Let_def)
  next
    case (Some q)
    show ?thesis
    proof (cases "cooling (ctl s)")
      case False
      then show ?thesis using v j by (simp add: pad_recovery_floor_def valid_recovery_padding_def Let_def)
    next
      case True
      then show ?thesis using Some v j d sub p [OF Some True]
        by (auto simp: pad_recovery_floor_def valid_recovery_padding_def Let_def)
    qed
  qed
qed

lemma complete_deadline:
  "cooling c \<Longrightarrow> \<not> cooling (complete now d r pr kd dl c) \<or> next_eligible c \<le> next_eligible (complete now d r pr kd dl c)"
proof -
  assume cool: "cooling c"
  show ?thesis
  proof (cases "pr \<and> probing c \<and> kd = ''completed''")
    case True
    then show ?thesis by (auto simp: complete_def complete_kind_def Let_def)
  next
    case False
    then show ?thesis using complete_stays [OF cool False] by blast
  qed
qed

lemma refund_start_facts [simp]:
  "controller_inv (refund_start c) = controller_inv c" "ctl_policy (refund_start c) = ctl_policy c"
  "cooling (refund_start c) = cooling c" "next_eligible (refund_start c) = next_eligible c"
  "probing (refund_start c) = probing c" "epoch (refund_start c) = epoch c" "paused (refund_start c) = paused c"
  by (simp_all add: refund_start_def)

lemma refund_start_bounds:
  "0 \<le> window_starts c \<Longrightarrow> 0 \<le> window_starts (refund_start c)" "window_starts (refund_start c) \<le> window_starts c"
  by (simp_all add: refund_start_def)

text \<open>
  A change of the controller keeps the pool's invariant when the controller keeps its own, spends
  no start, and neither the deadline nor the policy moves.
\<close>

lemma pool_inv_ctl:
  assumes "pool_inv s" "controller_inv c" "0 \<le> window_starts c" "window_starts c \<le> window_starts (ctl s)"
    "ctl_policy c = ctl_policy (ctl s)" "cooling c = cooling (ctl s)" "next_eligible c = next_eligible (ctl s)"
  shows "pool_inv (s\<lparr>ctl := c\<rparr>)"
  using assms by (simp add: pool_inv_def valid_recovery_padding_iff)

lemma pool_inv_frame [simp]:
  "pool_inv (s\<lparr>probe_id := i\<rparr>) = pool_inv s" "pool_inv (s\<lparr>probe_claim_at := t\<rparr>) = pool_inv s"
  "pool_inv (s\<lparr>episode := e\<rparr>) = pool_inv s" "pool_inv (s\<lparr>dispatch_needs_ready := b\<rparr>) = pool_inv s"
  "pool_inv (s\<lparr>dispatch_blocked_until := t\<rparr>) = pool_inv s" "pool_inv (s\<lparr>window_anchored := b\<rparr>) = pool_inv s"
  "pool_inv (s\<lparr>quiescing := b\<rparr>) = pool_inv s" "pool_inv (s\<lparr>persistence_wait := b\<rparr>) = pool_inv s"
  "pool_inv (s\<lparr>window_id := e\<rparr>) = pool_inv s" "pool_inv (s\<lparr>policy_revision := e\<rparr>) = pool_inv s"
  "pool_inv (s\<lparr>publication_reason := i\<rparr>) = pool_inv s" "pool_inv (s\<lparr>publication_next := x\<rparr>) = pool_inv s"
  "pool_inv (s\<lparr>publication_at := t\<rparr>) = pool_inv s" "pool_inv (s\<lparr>publication_after := e\<rparr>) = pool_inv s"
  "pool_inv (s\<lparr>after_scope := i\<rparr>) = pool_inv s"
  by (simp_all add: pool_inv_def valid_recovery_padding_iff)

lemma pool_inv_backoff:
  "pool_inv s \<Longrightarrow> 2 * second \<le> d \<Longrightarrow> d \<le> 30 * second \<Longrightarrow> pool_inv (s\<lparr>dispatch_backoff := d\<rparr>)"
  by (simp add: pool_inv_def valid_recovery_padding_iff)

lemma pool_invD:
  assumes "pool_inv s"
  shows "controller_inv (ctl s)" "valid_recovery_padding s" "0 \<le> window_starts (ctl s)"
    "window_starts (ctl s) \<le> sequence s" "sequence s \<le> max_int64"
    "2 * second \<le> dispatch_backoff s" "dispatch_backoff s \<le> 30 * second"
  using assms by (simp_all add: pool_inv_def)

lemma pool_inv_refund: "pool_inv s \<Longrightarrow> pool_inv (s\<lparr>ctl := refund_start (ctl s)\<rparr>)"
  by (intro pool_inv_ctl) (simp_all add: pool_invD refund_start_bounds)

lemma pool_inv_probing_off: "pool_inv s \<Longrightarrow> pool_inv (s\<lparr>ctl := (ctl s)\<lparr>probing := False\<rparr>\<rparr>)"
  by (simp add: pool_inv_ctl pool_invD probing_off_inv)

lemma doubled_backoff:
  "2 * second \<le> d \<Longrightarrow> d \<le> 30 * second \<Longrightarrow>
   2 * second \<le> min (30 * second) (wrap64 (d * 2)) \<and> min (30 * second) (wrap64 (d * 2)) \<le> 30 * second"
  by (simp add: int64_def)

lemma release_grant_inv: "pool_inv s \<Longrightarrow> pool_inv (release_grant a s)"
  using pool_inv_refund [of s] pool_inv_probing_off [of s] pool_inv_probing_off [of "s\<lparr>ctl := refund_start (ctl s)\<rparr>"]
  by (simp add: release_grant_def Let_def)

lemma dispatch_backpressure_inv:
  assumes inv: "pool_inv s"
  shows "pool_inv (dispatch_backpressure now s)"
  unfolding dispatch_backpressure_def Let_def
  using inv doubled_backoff [OF pool_invD(6,7) [OF inv]] pool_invD(6) [OF inv]
  by (intro pool_inv_backoff) simp_all

lemma apply_never_dispatched_inv: "pool_inv s \<Longrightarrow> pool_inv (apply_never_dispatched now a s)"
  by (simp add: apply_never_dispatched_def release_grant_inv dispatch_backpressure_inv)

lemma complete_attempt_inv:
  assumes inv: "pool_inv s"
  shows "pool_inv (complete_attempt now a out s)"
proof -
  define d where "d = complete_outcome now (dispatched_time a s) (reserved_time a s) (current_probe a s) out (ctl s)"
  define s1 where "s1 = (if \<not> cooling (ctl s) \<and> cooling d
    then s\<lparr>ctl := d, episode := wrap64 (episode s + 1)\<rparr> else s\<lparr>ctl := d\<rparr>)"
  note ci = pool_invD(1) [OF inv]
  have d: "controller_inv d" "ctl_policy d = ctl_policy (ctl s)" "window_starts d \<le> window_starts (ctl s)"
    "0 \<le> window_starts d"
    "cooling (ctl s) \<Longrightarrow> cooling d \<Longrightarrow> next_eligible (ctl s) \<le> next_eligible d"
    using complete_inv [OF ci] complete_window_starts pool_invD(3) [OF inv] complete_deadline
    by (auto simp: d_def complete_outcome_def)
  have s1: "ctl s1 = d" "padding s1 = padding s" "recovery_jitter_version s1 = recovery_jitter_version s"
    by (simp_all add: s1_def)
  have v: "valid_recovery_padding (pad_recovery_floor (next_eligible (ctl s)) s1)"
    using d pool_invD(2) [OF inv]
    by (intro pad_recovery_floor_valid) (auto simp: s1 valid_recovery_padding_iff)
  have "pool_inv (pad_recovery_floor (next_eligible (ctl s)) s1)"
    using inv v d(3,4) pad_recovery_floor_ctl(1) [of s1 "next_eligible (ctl s)"] d(1)
    by (simp add: pool_inv_def s1) (simp add: s1_def)
  moreover have "complete_attempt now a out s = (let s2 = pad_recovery_floor (next_eligible (ctl s)) s1
      in if current_probe a s \<and> \<not> probing (ctl s2) then s2\<lparr>probe_id := []\<rparr> else s2)"
    unfolding complete_attempt_def d_def [symmetric] Let_def s1_def by simp
  ultimately show ?thesis by (simp add: Let_def)
qed

lemma apply_outcome_inv: "pool_inv s \<Longrightarrow> pool_inv (apply_outcome now a out s)"
  unfolding apply_outcome_def Let_def
  by (simp add: apply_never_dispatched_inv complete_attempt_inv pool_inv_refund pool_inv_probing_off)

text \<open>What the effect of an outcome on the controller leaves alone.\<close>

definition same_grants :: "pool_state \<Rightarrow> pool_state \<Rightarrow> bool" where
  "same_grants s s' \<longleftrightarrow> outstanding s' = outstanding s \<and> start_intents s' = start_intents s
     \<and> sequence s' = sequence s \<and> request_retirements s' = request_retirements s
     \<and> pending_claim_limit s' = pending_claim_limit s \<and> pool_id s' = pool_id s
     \<and> generation s' = generation s \<and> probe_claim_at s' = probe_claim_at s \<and> window_id s' = window_id s"

lemma same_grants_stages:
  "same_grants s (release_grant a s)" "same_grants s (dispatch_backpressure now s)"
  "same_grants s (complete_attempt now a out s)"
  by (simp_all add: same_grants_def release_grant_def dispatch_backpressure_def complete_attempt_def Let_def)

lemma same_grants_trans: "same_grants s t \<Longrightarrow> same_grants t u \<Longrightarrow> same_grants s u"
  by (simp add: same_grants_def)

lemma apply_outcome_same: "same_grants s (apply_outcome now a out s)"
proof -
  have "same_grants s (apply_never_dispatched now a s)"
    using same_grants_stages(1) same_grants_trans [OF same_grants_stages(1,2)]
    unfolding apply_never_dispatched_def by auto
  then show ?thesis using same_grants_stages(3) by (simp add: apply_outcome_def Let_def) (simp add: same_grants_def)
qed

lemma apply_outcome_frame [simp]:
  "outstanding (apply_outcome now a out s) = outstanding s"
  "start_intents (apply_outcome now a out s) = start_intents s"
  "sequence (apply_outcome now a out s) = sequence s"
  "request_retirements (apply_outcome now a out s) = request_retirements s"
  "pending_claim_limit (apply_outcome now a out s) = pending_claim_limit s"
  "pool_id (apply_outcome now a out s) = pool_id s" "generation (apply_outcome now a out s) = generation s"
  "probe_claim_at (apply_outcome now a out s) = probe_claim_at s" "window_id (apply_outcome now a out s) = window_id s"
  using apply_outcome_same [of s now a out] by (simp_all add: same_grants_def)

text \<open>The permit lists.\<close>

lemma permit_index_Some:
  "permit_index i ps = Some k \<Longrightarrow> k < length ps \<and> p_id (ps ! k) = i \<and> (\<forall>j < k. p_id (ps ! j) \<noteq> i)"
proof (induction ps arbitrary: k)
  case (Cons p ps)
  then show ?case by (cases k) (auto split: if_splits simp: less_Suc_eq_0_disj)
qed simp

lemma permit_index_None: "permit_index i ps = None \<longleftrightarrow> i \<notin> p_id ` set ps"
  by (induction ps) auto

lemma drop_permit_facts:
  "set (drop_permit i rs) \<subseteq> set rs" "length (drop_permit i rs) \<le> length rs"
  "distinct (map permit_id rs) \<Longrightarrow> distinct (map permit_id (drop_permit i rs)) \<and> i \<notin> permit_id ` set (drop_permit i rs)"
  by (induction rs) auto

lemma pool_inv_drop_intent: "pool_inv s \<Longrightarrow> pool_inv (drop_intent i s)"
  using le_trans [OF drop_permit_facts(2)] by (simp add: drop_intent_def pool_inv_def valid_recovery_padding_iff)

lemma drop_intent_frame [simp]:
  "ctl (drop_intent i s) = ctl s" "outstanding (drop_intent i s) = outstanding s"
  "probe_id (drop_intent i s) = probe_id s" "probe_claim_at (drop_intent i s) = probe_claim_at s"
  "window_id (drop_intent i s) = window_id s" "sequence (drop_intent i s) = sequence s"
  "request_retirements (drop_intent i s) = request_retirements s" "pool_id (drop_intent i s) = pool_id s"
  "generation (drop_intent i s) = generation s" "window_anchored (drop_intent i s) = window_anchored s"
  "episode (drop_intent i s) = episode s" "padding (drop_intent i s) = padding s"
  "pending_claim_limit (drop_intent i s) = pending_claim_limit s"
  "start_intents (drop_intent i s) = drop_permit i (start_intents s)"
  by (simp_all add: drop_intent_def)

lemma unclaimed_update:
  "i < length ps \<Longrightarrow> (\<not> p_claimed q \<Longrightarrow> \<not> p_claimed (ps ! i)) \<Longrightarrow> unclaimed (ps[i := q]) \<le> unclaimed ps"
  unfolding unclaimed_def
proof (induction ps arbitrary: i)
  case (Cons p ps)
  then show ?case by (cases i) (auto intro: le_SucI)
qed simp

lemma unclaimed_append [simp]: "unclaimed (ps @ qs) = unclaimed ps + unclaimed qs"
  by (simp add: unclaimed_def)

lemma unclaimed_remove: "unclaimed (take i ps @ drop (Suc i) ps) \<le> unclaimed ps"
proof -
  have "unclaimed (drop (Suc i) ps) \<le> unclaimed (drop i ps)"
    by (cases "drop i ps") (auto simp: unclaimed_def drop_Suc tl_drop [symmetric])
  moreover have "unclaimed ps = unclaimed (take i ps) + unclaimed (drop i ps)"
    using unclaimed_append [of "take i ps" "drop i ps"] by simp
  ultimately show ?thesis by simp
qed

lemma pool_inv_outstanding:
  assumes "pool_inv s" "length ps \<le> length (outstanding s)" "unclaimed ps \<le> unclaimed (outstanding s)"
  shows "pool_inv (s\<lparr>outstanding := ps\<rparr>)"
  using assms by (simp add: pool_inv_def valid_recovery_padding_iff)

lemma window_anchor_inv:
  "pool_inv s \<Longrightarrow> pool_inv (s\<lparr>ctl := (let c = (ctl s)\<lparr>window_start := now\<rparr> in if \<not> cooling c then c\<lparr>epoch := now\<rparr> else c)\<rparr>)"
  by (intro pool_inv_ctl) (auto simp: pool_invD Let_def controller_inv_def dest: pool_invD(1))

lemma observe_claim_inv:
  assumes inv: "pool_inv s" and i: "i < length (outstanding s)"
  shows "pool_inv (fst (observe_claim now a i s))"
proof -
  let ?p = "(outstanding s ! i)\<lparr>p_claimed := True\<rparr>"
  define s1 where "s1 = (if pending_claim_limit s > 0 \<and> \<not> p_claimed (outstanding s ! i)
    then s\<lparr>outstanding := (outstanding s)[i := ?p]\<rparr> else s)"
  define s2 where "s2 = (drop_intent (permit_id a) s1)\<lparr>dispatch_backoff := 2 * second\<rparr>"
  define s3 where "s3 = (if permit_id a = probe_id s2 \<and> probe_claim_at s2 = 0 then s2\<lparr>probe_claim_at := now\<rparr> else s2)"
  have "pool_inv s1" using inv unclaimed_update [OF i, of ?p] by (simp add: s1_def pool_inv_outstanding)
  then have "pool_inv s2" unfolding s2_def by (intro pool_inv_backoff pool_inv_drop_intent) simp_all
  then have 3: "pool_inv s3" by (simp add: s3_def)
  have "fst (observe_claim now a i s) = (if res_window_id a = window_id s3 \<and> \<not> window_anchored s3
      then s3\<lparr>window_anchored := True, ctl := (let c = (ctl s3)\<lparr>window_start := now\<rparr> in if \<not> cooling c then c\<lparr>epoch := now\<rparr> else c)\<rparr>
      else s3)"
    unfolding observe_claim_def Let_def s1_def [symmetric] s2_def [symmetric] s3_def [symmetric] by simp
  then show ?thesis using 3 window_anchor_inv [of "s3\<lparr>window_anchored := True\<rparr>" now] by simp
qed

lemma length_remove: "i < length xs \<Longrightarrow> length (take i xs @ drop (Suc i) xs) = length xs - 1"
  by simp

lemma settle_permit_inv:
  assumes inv: "pool_inv s" and i: "i < length (outstanding s)"
  shows "pool_inv (settle_permit now a out i s)"
proof -
  define s1 where "s1 = drop_intent (permit_id a) s"
  define s2 where "s2 = (if p_applied (outstanding s1 ! i) then s1 else apply_outcome now a out s1)"
  let ?p = "(outstanding s1 ! i)\<lparr>p_applied := True, p_revision := settlement_revision a, p_awaiting_stop := stopped_at a = None\<rparr>"
  have 1: "pool_inv s1" unfolding s1_def by (rule pool_inv_drop_intent [OF inv])
  have 2: "pool_inv s2" "outstanding s2 = outstanding s" using 1 apply_outcome_inv by (simp_all add: s2_def s1_def)
  let ?s3 = "s2\<lparr>outstanding := take i (outstanding s2) @ drop (Suc i) (outstanding s2)\<rparr>"
  have 3: "pool_inv ?s3" using 2 i unclaimed_remove [of i "outstanding s2"] by (intro pool_inv_outstanding) simp_all
  have 4: "pool_inv (?s3\<lparr>request_retirements := request_retirements s2 @ [permit_id a]\<rparr>)"
    using 3 2 i by (auto simp: pool_inv_def valid_recovery_padding_iff)
  have 5: "pool_inv (s2\<lparr>outstanding := (outstanding s2)[i := ?p]\<rparr>)"
    using 2 i unclaimed_update [of i "outstanding s2" ?p] by (intro pool_inv_outstanding) (simp_all add: s1_def)
  have "settle_permit now a out i s = (if stopped_at a \<noteq> None then
      (if res_kind a = ''ordinary'' then ?s3\<lparr>request_retirements := request_retirements s2 @ [permit_id a]\<rparr> else ?s3)
      else s2\<lparr>outstanding := (outstanding s2)[i := ?p]\<rparr>)"
    unfolding settle_permit_def Let_def s1_def [symmetric] s2_def [symmetric] by simp
  then show ?thesis using 3 4 5 by (cases "stopped_at a"; cases "res_kind a = ''ordinary''") simp_all
qed

lemma observe_claim_outstanding:
  "outstanding (fst (observe_claim now a i s)) =
     (if pending_claim_limit s > 0 \<and> \<not> p_claimed (outstanding s ! i)
      then (outstanding s)[i := (outstanding s ! i)\<lparr>p_claimed := True\<rparr>] else outstanding s)"
  by (auto simp: observe_claim_def Let_def)

lemma observe_attempt_inv:
  assumes inv: "pool_inv s"
  shows "pool_inv (fst (observe_attempt now a s))"
proof (cases "permit_index (permit_id a) (outstanding s)")
  case None
  then show ?thesis using inv by (simp add: observe_attempt_def)
next
  case (Some i)
  note i = conjunct1 [OF permit_index_Some [OF Some]]
  define t where "t = (if claimed_at a = None then (s, False) else observe_claim now a i s)"
  have t: "pool_inv (fst t)" using inv i by (simp add: t_def observe_claim_inv)
  have l: "i < length (outstanding (fst t))" using i by (simp add: t_def observe_claim_outstanding)
  show ?thesis using inv t settle_permit_inv [OF t l]
    by (simp add: observe_attempt_def Some t_def [symmetric] split_beta split: option.splits)
qed

lemma refresh_window_inv:
  assumes inv: "pool_inv s"
  shows "pool_inv (refresh_window now s)"
proof -
  have "admission_policy_validate (ctl_policy (ctl s)) = None"
    using pool_invD(1) [OF inv] by (simp add: controller_inv_def)
  note b = valid_policyD(2) [OF this]
  have "pool_inv (s\<lparr>window_id := w, window_anchored := False, ctl := renew_window (ctl s)\<rparr>)" for w
    using inv b pool_invD(1,3) [OF inv] by (intro pool_inv_ctl) (auto simp: renew_window_def Let_def controller_inv_def)
  then show ?thesis using inv by (simp add: refresh_window_def)
qed

section \<open>Granting\<close>

text \<open>What a grant does to the state, on the branch that issues a permit.\<close>

definition granted_ctl :: "gtime \<Rightarrow> controller \<Rightarrow> controller \<Rightarrow> bool" where
  "granted_ctl now c c' \<longleftrightarrow> controller_inv c' \<and> ctl_policy c' = ctl_policy c \<and> cooling c' = cooling c
     \<and> probing c' = cooling c \<and> next_eligible c' = next_eligible c \<and> paused c' = paused c
     \<and> epoch c' = (if epoch c = 0 then now else epoch c) \<and> window_start c' = window_start c
     \<and> window_starts c' = (if window_requests (ctl_policy c) > 0 then window_starts c + 1 else window_starts c)"

lemma granted_ctl_total:
  assumes inv: "controller_inv c" and w: "0 \<le> window_starts c" "window_starts c < max_int64"
  shows "\<exists>d. start_unwindowed now c = Some d \<and> granted_ctl now c d"
proof -
  let ?c = "c\<lparr>ctl_policy := (ctl_policy c)\<lparr>window_requests := 0\<rparr>\<rparr>"
  have "controller_inv ?c" using inv by (simp add: controller_inv_def)
  then obtain d where
    d: "controller_start now ?c = Some d" "controller_inv d" "cooling d = cooling ?c" "probing d = cooling ?c"
      "ctl_policy d = ctl_policy ?c" "next_eligible d = next_eligible ?c" "paused d = paused ?c"
      "epoch d = (if epoch ?c = 0 then now else epoch ?c)" "window_starts d = window_starts (start_window now ?c)"
      "window_start d = window_start (start_window now ?c)"
    by (rule controller_start_spec [of ?c now])
  have "controller_inv (d\<lparr>ctl_policy := ctl_policy c\<rparr>)"
    using d(2) inv by (simp add: controller_inv_def d(5))
  moreover have "wrap64 (window_starts c + 1) = window_starts c + 1" using w by (simp add: int64_def)
  ultimately show ?thesis using d(3-) by (simp add: start_unwindowed_def d(1) granted_ctl_def Let_def)
qed

abbreviation fresh_permit :: "string \<Rightarrow> pool_permit" where
  "fresh_permit i \<equiv> \<lparr>p_id = i, p_revision = 0, p_applied = False, p_awaiting_stop = False, p_claimed = False\<rparr>"

definition granted :: "gtime \<Rightarrow> reservation \<Rightarrow> pool_state \<Rightarrow> pool_state \<Rightarrow> bool" where
  "granted now r s s' \<longleftrightarrow> granted_ctl now (ctl s) (ctl s')
     \<and> s' = s\<lparr>ctl := ctl s', sequence := sequence s + 1, outstanding := outstanding s @ [fresh_permit (permit_id r)],
              start_intents := start_intents s @ [r],
              probe_id := (if cooling (ctl s) then permit_id r else probe_id s),
              probe_claim_at := (if cooling (ctl s) then 0 else probe_claim_at s)\<rparr>"

lemma reserve_facts [simp]:
  "res_probe (reserve lib now kd item s) = cooling (ctl s)"
  "permit_id (reserve lib now kd item s) = new_sha1 lib (permit_identity s kd item)"
  "res_sequence (reserve lib now kd item s) = sequence s"
  "granted_at (reserve lib now kd item s) = now"
  "res_kind (reserve lib now kd item s) = (if kd = ''ordinary'' then kd else ''job'')"
  by (simp_all add: reserve_def Let_def)

lemma record_grant_spec:
  assumes inv: "pool_inv s" and q: "sequence s < max_int64"
    and r: "res_probe r = cooling (ctl s)"
  shows "\<exists>s'. record_grant now r (s\<lparr>sequence := sequence s + 1\<rparr>) = Some s' \<and> granted now r s s'"
proof -
  have w: "0 \<le> window_starts (ctl s)" "window_starts (ctl s) < max_int64"
    using pool_invD(3,4) [OF inv] q by auto
  obtain d where "start_unwindowed now (ctl s) = Some d" "granted_ctl now (ctl s) d"
    using granted_ctl_total [OF pool_invD(1) [OF inv] w] by blast
  then show ?thesis by (simp add: record_grant_def granted_def r)
qed

lemma grantedD:
  assumes "granted now r s s'"
  shows "granted_ctl now (ctl s) (ctl s')" "sequence s' = sequence s + 1"
    "outstanding s' = outstanding s @ [fresh_permit (permit_id r)]" "start_intents s' = start_intents s @ [r]"
    "probe_id s' = (if cooling (ctl s) then permit_id r else probe_id s)"
    "probe_claim_at s' = (if cooling (ctl s) then 0 else probe_claim_at s)"
    "request_retirements s' = request_retirements s" "dispatch_backoff s' = dispatch_backoff s"
    "pending_claim_limit s' = pending_claim_limit s" "padding s' = padding s"
    "recovery_jitter_version s' = recovery_jitter_version s" "pool_id s' = pool_id s" "generation s' = generation s"
proof -
  have g: "granted_ctl now (ctl s) (ctl s')"
    and e: "s' = s\<lparr>ctl := ctl s', sequence := sequence s + 1, outstanding := outstanding s @ [fresh_permit (permit_id r)],
              start_intents := start_intents s @ [r],
              probe_id := (if cooling (ctl s) then permit_id r else probe_id s),
              probe_claim_at := (if cooling (ctl s) then 0 else probe_claim_at s)\<rparr>"
    using assms by (simp_all only: granted_def)
  show "granted_ctl now (ctl s) (ctl s')" by (fact g)
  show "sequence s' = sequence s + 1"
    "outstanding s' = outstanding s @ [fresh_permit (permit_id r)]" "start_intents s' = start_intents s @ [r]"
    "probe_id s' = (if cooling (ctl s) then permit_id r else probe_id s)"
    "probe_claim_at s' = (if cooling (ctl s) then 0 else probe_claim_at s)"
    "request_retirements s' = request_retirements s" "dispatch_backoff s' = dispatch_backoff s"
    "pending_claim_limit s' = pending_claim_limit s" "padding s' = padding s"
    "recovery_jitter_version s' = recovery_jitter_version s" "pool_id s' = pool_id s" "generation s' = generation s"
    by (subst e, simp)+
qed

lemma granted_inv:
  assumes inv: "pool_inv s" and g: "granted now r s s'" "grantable now s" "sequence s < max_int64"
  shows "pool_inv s'"
proof -
  have room: "\<not> pending_claims_full s" "length (start_intents s) < maximum_start_intents"
    "length (request_retirements s) + length (outstanding s) < 1000"
    using g(2) by (auto simp: grantable_def split: if_splits)
  have "int (unclaimed (outstanding s)) < pending_claim_limit s"
    using room(1) inv by (simp add: pending_claims_full_def pool_inv_def)
  then show ?thesis using inv room g(3) grantedD [OF g(1)]
    by (auto simp: pool_inv_def valid_recovery_padding_iff granted_ctl_def unclaimed_def)
qed

text \<open>A grant never panics; it fails with the state only refreshed, or issues a permit.\<close>

lemma grant_cases:
  assumes inv: "pool_inv s"
  shows "(\<exists>e. grant lib now item s = Some (refresh_window now s, Inl e)) \<or>
    (\<exists>s' r. grant lib now item s = Some (s', Inr r) \<and> granted now r (refresh_window now s) s'
       \<and> grantable now (refresh_window now s) \<and> sequence (refresh_window now s) < max_int64
       \<and> \<not> grant_refused lib now item (refresh_window now s)
       \<and> \<not> list_ex (same_owner (grant_kind item) item) (start_intents (refresh_window now s))
       \<and> r = reserve lib now (grant_kind item) item
           ((refresh_window now s)\<lparr>sequence := sequence (refresh_window now s) + 1\<rparr>))"
proof -
  let ?s = "refresh_window now s"
  have inv': "pool_inv ?s" by (rule refresh_window_inv [OF inv])
  let ?r = "reserve lib now (grant_kind item) item (?s\<lparr>sequence := sequence ?s + 1\<rparr>)"
  show ?thesis
  proof (cases "grant_refused lib now item ?s \<or> list_ex (same_owner (grant_kind item) item) (start_intents ?s)")
    case True
    then show ?thesis by (auto simp: grant_def Let_def)
  next
    case False
    then have q: "grantable now ?s" "sequence ?s < max_int64"
      using pool_invD(5) [OF inv'] by (auto simp: grant_refused_def)
    obtain s' where s': "record_grant now ?r (?s\<lparr>sequence := sequence ?s + 1\<rparr>) = Some s'" "granted now ?r ?s s'"
      using record_grant_spec [OF inv' q(2), of ?r now] by auto
    have "grant lib now item s = Some (s', Inr ?r)" using False s'(1) by (simp add: grant_def Let_def)
    then show ?thesis using s'(2) q False by blast
  qed
qed

section \<open>Steps\<close>

text \<open>
  Every operation of the workflow on the state. An observed attempt is the ledger's copy of a
  reservation: the copy of the probe in flight says that it is a probe.
\<close>

inductive pool_step :: "uuid_lib \<Rightarrow> gtime \<Rightarrow> pool_state \<Rightarrow> pool_state \<Rightarrow> bool"
  for lib :: uuid_lib and now :: gtime where
  step_refresh: "pool_step lib now s (refresh_window now s)"
| step_grant: "grant lib now item s = Some (s', res) \<Longrightarrow> pool_step lib now s s'"
| step_observe: "(probing (ctl s) \<and> permit_id a = probe_id s \<longrightarrow> res_probe a) \<Longrightarrow> pool_step lib now s (fst (observe_attempt now a s))"
| step_acknowledge: "pool_step lib now s (acknowledge_starts rs s)"
| step_resume: "pool_step lib now s (resume_pool now s)"
| step_policy: "pool_step lib now s (set_policy p s)"
| step_quiesce: "pool_step lib now s (s\<lparr>quiescing := True\<rparr>)"
| step_persistence: "pool_step lib now s (s\<lparr>persistence_wait := b\<rparr>)"
| step_readiness: "pool_step lib now s (readiness_result now ok s)"
| step_publication: "pool_step lib now s (publication_result now req page s)"
| step_republish: "pool_step lib now s (s\<lparr>publication_after := 0\<rparr>)"
| step_select: "pool_step lib now s (s\<lparr>after_scope := x\<rparr>)"
| step_retire: "pool_step lib now s (s\<lparr>request_retirements := drop n (request_retirements s)\<rparr>)"

inductive pool_init :: "gtime \<Rightarrow> pool_state \<Rightarrow> bool" where
  "admission_policy_validate p = None \<Longrightarrow> limit \<in> {16, 32} \<Longrightarrow> 0 < t \<Longrightarrow>
   pool_init t ((new_pool_state pool gen p)\<lparr>pending_claim_limit := limit\<rparr>)"

abbreviation pool_reach :: "uuid_lib \<Rightarrow> gtime \<Rightarrow> pool_state \<Rightarrow> bool" where
  "pool_reach lib \<equiv> reach pool_init (pool_step lib)"

inductive_cases pool_initE: "pool_init t s"

lemma pool_init_inv: "pool_init t s \<Longrightarrow> pool_inv s"
  by (elim pool_initE)
    (auto simp: pool_inv_def new_pool_state_def new_controller_inv valid_recovery_padding_iff unclaimed_def
      new_controller_def valid_policyD(6) [THEN conjunct1] valid_policyD(6) [THEN conjunct2] dest: new_controller_inv)

lemma acknowledge_starts_inv: "pool_inv s \<Longrightarrow> pool_inv (acknowledge_starts rs s)"
  unfolding acknowledge_starts_def
  by (induction rs arbitrary: s) (simp_all add: pool_inv_drop_intent)

lemma resume_pool_inv:
  assumes inv: "pool_inv s"
  shows "pool_inv (resume_pool now s)"
proof (cases "probing (ctl s)")
  case True
  have "pool_inv (s\<lparr>ctl := (ctl s)\<lparr>paused := False\<rparr>\<rparr>)"
    using inv by (intro pool_inv_ctl) (simp_all add: pool_invD)
  then show ?thesis using True by (simp add: resume_pool_def Let_def)
next
  case False
  let ?c = "(ctl s)\<lparr>paused := False, cooling := True, next_eligible := max (next_eligible (ctl s)) now\<rparr>"
  let ?s = "s\<lparr>ctl := ?c, episode := wrap64 (episode s + 1), probe_id := []\<rparr>"
  have c: "controller_inv ?c" using pool_invD(1) [OF inv] by (simp add: controller_inv_def)
  have v: "valid_recovery_padding (pad_recovery_floor (next_eligible (ctl s)) ?s)"
    using c pool_invD(2) [OF inv] by (intro pad_recovery_floor_valid) (auto simp: valid_recovery_padding_iff)
  have "resume_pool now s = pad_recovery_floor (next_eligible (ctl s)) ?s"
    using False by (simp add: resume_pool_def Let_def)
  then show ?thesis using inv v pad_recovery_floor_ctl(1) [of ?s "next_eligible (ctl s)"] c
    by (simp add: pool_inv_def)
qed

lemma set_policy_inv:
  assumes inv: "pool_inv s"
  shows "pool_inv (set_policy p s)"
proof (cases "configure p (ctl s)")
  case (Inl e)
  then show ?thesis using inv by (simp add: set_policy_def)
next
  case (Inr c)
  have v: "admission_policy_validate p = None" and c: "c = (ctl s)\<lparr>ctl_policy := p, rate := start_rate p, successes := 0\<rparr>"
    using Inr by (simp_all add: configure_Inr_iff)
  show ?thesis using inv configure_inv [OF Inr pool_invD(1) [OF inv]] valid_policyD(6) [OF v]
    by (simp add: set_policy_def Inr) (simp add: pool_inv_def valid_recovery_padding_iff c)
qed

lemma readiness_result_inv:
  assumes inv: "pool_inv s"
  shows "pool_inv (readiness_result now ok s)"
  using inv doubled_backoff [OF pool_invD(6,7) [OF inv]] by (simp add: readiness_result_def pool_inv_backoff)

lemma publication_result_inv: "pool_inv s \<Longrightarrow> pool_inv (publication_result now req page s)"
  by (simp add: publication_result_def Let_def split: option.splits prod.splits)

lemma pool_step_inv:
  assumes "pool_step lib now s s'" "pool_inv s"
  shows "pool_inv s'"
  using assms
proof (induction rule: pool_step.induct)
  case (step_grant item s s' res)
  then show ?case using grant_cases [OF step_grant.prems, of lib now item]
    by (auto intro: refresh_window_inv granted_inv)
next
  case (step_retire s n)
  then show ?case by (auto simp: pool_inv_def valid_recovery_padding_iff)
qed (simp_all add: refresh_window_inv observe_attempt_inv acknowledge_starts_inv resume_pool_inv set_policy_inv
    readiness_result_inv publication_result_inv)

interpretation pool_bounds: timed_invariant pool_init "pool_step lib" "\<lambda>t s. pool_inv s" for lib
  by unfold_locales (auto intro: pool_init_inv pool_step_inv)

end
