(* ===== verification/Pool_Permits.thy ===== *)
theory Pool_Permits
  imports Pool_Invariant
begin

text \<open>
  Permit identities and the recovery probe. Under the documented assumption on \<open>google/uuid\<close>
  that a name-based UUID separates distinct names, no two permits of a pool ever share an
  identity; while a probe is in flight its permit is outstanding and unapplied; and observing
  its settlement always ends the probe.
\<close>

section \<open>Permit identities\<close>

definition issued :: "uuid_lib \<Rightarrow> pool_state \<Rightarrow> string \<Rightarrow> bool" where
  "issued lib s i \<longleftrightarrow> (\<exists>k rest. k \<le> sequence s
     \<and> i = new_sha1 lib (pool_id s @ nul @ show_int (generation s) @ nul @ show_int k @ nul @ rest))"

definition ids_inv :: "uuid_lib \<Rightarrow> pool_state \<Rightarrow> bool" where
  "ids_inv lib s \<longleftrightarrow> distinct (map p_id (outstanding s) @ request_retirements s)
     \<and> distinct (map permit_id (start_intents s))
     \<and> permit_id ` set (start_intents s) \<subseteq> p_id ` set (outstanding s)
     \<and> (\<forall>i \<in> p_id ` set (outstanding s) \<union> set (request_retirements s). issued lib s i)"

lemma show_int_no_nul: "char_of (0 :: nat) \<notin> set (show_int k)"
proof -
  have "\<not> is_digit (char_of (0 :: nat))" by (simp add: is_digit_def)
  then have "char_of (0 :: nat) \<notin> set (show_nat n)" for n
    using conjunct1 [OF conjunct2 [OF show_nat_facts [of n]]] unfolding list_all_iff by blast
  moreover have "char_of (0 :: nat) \<noteq> CHR ''-''"
  proof
    assume "char_of (0 :: nat) = CHR ''-''"
    from arg_cong [OF this, of "of_char :: char \<Rightarrow> nat"] show False by simp
  qed
  ultimately show ?thesis by (simp add: show_int_def)
qed

lemma show_nat_inj: "show_nat m = show_nat n \<Longrightarrow> m = n"
  by (metis parse_nat_show_nat option.inject)

lemma show_int_inj:
  assumes "show_int k = show_int l"
  shows "k = l"
proof -
  have hd: "hd (show_nat n) \<noteq> CHR ''-''" for n using show_nat_facts by blast
  then have "(k < 0) = (l < 0)" using assms unfolding show_int_def by (metis list.sel(1))
  then show ?thesis using assms by (auto simp: show_int_def dest: show_nat_inj split: if_splits)
qed

lemma nul_separates:
  assumes "show_int k @ nul @ r = show_int l @ nul @ r'"
  shows "k = l"
proof -
  have tw: "takeWhile (\<lambda>c. c \<noteq> char_of (0 :: nat)) (show_int k @ nul @ r) = show_int k" for k r
  proof -
    have "x \<noteq> char_of (0 :: nat)" if "x \<in> set (show_int k)" for x using that show_int_no_nul [of k] by metis
    then show ?thesis by (subst takeWhile_append2) simp_all
  qed
  from arg_cong [OF assms, of "takeWhile (\<lambda>c. c \<noteq> char_of (0 :: nat))"] have "show_int k = show_int l"
    unfolding tw .
  then show ?thesis by (rule show_int_inj)
qed

lemma fresh_id:
  assumes inj: "inj (new_sha1 lib)" and i: "issued lib s i"
  shows "i \<noteq> new_sha1 lib (permit_identity (s\<lparr>sequence := sequence s + 1\<rparr>) kd item)"
proof
  obtain rest where new: "permit_identity (s\<lparr>sequence := sequence s + 1\<rparr>) kd item =
      pool_id s @ nul @ show_int (generation s) @ nul @ show_int (sequence s + 1) @ nul @ rest"
    by (cases "kd = ''ordinary''") (simp_all add: permit_identity_def Let_def)
  obtain k r where k: "k \<le> sequence s"
    "i = new_sha1 lib (pool_id s @ nul @ show_int (generation s) @ nul @ show_int k @ nul @ r)"
    using i by (auto simp: issued_def)
  assume "i = new_sha1 lib (permit_identity (s\<lparr>sequence := sequence s + 1\<rparr>) kd item)"
  then have "pool_id s @ nul @ show_int (generation s) @ nul @ show_int k @ nul @ r =
      pool_id s @ nul @ show_int (generation s) @ nul @ show_int (sequence s + 1) @ nul @ rest"
    unfolding k(2) new by (rule injD [OF inj])
  then have "show_int k @ nul @ r = show_int (sequence s + 1) @ nul @ rest" by simp
  then have "k = sequence s + 1" by (rule nul_separates)
  then show False using k(1) by simp
qed

lemma issued_new: "issued lib (s\<lparr>sequence := sequence s + 1\<rparr>)
    (new_sha1 lib (permit_identity (s\<lparr>sequence := sequence s + 1\<rparr>) kd item))"
  by (auto simp: issued_def permit_identity_def Let_def)

lemma issued_mono:
  "issued lib s i \<Longrightarrow> sequence s \<le> sequence s' \<Longrightarrow> pool_id s' = pool_id s \<Longrightarrow> generation s' = generation s \<Longrightarrow> issued lib s' i"
  by (auto simp: issued_def intro: order_trans)

text \<open>The invariant reads only the lists of identities and the numbers of the pool.\<close>

lemma ids_inv_cong:
  assumes "map p_id (outstanding s') = map p_id (outstanding s)" "request_retirements s' = request_retirements s"
    "start_intents s' = start_intents s" "sequence s' = sequence s" "pool_id s' = pool_id s"
    "generation s' = generation s"
  shows "ids_inv lib s' = ids_inv lib s"
proof -
  have "p_id ` set (outstanding s') = p_id ` set (outstanding s)" using arg_cong [OF assms(1), of set] by simp
  then show ?thesis using assms by (simp add: ids_inv_def issued_def)
qed

lemma drop_permit_ids:
  "distinct (map permit_id rs) \<Longrightarrow> distinct (map permit_id (drop_permit i rs))
     \<and> permit_id ` set (drop_permit i rs) = permit_id ` set rs - {i}"
proof (induction rs)
  case (Cons r rs)
  then show ?case by (cases "permit_id r = i") (simp_all, blast+)
qed simp

lemma ids_drop_intent:
  assumes "ids_inv lib s"
  shows "ids_inv lib (drop_intent i s)"
proof -
  have i: "issued lib (drop_intent i s) j = issued lib s j" for j by (simp add: issued_def)
  have "distinct (map permit_id (start_intents s))" using assms by (simp add: ids_inv_def)
  from drop_permit_ids [OF this, of i] show ?thesis using assms by (simp add: ids_inv_def i subset_iff)
qed

lemma map_id_update: "p_id q = p_id (ps ! i) \<Longrightarrow> map p_id (ps[i := q]) = map p_id ps"
  by (simp add: map_update list_update_id nth_equalityI) (metis list_update_beyond list_update_id map_update not_le nth_map)

lemma observe_claim_frame [simp]:
  "map p_id (outstanding (fst (observe_claim now a i s))) = map p_id (outstanding s)"
  "request_retirements (fst (observe_claim now a i s)) = request_retirements s"
  "start_intents (fst (observe_claim now a i s)) = drop_permit (permit_id a) (start_intents s)"
  "sequence (fst (observe_claim now a i s)) = sequence s" "pool_id (fst (observe_claim now a i s)) = pool_id s"
  "generation (fst (observe_claim now a i s)) = generation s" "probe_id (fst (observe_claim now a i s)) = probe_id s"
  "pending_claim_limit (fst (observe_claim now a i s)) = pending_claim_limit s"
  by (auto simp: observe_claim_def Let_def map_id_update)

lemma ids_observe_claim: "ids_inv lib s \<Longrightarrow> ids_inv lib (fst (observe_claim now a i s))"
  using ids_drop_intent [of lib s "permit_id a"]
  by (subst ids_inv_cong [of _ "drop_intent (permit_id a) s"]) simp_all

lemma distinct_remove:
  assumes "distinct (xs @ ys)" "i < length xs"
  shows "distinct (take i xs @ drop (Suc i) xs @ ys)" "distinct (take i xs @ drop (Suc i) xs @ ys @ [xs ! i])"
    "set (take i xs @ drop (Suc i) xs) = set xs - {xs ! i}"
proof -
  have "distinct ((take i xs @ xs ! i # drop (Suc i) xs) @ ys)"
    using assms id_take_nth_drop [of i xs] by metis
  then have d: "distinct (take i xs @ drop (Suc i) xs @ ys)" "xs ! i \<notin> set (take i xs @ drop (Suc i) xs @ ys)"
    by auto
  then show "distinct (take i xs @ drop (Suc i) xs @ ys)" by blast
  from d show "distinct (take i xs @ drop (Suc i) xs @ ys @ [xs ! i])" by auto
  have "set xs = set (take i xs @ xs ! i # drop (Suc i) xs)" using assms id_take_nth_drop [of i xs] by metis
  then show "set (take i xs @ drop (Suc i) xs) = set xs - {xs ! i}" using d(2) by auto
qed

lemma ids_settle_permit:
  assumes ids: "ids_inv lib s" and i: "i < length (outstanding s)" "p_id (outstanding s ! i) = permit_id a"
  shows "ids_inv lib (settle_permit now a out i s)"
proof -
  let ?xs = "map p_id (outstanding s)" and ?s1 = "drop_intent (permit_id a) s"
  let ?t = "settle_permit now a out i s"
  have ids1: "ids_inv lib ?s1" by (rule ids_drop_intent [OF ids])
  have frame: "sequence ?t = sequence s" "pool_id ?t = pool_id s" "generation ?t = generation s"
    "start_intents ?t = drop_permit (permit_id a) (start_intents s)"
    by (simp_all add: settle_permit_def Let_def)
  show ?thesis
  proof (cases "stopped_at a")
    case None
    then show ?thesis using ids1
      by (subst ids_inv_cong [of _ ?s1]) (simp_all add: frame settle_permit_def Let_def map_id_update)
  next
    case (Some x)
    have o: "map p_id (outstanding ?t) = take i ?xs @ drop (Suc i) ?xs"
      using Some by (simp add: settle_permit_def Let_def take_map drop_map)
    have r: "request_retirements ?t = request_retirements s \<or> request_retirements ?t = request_retirements s @ [?xs ! i]"
      using Some i by (simp add: settle_permit_def Let_def)
    have d: "distinct (?xs @ request_retirements s)" using ids by (simp add: ids_inv_def)
    have set_o: "p_id ` set (outstanding ?t) = p_id ` set (outstanding s) - {permit_id a}"
      using distinct_remove(3) [OF d] i arg_cong [OF o, of set] by simp
    have set_r: "set (request_retirements ?t) \<subseteq> set (request_retirements s) \<union> {permit_id a}"
      using r i by auto
    have a_in: "permit_id a \<in> p_id ` set (outstanding s)" using i by (metis image_eqI nth_mem)
    have "distinct (map p_id (outstanding ?t) @ request_retirements ?t)"
      using distinct_remove(1,2) [OF d, of i] r i by (auto simp: o)
    moreover have "distinct (map permit_id (start_intents s))"
      and sub: "permit_id ` set (start_intents s) \<subseteq> p_id ` set (outstanding s)"
      using ids by (simp_all only: ids_inv_def)
    note dp = drop_permit_ids [OF this(1), of "permit_id a"]
    have "distinct (map permit_id (start_intents ?t))" unfolding frame by (rule conjunct1 [OF dp])
    moreover have "permit_id ` set (start_intents ?t) \<subseteq> p_id ` set (outstanding ?t)"
      unfolding frame set_o conjunct2 [OF dp] by (rule Diff_mono [OF sub order_refl])
    moreover have "\<forall>j \<in> p_id ` set (outstanding ?t) \<union> set (request_retirements ?t). issued lib ?t j"
    proof -
      have iss: "issued lib ?t j = issued lib s j" for j by (simp add: issued_def frame)
      have "p_id ` set (outstanding ?t) \<union> set (request_retirements ?t)
          \<subseteq> p_id ` set (outstanding s) \<union> set (request_retirements s)"
        unfolding set_o using set_r a_in by blast
      moreover have "\<forall>j \<in> p_id ` set (outstanding s) \<union> set (request_retirements s). issued lib s j"
        using ids unfolding ids_inv_def by (elim conjE)
      ultimately show ?thesis unfolding iss by blast
    qed
    ultimately show ?thesis by (simp add: ids_inv_def)
  qed
qed

lemma ids_observe:
  assumes ids: "ids_inv lib s"
  shows "ids_inv lib (fst (observe_attempt now a s))"
proof (cases "permit_index (permit_id a) (outstanding s)")
  case None
  then show ?thesis using ids by (simp add: observe_attempt_def)
next
  case (Some i)
  note i = permit_index_Some [OF Some]
  define t where "t = (if claimed_at a = None then (s, False) else observe_claim now a i s)"
  have t: "ids_inv lib (fst t)" using ids by (simp add: t_def ids_observe_claim)
  have "map p_id (outstanding (fst t)) = map p_id (outstanding s)" by (simp add: t_def)
  then have l: "i < length (outstanding (fst t))" "p_id (outstanding (fst t) ! i) = permit_id a"
    using i by (metis length_map) (metis \<open>map p_id (outstanding (fst t)) = map p_id (outstanding s)\<close> i length_map nth_map)
  show ?thesis using ids t ids_settle_permit [OF t l]
    by (simp add: observe_attempt_def Some t_def [symmetric] split_beta split: option.splits)
qed

lemma refresh_window_frame [simp]:
  "outstanding (refresh_window now s) = outstanding s" "start_intents (refresh_window now s) = start_intents s"
  "sequence (refresh_window now s) = sequence s" "pool_id (refresh_window now s) = pool_id s"
  "generation (refresh_window now s) = generation s" "request_retirements (refresh_window now s) = request_retirements s"
  "probe_id (refresh_window now s) = probe_id s" "probe_claim_at (refresh_window now s) = probe_claim_at s"
  "cooling (ctl (refresh_window now s)) = cooling (ctl s)" "probing (ctl (refresh_window now s)) = probing (ctl s)"
  "epoch (ctl (refresh_window now s)) = epoch (ctl s)" "next_eligible (ctl (refresh_window now s)) = next_eligible (ctl s)"
  "ctl_policy (ctl (refresh_window now s)) = ctl_policy (ctl s)" "paused (ctl (refresh_window now s)) = paused (ctl s)"
  by (simp_all add: refresh_window_def renew_window_def Let_def)

lemma ids_granted:
  assumes ids: "ids_inv lib s" and inj: "inj (new_sha1 lib)"
    and g: "granted now r s s'" and r: "permit_id r = new_sha1 lib (permit_identity (s\<lparr>sequence := sequence s + 1\<rparr>) kd item)"
  shows "ids_inv lib s'"
proof -
  note g = grantedD [OF g]
  have issued': "issued lib s' (permit_id r)"
    using issued_new [of lib s kd item] unfolding r by (auto simp: issued_def g)
  have old: "issued lib s' i \<and> i \<noteq> permit_id r" if "issued lib s i" for i
    using that fresh_id [OF inj that] unfolding r by (auto intro: issued_mono simp: g)
  have iss: "issued lib s i" if "i \<in> p_id ` set (outstanding s) \<union> set (request_retirements s)" for i
    using ids that by (simp only: ids_inv_def)
  have new: "permit_id r \<notin> p_id ` set (outstanding s)" "permit_id r \<notin> set (request_retirements s)"
    "permit_id r \<notin> permit_id ` set (start_intents s)"
    using old iss ids unfolding ids_inv_def by blast+
  show ?thesis unfolding ids_inv_def g
    using ids new iss old issued' by (auto simp: ids_inv_def)
qed

lemma ids_step:
  assumes "pool_step lib now s s'" "pool_inv s" "ids_inv lib s" "inj (new_sha1 lib)"
  shows "ids_inv lib s'"
  using assms(1-3)
proof (induction rule: pool_step.induct)
  case (step_grant item s s' res)
  have ids: "ids_inv lib (refresh_window now s)"
    using step_grant.prems(2) by (subst ids_inv_cong [of _ s]) simp_all
  from grant_cases [OF step_grant.prems(1), of lib now item] show ?case
  proof (elim disjE exE conjE)
    fix t r
    assume "grant lib now item s = Some (t, Inr r)" "granted now r (refresh_window now s) t"
      "r = reserve lib now (grant_kind item) item ((refresh_window now s)\<lparr>sequence := sequence (refresh_window now s) + 1\<rparr>)"
    moreover from this(1) step_grant.hyps have "s' = t" by simp
    ultimately show ?case using ids_granted [OF ids assms(4)] reserve_facts(2) by metis
  qed (use ids step_grant.hyps in simp)
next
  case (step_acknowledge s rs)
  then show ?case unfolding acknowledge_starts_def
    by (induction rs arbitrary: s) (simp_all add: ids_drop_intent pool_inv_drop_intent)
next
  case (step_retire s n)
  then show ?case using set_drop_subset [of n "request_retirements s"]
    by (auto simp: ids_inv_def issued_def distinct_drop dest: in_set_dropD)
next
  case (step_publication s req page)
  then show ?case
    by (subst ids_inv_cong [of _ s]) (simp_all add: publication_result_def Let_def split: option.splits prod.splits)
next
  case (step_refresh s)
  then show ?case by (subst ids_inv_cong [of _ s]) simp_all
next
  case (step_resume s)
  then show ?case by (subst ids_inv_cong [of _ s]) (simp_all add: resume_pool_def Let_def)
next
  case (step_policy s p)
  then show ?case by (subst ids_inv_cong [of _ s]) (simp_all add: set_policy_def split: sum.splits)
next
  case (step_readiness s ok)
  then show ?case by (subst ids_inv_cong [of _ s]) (simp_all add: readiness_result_def)
qed (simp_all add: ids_observe ids_inv_cong [of "s\<lparr>quiescing := b\<rparr>" s for s b] ids_inv_cong [of "s\<lparr>persistence_wait := b\<rparr>" s for s b]
    ids_inv_cong [of "s\<lparr>publication_after := n\<rparr>" s for s n] ids_inv_cong [of "s\<lparr>after_scope := x\<rparr>" s for s x])

lemma ids_init: "pool_init t s \<Longrightarrow> ids_inv lib s"
  by (elim pool_initE) (simp add: ids_inv_def new_pool_state_def)

interpretation pool_ids: timed_invariant pool_init "pool_step lib"
    "\<lambda>t s. pool_inv s \<and> (inj (new_sha1 lib) \<longrightarrow> ids_inv lib s)" for lib
  by unfold_locales (auto intro: pool_init_inv pool_step_inv ids_init ids_step)

section \<open>The life of a probe\<close>

text \<open>
  Readings of the clock bound the epoch and the probe's claim; while the probe is in flight its
  claim is not older than the epoch, and its permit is outstanding with no outcome applied.
\<close>

definition probe_inv :: "gtime \<Rightarrow> pool_state \<Rightarrow> bool" where
  "probe_inv t s \<longleftrightarrow> 0 < t \<and> epoch (ctl s) \<le> t \<and> probe_claim_at s \<le> t
     \<and> (\<forall>p \<in> set (outstanding s). \<not> p_applied p \<longrightarrow> p_revision p = 0)
     \<and> (probing (ctl s) \<longrightarrow> (probe_claim_at s = 0 \<or> epoch (ctl s) \<le> probe_claim_at s)
          \<and> (\<exists>p \<in> set (outstanding s). p_id p = probe_id s \<and> \<not> p_applied p))"

lemma complete_other:
  assumes "controller_inv c"
  shows "probing (complete now d r False kd dl c) = probing c" "epoch (complete now d r False kd dl c) = epoch c"
proof -
  have "\<not> cooling c \<Longrightarrow> \<not> probing c" using assms by (auto simp: controller_inv_def)
  then show "probing (complete now d r False kd dl c) = probing c" "epoch (complete now d r False kd dl c) = epoch c"
    by (auto simp: complete_def complete_kind_def Let_def)
qed

lemma complete_epoch:
  "epoch (complete now d r pr kd dl c) =
     (if kd = ''completed'' \<and> pr then d
      else if kd = ''completed'' \<and> \<not> cooling c \<and> probing c then now else epoch c)"
proof -
  have "epoch (complete now d r pr kd dl c) = epoch (complete_kind now d r pr kd dl c)"
    by (simp add: complete_def Let_def)
  also have "\<dots> = (if kd = ''completed'' \<and> pr then d
      else if kd = ''completed'' \<and> \<not> cooling c \<and> probing c then now else epoch c)"
    by (cases "kd = ''completed''") (simp_all add: complete_kind_def Let_def)
  finally show ?thesis .
qed

lemma complete_attempt_frame [simp]:
  "probing (ctl (complete_attempt now a out s)) =
     probing (complete_outcome now (dispatched_time a s) (reserved_time a s) (current_probe a s) out (ctl s))"
  "epoch (ctl (complete_attempt now a out s)) =
     epoch (complete_outcome now (dispatched_time a s) (reserved_time a s) (current_probe a s) out (ctl s))"
  "probe_id (complete_attempt now a out s) =
     (if current_probe a s \<and> \<not> probing (ctl (complete_attempt now a out s)) then [] else probe_id s)"
  by (auto simp: complete_attempt_def Let_def)

text \<open>An outcome of another attempt leaves the probe alone.\<close>

lemma apply_outcome_other:
  assumes inv: "pool_inv s" and other: "\<not> current_probe a s"
  shows "probing (ctl (apply_outcome now a out s)) = probing (ctl s)"
    "probe_id (apply_outcome now a out s) = probe_id s" "epoch (ctl (apply_outcome now a out s)) = epoch (ctl s)"
  using other complete_other [OF pool_invD(1) [OF inv]]
  by (auto simp: apply_outcome_def apply_never_dispatched_def release_grant_def dispatch_backpressure_def
      complete_outcome_def Let_def)

text \<open>The outcome of the probe ends it, whatever it is.\<close>

lemma apply_outcome_probe:
  assumes inv: "pool_inv s" and probe: "current_probe a s" and flight: "probing (ctl s)"
    and claim: "probe_claim_at s = 0 \<or> epoch (ctl s) \<le> probe_claim_at s"
  shows "\<not> probing (ctl (apply_outcome now a out s))"
proof -
  have cool: "cooling (ctl s)" using pool_invD(1) [OF inv] flight by (simp add: controller_inv_def)
  have "epoch (ctl s) \<le> dispatched_time a s" using probe claim by (auto simp: dispatched_time_def)
  then have "\<not> probing (ctl (complete_attempt now a out s))"
    using probe complete_ends_probe by (simp add: complete_outcome_def)
  then show ?thesis using probe cool
    by (auto simp: apply_outcome_def apply_never_dispatched_def release_grant_def dispatch_backpressure_def Let_def)
qed

lemma release_grant_ctl [simp]:
  "epoch (ctl (release_grant a s)) = epoch (ctl s)" "ctl (dispatch_backpressure now s) = ctl s"
  by (simp_all add: release_grant_def dispatch_backpressure_def Let_def)

lemma apply_outcome_epoch:
  assumes "epoch (ctl s) \<le> now" "probe_claim_at s \<le> now"
  shows "epoch (ctl (apply_outcome now a out s)) \<le> now"
proof -
  have "epoch (ctl (complete_attempt now a out s)) \<le> now"
    using assms by (simp add: complete_outcome_def complete_epoch dispatched_time_def)
  then show ?thesis using assms by (simp add: apply_outcome_def apply_never_dispatched_def Let_def)
qed

lemma survives:
  assumes "p \<in> set ps" "p \<noteq> ps ! i"
  shows "p \<in> set (ps[i := q])" "p \<in> set (take i ps @ drop (Suc i) ps)"
proof -
  obtain j where j: "j < length ps" "p = ps ! j" "j \<noteq> i" using assms by (metis in_set_conv_nth)
  then have "ps[i := q] ! j = p" "j < length (ps[i := q])" by simp_all
  then show "p \<in> set (ps[i := q])" by (metis nth_mem)
  show "p \<in> set (take i ps @ drop (Suc i) ps)"
  proof (cases "j < i")
    case True
    then have "take i ps ! j = p" "j < length (take i ps)" using j by simp_all
    then show ?thesis by (metis UnI1 nth_mem set_append)
  next
    case False
    then have "drop (Suc i) ps ! (j - Suc i) = p" "j - Suc i < length (drop (Suc i) ps)" using j by auto
    then show ?thesis by (metis UnI2 nth_mem set_append)
  qed
qed

text \<open>A claim keeps the applied outcomes of the permits.\<close>

lemma claim_survives:
  assumes "p \<in> set (outstanding s)"
  shows "\<exists>q \<in> set (outstanding (fst (observe_claim now a i s))). p_id q = p_id p \<and> p_applied q = p_applied p"
proof (cases "p = outstanding s ! i \<and> i < length (outstanding s)")
  case True
  then have "p\<lparr>p_claimed := True\<rparr> \<in> set ((outstanding s)[i := (outstanding s ! i)\<lparr>p_claimed := True\<rparr>])"
    by (simp add: set_update_memI)
  then show ?thesis using assms by (auto simp: observe_claim_outstanding intro: bexI [of _ p] bexI [of _ "p\<lparr>p_claimed := True\<rparr>"])
next
  case False
  let ?q = "(outstanding s ! i)\<lparr>p_claimed := True\<rparr>"
  have "p \<in> set ((outstanding s)[i := ?q])"
  proof (cases "i < length (outstanding s)")
    case True
    with False have "p \<noteq> outstanding s ! i" by simp
    with assms show ?thesis by (rule survives(1))
  qed (use assms in \<open>simp add: not_less list_update_beyond\<close>)
  then show ?thesis using assms by (auto simp: observe_claim_outstanding)
qed

lemma claim_set:
  assumes "q \<in> set (outstanding (fst (observe_claim now a i s)))"
  shows "\<exists>p \<in> set (outstanding s). p_applied q = p_applied p \<and> p_revision q = p_revision p"
proof (cases "q \<in> set (outstanding s)")
  case False
  then have "i < length (outstanding s)" "q = (outstanding s ! i)\<lparr>p_claimed := True\<rparr>"
    using assms set_update_subset_insert [of "outstanding s" i "(outstanding s ! i)\<lparr>p_claimed := True\<rparr>"]
    by (auto simp: observe_claim_outstanding split: if_splits) (metis list_update_beyond not_le)
  then show ?thesis by (intro bexI [of _ "outstanding s ! i"]) simp_all
qed auto

lemma claim_clock:
  "probing (ctl (fst (observe_claim now a i s))) = probing (ctl s)"
  "cooling (ctl (fst (observe_claim now a i s))) = cooling (ctl s)"
  "epoch (ctl (fst (observe_claim now a i s))) = epoch (ctl s) \<or>
     \<not> cooling (ctl s) \<and> epoch (ctl (fst (observe_claim now a i s))) = now"
  "probe_claim_at (fst (observe_claim now a i s)) =
     (if permit_id a = probe_id s \<and> probe_claim_at s = 0 then now else probe_claim_at s)"
  by (auto simp: observe_claim_def Let_def)

lemma probe_claim:
  assumes inv: "pool_inv s" and probe: "probe_inv now s"
  shows "probe_inv now (fst (observe_claim now a i s))"
proof -
  let ?t = "fst (observe_claim now a i s)"
  have cool: "probing (ctl s) \<Longrightarrow> cooling (ctl s)" using pool_invD(1) [OF inv] by (simp add: controller_inv_def)
  have clock: "epoch (ctl ?t) \<le> now" "probe_claim_at ?t \<le> now"
    "probing (ctl s) \<Longrightarrow> probe_claim_at ?t = 0 \<or> epoch (ctl ?t) \<le> probe_claim_at ?t"
    using probe claim_clock [of now a i s] cool by (auto simp: probe_inv_def)
  have "\<forall>q \<in> set (outstanding ?t). \<not> p_applied q \<longrightarrow> p_revision q = 0"
    using probe claim_set [of _ now a i s] by (metis probe_inv_def)
  moreover have "\<exists>q \<in> set (outstanding ?t). p_id q = probe_id s \<and> \<not> p_applied q" if "probing (ctl s)"
    using that probe claim_survives [of _ s now a i] by (metis probe_inv_def)
  ultimately show ?thesis using probe clock by (simp add: probe_inv_def claim_clock(1))
qed

text \<open>Settling a permit: the probe's own settlement ends the probe, any other leaves it.\<close>

lemma settle_frame:
  "ctl (settle_permit now a out i s) =
     ctl (if p_applied (outstanding s ! i) then s else apply_outcome now a out (drop_intent (permit_id a) s))"
  "probe_id (settle_permit now a out i s) =
     probe_id (if p_applied (outstanding s ! i) then s else apply_outcome now a out (drop_intent (permit_id a) s))"
  "probe_claim_at (settle_permit now a out i s) = probe_claim_at s"
  "outstanding (settle_permit now a out i s) = (if stopped_at a = None then (outstanding s)[i := (outstanding s ! i)
       \<lparr>p_applied := True, p_revision := settlement_revision a, p_awaiting_stop := True\<rparr>]
     else take i (outstanding s) @ drop (Suc i) (outstanding s))"
  by (auto simp: settle_permit_def Let_def)

lemma settle_set:
  assumes "q \<in> set (outstanding (settle_permit now a out i s))"
  shows "q \<in> set (outstanding s) \<or> p_applied q"
proof (cases "stopped_at a = None")
  case True
  let ?p = "(outstanding s ! i)\<lparr>p_applied := True, p_revision := settlement_revision a, p_awaiting_stop := True\<rparr>"
  have "q \<in> insert ?p (set (outstanding s))"
    using assms True set_update_subset_insert [of "outstanding s" i ?p] by (auto simp: settle_frame(4))
  then show ?thesis by auto
next
  case False
  then show ?thesis using assms by (auto simp: settle_frame(4) dest: in_set_takeD in_set_dropD)
qed

lemma settle_survives:
  assumes "p \<in> set (outstanding s)" "p \<noteq> outstanding s ! i"
  shows "p \<in> set (outstanding (settle_permit now a out i s))"
  using survives [OF assms] by (cases "stopped_at a = None") (simp_all only: settle_frame(4) if_True if_False simp_thms)

lemma apply_outcome_idle_probe:
  assumes "pool_inv s" "\<not> probing (ctl s)"
  shows "\<not> probing (ctl (apply_outcome now a out s))"
proof (cases "current_probe a s")
  case True
  have "\<not> probing (complete_kind now d r True kd dl (ctl s))" for d r kd dl
    using assms(2) by (simp add: complete_kind_def Let_def)
  then have "\<not> probing (ctl (complete_attempt now a out s))"
    using True by (simp add: complete_outcome_def complete_def Let_def)
  then show ?thesis using assms(2)
    by (simp add: apply_outcome_def apply_never_dispatched_def release_grant_def Let_def)
next
  case False
  then show ?thesis using apply_outcome_other [OF assms(1) False] assms(2) by simp
qed

lemma probe_settle:
  assumes inv: "pool_inv s" and probe: "probe_inv now s" and ids: "distinct (map p_id (outstanding s))"
    and i: "i < length (outstanding s)" "p_id (outstanding s ! i) = permit_id a"
    and copy: "probing (ctl s) \<and> permit_id a = probe_id s \<longrightarrow> res_probe a"
  shows "probe_inv now (settle_permit now a out i s)"
proof -
  let ?t = "settle_permit now a out i s" and ?d = "drop_intent (permit_id a) s"
  have inv': "pool_inv ?d" by (rule pool_inv_drop_intent [OF inv])
  have cur: "current_probe a ?d = current_probe a s" by (simp add: current_probe_def)
  have clock: "epoch (ctl ?t) \<le> now" "probe_claim_at ?t \<le> now"
    using probe apply_outcome_epoch [of ?d now a out] by (auto simp: probe_inv_def settle_frame)
  have rev: "\<forall>q \<in> set (outstanding ?t). \<not> p_applied q \<longrightarrow> p_revision q = 0"
    using probe settle_set [of _ now a out i s] by (metis probe_inv_def)
  have flight: "(probe_claim_at ?t = 0 \<or> epoch (ctl ?t) \<le> probe_claim_at ?t)
      \<and> (\<exists>q \<in> set (outstanding ?t). p_id q = probe_id ?t \<and> \<not> p_applied q)" if t: "probing (ctl ?t)"
  proof -
    have p: "probing (ctl s)"
      using t apply_outcome_idle_probe [OF inv', of now a out] by (auto simp: settle_frame split: if_splits)
    have n: "p_applied (outstanding s ! i) \<or> \<not> current_probe a s"
    proof (rule ccontr)
      assume c: "\<not> ?thesis"
      then show False using t p probe apply_outcome_probe [OF inv', of a now out]
        by (simp add: settle_frame cur probe_inv_def)
    qed
    then have s: "epoch (ctl ?t) = epoch (ctl s)" "probe_id ?t = probe_id s"
      using apply_outcome_other [OF inv', of a now out] by (auto simp: settle_frame cur)
    obtain q where q: "q \<in> set (outstanding s)" "p_id q = probe_id s" "\<not> p_applied q"
      using probe p by (auto simp: probe_inv_def)
    have "q \<noteq> outstanding s ! i" using p n q i copy by (auto simp: current_probe_def)
    then have "q \<in> set (outstanding ?t)" by (rule settle_survives [OF q(1)])
    then show ?thesis using probe p s q(2,3) by (auto simp: probe_inv_def settle_frame(3))
  qed
  show ?thesis using probe clock rev flight by (simp add: probe_inv_def)
qed

lemma probe_observe:
  assumes inv: "pool_inv s" and probe: "probe_inv now s" and ids: "distinct (map p_id (outstanding s))"
    and copy: "probing (ctl s) \<and> permit_id a = probe_id s \<longrightarrow> res_probe a"
  shows "probe_inv now (fst (observe_attempt now a s))"
proof (cases "permit_index (permit_id a) (outstanding s)")
  case None
  then show ?thesis using probe by (simp add: observe_attempt_def)
next
  case (Some i)
  note i = permit_index_Some [OF Some]
  define t where "t = (if claimed_at a = None then (s, False) else observe_claim now a i s)"
  have same: "map p_id (outstanding (fst t)) = map p_id (outstanding s)" by (simp add: t_def)
  have t: "pool_inv (fst t)" "probe_inv now (fst t)" "distinct (map p_id (outstanding (fst t)))"
    "probing (ctl (fst t)) \<and> permit_id a = probe_id (fst t) \<longrightarrow> res_probe a"
    using inv probe ids copy i same by (auto simp: t_def observe_claim_inv probe_claim claim_clock(1))
  have l: "i < length (outstanding (fst t))" using i same by (metis length_map)
  have l': "p_id (outstanding (fst t) ! i) = permit_id a" using i l same by (metis nth_map)
  show ?thesis using probe t probe_settle [OF t(1-3) l l' t(4)]
    by (simp add: observe_attempt_def Some t_def [symmetric] split_beta split: option.splits)
qed

text \<open>The remaining steps leave epoch, claim, probe and permits alone.\<close>

definition same_probe :: "pool_state \<Rightarrow> pool_state \<Rightarrow> bool" where
  "same_probe s s' \<longleftrightarrow> epoch (ctl s') = epoch (ctl s) \<and> probe_claim_at s' = probe_claim_at s
     \<and> outstanding s' = outstanding s \<and> probing (ctl s') = probing (ctl s)
     \<and> (probing (ctl s) \<longrightarrow> probe_id s' = probe_id s)"

lemma same_probe_inv: "same_probe s s' \<Longrightarrow> probe_inv t s \<Longrightarrow> t \<le> now \<Longrightarrow> probe_inv now s'"
  by (auto simp: same_probe_def probe_inv_def)

lemma same_probe_refl: "same_probe s s"
  by (simp add: same_probe_def)

lemma same_probe_ops:
  "same_probe s (refresh_window now s)" "same_probe s (acknowledge_starts rs s)" "same_probe s (resume_pool now s)"
  "same_probe s (set_policy p s)" "same_probe s (readiness_result now ok s)" "same_probe s (publication_result now req page s)"
proof -
  show "same_probe s (acknowledge_starts rs s)" unfolding acknowledge_starts_def
    by (induction rs arbitrary: s) (auto simp: same_probe_def)
qed (simp_all add: same_probe_def resume_pool_def set_policy_def configure_def readiness_result_def
    publication_result_def Let_def split: sum.splits option.splits prod.splits)

lemma probe_granted:
  assumes inv: "pool_inv s" and probe: "probe_inv now s" and g: "granted now r s s'" "grantable now s"
  shows "probe_inv now s'"
proof -
  have idle: "\<not> probing (ctl s)" using g(2) by (auto simp: grantable_def can_start_def Let_def split: if_splits)
  show ?thesis using probe idle grantedD [OF g(1)]
    by (auto simp: probe_inv_def granted_ctl_def)
qed

lemma probe_step:
  assumes "pool_step lib now s s'" "pool_inv s" "ids_inv lib s" "probe_inv t s" "t \<le> now"
  shows "probe_inv now s'"
  using assms(1-4)
proof (induction rule: pool_step.induct)
  case (step_grant item s s' res)
  have p: "probe_inv now (refresh_window now s)"
    by (rule same_probe_inv [OF same_probe_ops(1) step_grant.prems(3) assms(5)])
  have inv: "pool_inv (refresh_window now s)" by (rule refresh_window_inv [OF step_grant.prems(1)])
  show ?case using grant_cases [OF step_grant.prems(1), of lib now item] step_grant.hyps p probe_granted [OF inv p]
    by auto
next
  case (step_observe s a)
  have "distinct (map p_id (outstanding s))" using step_observe.prems(2) by (simp add: ids_inv_def)
  then show ?case using step_observe probe_observe same_probe_inv [OF same_probe_refl _ assms(5)] by blast
qed (blast intro: same_probe_inv [OF same_probe_ops(1) _ assms(5)] same_probe_inv [OF same_probe_ops(2) _ assms(5)]
      same_probe_inv [OF same_probe_ops(3) _ assms(5)] same_probe_inv [OF same_probe_ops(4) _ assms(5)]
      same_probe_inv [OF same_probe_ops(5) _ assms(5)] same_probe_inv [OF same_probe_ops(6) _ assms(5)]
    | (erule same_probe_inv [OF _ _ assms(5), rotated], simp add: same_probe_def))+

lemma probe_init: "pool_init t s \<Longrightarrow> probe_inv t s"
  by (elim pool_initE) (auto simp: probe_inv_def new_pool_state_def new_controller_def)

interpretation pool_probe: timed_invariant pool_init "pool_step lib"
    "\<lambda>t s. pool_inv s \<and> (inj (new_sha1 lib) \<longrightarrow> ids_inv lib s \<and> probe_inv t s)" for lib
  by unfold_locales (auto intro: pool_init_inv pool_step_inv ids_init ids_step probe_init probe_step)

end
