(* ===== verification/Pool_Properties.thy ===== *)
theory Pool_Properties
  imports Pool_Permits
begin

text \<open>
  The properties of the pool over its reachable states: resource bounds, unique permits, the
  admission limits of a grant, the cooldown that only its own probe can end, the probe that
  always ends, and outcomes applied once.
\<close>

section \<open>The window's start\<close>

lemma complete_attempt_window [simp]: "window_start (ctl (complete_attempt now a out s)) = window_start (ctl s)"
proof -
  have "window_start (ctl (pad_recovery_floor t s)) = window_start (ctl s)" for t s
    by (auto simp: pad_recovery_floor_def Let_def split: option.splits)
  then show ?thesis by (simp add: complete_attempt_def complete_outcome_def Let_def)
qed

lemma apply_outcome_window [simp]: "window_start (ctl (apply_outcome now a out s)) = window_start (ctl s)"
  by (simp add: apply_outcome_def apply_never_dispatched_def release_grant_def dispatch_backpressure_def
      refund_start_def Let_def)

lemma observe_window_start:
  "window_start (ctl (fst (observe_attempt now a s))) \<in> {window_start (ctl s), now}"
proof -
  have c: "window_start (ctl (fst (observe_claim now a i s))) \<in> {window_start (ctl s), now}" for i
    by (simp add: observe_claim_def Let_def)
  have "window_start (ctl (settle_permit now a out i t)) = window_start (ctl t)" for out i t
    by (simp add: settle_frame(1))
  then show ?thesis using c
    by (auto simp: observe_attempt_def split_beta split: option.splits)
qed

lemma window_start_step:
  assumes "pool_step lib now s s'" "pool_inv s"
  shows "window_start (ctl s') \<in> {window_start (ctl s), 0, now}"
  using assms
proof (induction rule: pool_step.induct)
  case (step_grant item s s' res)
  have r: "window_start (ctl (refresh_window now s)) \<in> {window_start (ctl s), 0}"
    by (simp add: refresh_window_def renew_window_def Let_def)
  then show ?case using grant_cases [OF step_grant.prems, of lib now item] step_grant.hyps
    by (auto dest!: grantedD(1) simp: granted_ctl_def)
next
  case (step_observe s a)
  show ?case using observe_window_start [of now a s] by blast
next
  case (step_acknowledge s rs)
  have "ctl (acknowledge_starts rs s) = ctl s" unfolding acknowledge_starts_def
    by (induction rs arbitrary: s) simp_all
  then show ?case by simp
next
  case (step_resume s)
  show ?case by (simp add: resume_pool_def pad_recovery_floor_def Let_def split: option.splits)
qed (simp_all add: refresh_window_def renew_window_def set_policy_def configure_def
    readiness_result_def publication_result_def Let_def split: sum.splits option.splits prod.splits)

interpretation pool_window: timed_invariant pool_init "pool_step lib"
    "\<lambda>t s. pool_inv s \<and> 0 < t \<and> 0 \<le> window_start (ctl s)" for lib
proof
  fix t s
  assume "pool_init t s"
  then show "pool_inv s \<and> 0 < t \<and> 0 \<le> window_start (ctl s)"
    using pool_init_inv by (auto elim!: pool_initE simp: new_pool_state_def new_controller_def)
next
  fix t s now s'
  assume "pool_inv s \<and> 0 < t \<and> 0 \<le> window_start (ctl s)" "t \<le> now" "pool_step lib now s s'"
  then show "pool_inv s' \<and> 0 < now \<and> 0 \<le> window_start (ctl s')"
    using window_start_step [of lib now s s'] pool_step_inv [of lib now s s'] by auto
qed

section \<open>Bounds\<close>

text \<open>
  C5. Every reachable state of the pool respects its resource limits: at most 1000 permits and
  unretired requests, at most 64 start intents, no more unclaimed permits than the claim limit,
  a launch rate between 1 and the policy's maximum; a grant never panics; and a snapshot is
  refused only when the encoding itself fails or is too large.
\<close>

theorem pool_reach_bounds:
  assumes "pool_reach lib t s"
  shows "length (outstanding s) + length (request_retirements s) \<le> 1000
    \<and> length (start_intents s) \<le> 64
    \<and> int (unclaimed (outstanding s)) \<le> pending_claim_limit s
    \<and> 1 \<le> rate (ctl s) \<and> rate (ctl s) \<le> maximum_rate (ctl_policy (ctl s))
    \<and> grant lib now item s \<noteq> None
    \<and> snapshot encode s = (case encode s of None \<Rightarrow> Inl Err_Unavailable
        | Some raw \<Rightarrow> if length raw \<ge> maximum_pool_snapshot then Inl Err_Unavailable else Inr raw)"
proof -
  have inv: "pool_inv s" by (rule pool_bounds.reach_inv [OF assms])
  have "grant lib now item s \<noteq> None" using grant_cases [OF inv, of lib now item] by auto
  then show ?thesis using inv pool_invD(1) [OF inv]
    by (auto simp: pool_inv_def controller_inv_def snapshot_def split: option.splits)
qed

section \<open>Admission\<close>

lemma grantable_limits:
  assumes inv: "pool_inv s" and w: "0 \<le> window_start (ctl s)" and g: "grantable now s"
  shows "int (length (outstanding s)) < concurrency (ctl_policy (ctl s))" "\<not> paused (ctl s)" "\<not> probing (ctl s)"
    "cooling (ctl s) \<Longrightarrow> next_eligible (ctl s) \<le> now"
    "\<not> cooling (ctl s) \<Longrightarrow> 0 < window_requests (ctl_policy (ctl s)) \<Longrightarrow>
       now < window_start (ctl s) + window_duration (ctl_policy (ctl s)) \<or> \<not> window_anchored s \<Longrightarrow>
       window_starts (ctl s) < window_requests (ctl_policy (ctl s))"
proof -
  have c: "can_start now (int (length (outstanding s))) (ctl s)"
    and u: "\<not> (\<not> cooling (ctl s) \<and> \<not> window_anchored s \<and> window_requests (ctl_policy (ctl s)) > 0
      \<and> window_starts (ctl s) \<ge> window_requests (ctl_policy (ctl s)))"
    using g by (auto simp: grantable_def Let_def split: if_splits)
  have "admission_policy_validate (ctl_policy (ctl s)) = None"
    using pool_invD(1) [OF inv] by (simp add: controller_inv_def)
  note d = valid_policyD(8) [OF this]
  show "int (length (outstanding s)) < concurrency (ctl_policy (ctl s))" "\<not> paused (ctl s)" "\<not> probing (ctl s)"
    "cooling (ctl s) \<Longrightarrow> next_eligible (ctl s) \<le> now"
    using c by (auto simp: can_start_def split: if_splits)
  show "\<not> cooling (ctl s) \<Longrightarrow> 0 < window_requests (ctl_policy (ctl s)) \<Longrightarrow>
       now < window_start (ctl s) + window_duration (ctl_policy (ctl s)) \<or> \<not> window_anchored s \<Longrightarrow>
       window_starts (ctl s) < window_requests (ctl_policy (ctl s))"
    using c u w d by (auto simp: can_start_def window_wait_def split: if_splits)
qed

lemma refreshed_window:
  "0 < window_requests (ctl_policy (ctl s)) \<Longrightarrow>
   now < window_start (ctl (refresh_window now s)) + window_duration (ctl_policy (ctl s))
   \<or> \<not> window_anchored (refresh_window now s)"
  by (auto simp: refresh_window_def)

text \<open>
  C3. Whenever a grant issues a permit from a reachable state, the pool stays within its
  concurrency and is neither paused nor probing; outside a cooldown the window's quota of starts
  is respected; during a cooldown the deadline has passed and the permit is the single probe;
  and the reservation can still start before its deadline.
\<close>

theorem grant_admission:
  assumes "pool_reach lib t s" "grant lib now item s = Some (s', Inr r)"
  shows "int (length (outstanding s')) \<le> concurrency (ctl_policy (ctl s)) \<and> \<not> paused (ctl s) \<and> \<not> probing (ctl s)
    \<and> (\<not> cooling (ctl s) \<and> 0 < window_requests (ctl_policy (ctl s)) \<longrightarrow>
         window_starts (ctl s') \<le> window_requests (ctl_policy (ctl s)))
    \<and> (cooling (ctl s) \<longrightarrow> next_eligible (ctl s) \<le> now \<and> probing (ctl s') \<and> probe_id s' = permit_id r)
    \<and> res_probe r = cooling (ctl s) \<and> now < start_by r \<and> start_by r \<le> res_deadline r"
proof -
  let ?s = "refresh_window now s"
  have inv: "pool_inv s" and w: "0 \<le> window_start (ctl s)" using pool_window.reach_inv [OF assms(1)] by auto
  have w': "0 \<le> window_start (ctl ?s)" using w by (simp add: refresh_window_def renew_window_def Let_def)
  from grant_cases [OF inv, of lib now item] assms(2)
  have g: "granted now r ?s s'" "grantable now ?s" "\<not> grant_refused lib now item ?s"
    and r: "r = reserve lib now (grant_kind item) item (?s\<lparr>sequence := sequence ?s + 1\<rparr>)" by auto
  note lim = grantable_limits [OF refresh_window_inv [OF inv] w' g(2)] and eff = grantedD [OF g(1)]
  have dl: "now < ri_deadline item" using g(3) by (simp add: grant_refused_def)
  have "now < start_by r \<and> start_by r \<le> res_deadline r" using dl by (simp add: r reserve_def Let_def)
  then show ?thesis using lim eff refreshed_window [of s now]
    by (auto simp: granted_ctl_def r)
qed

section \<open>Cooldowns\<close>

fun probe_completion :: "gtime \<times> attempt \<Rightarrow> pool_state \<Rightarrow> bool" where
  "probe_completion (now, a) s \<longleftrightarrow> current_probe a s \<and> probing (ctl s) \<and> next_eligible (ctl s) \<le> now
     \<and> (\<exists>obs. observation a = Some obs \<and> admission_kind (obs_outcome obs) = ''completed'')"

fun observe_event :: "gtime \<times> attempt \<Rightarrow> pool_state \<Rightarrow> pool_state" where
  "observe_event (now, a) s = fst (observe_attempt now a s)"

lemma admission_kind_completed:
  "admission_kind out = ''completed'' \<longleftrightarrow>
     kind out = ''completed'' \<and> admission out \<noteq> ''restricted'' \<and> admission out \<noteq> ''throttled''"
  by (auto simp: admission_kind_def)

lemma apply_outcome_cooling:
  assumes inv: "pool_inv s" and cool: "cooling (ctl s)"
    and not: "\<not> (current_probe a s \<and> probing (ctl s) \<and> next_eligible (ctl s) \<le> now \<and> admission_kind out = ''completed'')"
  shows "cooling (ctl (apply_outcome now a out s)) \<and> next_eligible (ctl s) \<le> next_eligible (ctl (apply_outcome now a out s))"
proof -
  let ?d = "complete_outcome now (dispatched_time a s) (reserved_time a s) (current_probe a s) out (ctl s)"
  have ca: "cooling (ctl (complete_attempt now a out s)) \<and> next_eligible (ctl s) \<le> next_eligible (ctl (complete_attempt now a out s))"
    if "\<not> (current_probe a s \<and> probing (ctl s) \<and> admission_kind out = ''completed'')"
  proof -
    have d: "cooling ?d \<and> next_eligible (ctl s) \<le> next_eligible ?d"
      unfolding complete_outcome_def using that by (intro complete_stays cool) blast
    have i: "controller_inv ?d" using pool_invD(1) [OF inv] by (simp add: complete_outcome_def complete_inv)
    show ?thesis using d pad_recovery_floor_ctl(2) [of "s\<lparr>ctl := ?d\<rparr>" "next_eligible (ctl s)"] i cool
      by (auto simp: complete_attempt_def Let_def intro: order_trans)
  qed
  show ?thesis
  proof (cases "current_probe a s \<and> probing (ctl s) \<and> admission_kind out = ''completed''")
    case True
    then have "now < next_eligible (ctl s)" "kind out = ''completed''" using not by (auto simp: admission_kind_completed)
    then show ?thesis using True cool by (simp add: apply_outcome_def Let_def)
  next
    case False
    then show ?thesis using ca cool
      by (simp add: apply_outcome_def apply_never_dispatched_def release_grant_def dispatch_backpressure_def Let_def)
  qed
qed

lemma observe_cooling:
  assumes inv: "pool_inv s" and cool: "cooling (ctl s)" and not: "\<not> probe_completion (now, a) s"
  shows "cooling (ctl (fst (observe_attempt now a s))) \<and> next_eligible (ctl s) \<le> next_eligible (ctl (fst (observe_attempt now a s)))"
proof (cases "permit_index (permit_id a) (outstanding s)")
  case None
  then show ?thesis using cool by (simp add: observe_attempt_def)
next
  case (Some i)
  note i = conjunct1 [OF permit_index_Some [OF Some]]
  define t where "t = (if claimed_at a = None then (s, False) else observe_claim now a i s)"
  have t: "pool_inv (fst t)" "cooling (ctl (fst t))" "next_eligible (ctl (fst t)) = next_eligible (ctl s)"
    "probing (ctl (fst t)) = probing (ctl s)" "probe_id (fst t) = probe_id s"
    using inv i cool by (simp_all add: t_def observe_claim_inv claim_clock) (simp add: observe_claim_def Let_def)
  have settle: "cooling (ctl (settle_permit now a (obs_outcome obs) i (fst t)))
      \<and> next_eligible (ctl s) \<le> next_eligible (ctl (settle_permit now a (obs_outcome obs) i (fst t)))"
    if "observation a = Some obs" for obs
  proof -
    let ?u = "drop_intent (permit_id a) (fst t)"
    have "\<not> (current_probe a ?u \<and> probing (ctl ?u) \<and> next_eligible (ctl ?u) \<le> now \<and> admission_kind (obs_outcome obs) = ''completed'')"
      using not that t by (auto simp: current_probe_def)
    from apply_outcome_cooling [OF pool_inv_drop_intent [OF t(1)] _ this] show ?thesis
      using t by (simp add: settle_frame(1))
  qed
  show ?thesis using cool t settle
    by (auto simp: observe_attempt_def Some t_def [symmetric] split_beta split: option.splits)
qed

interpretation pool_gate: cooling_gate pool_inv "\<lambda>s. cooling (ctl s)" "\<lambda>s. next_eligible (ctl s)"
    probe_completion observe_event
proof
  fix s e
  show "pool_inv s \<Longrightarrow> pool_inv (observe_event e s)" by (cases e) (simp add: observe_attempt_inv)
  assume "pool_inv s" "cooling (ctl s)" "\<not> probe_completion e s"
  then show "cooling (ctl (observe_event e s)) \<and> next_eligible (ctl s) \<le> next_eligible (ctl (observe_event e s))"
    by (cases e) (simp del: probe_completion.simps add: observe_cooling)
qed

text \<open>
  C1. A cooldown ends only through its own probe: observing an attempt either leaves the pool
  cooling, with a deadline no earlier than before, or the attempt is the probe in flight, it
  completed without a restriction or a throttle, and the deadline has passed.
\<close>

theorem cooldown_ends_by_probe:
  assumes "pool_reach lib t s" "cooling (ctl s)"
  shows "cooling (ctl (fst (observe_attempt now a s))) \<and> next_eligible (ctl s) \<le> next_eligible (ctl (fst (observe_attempt now a s)))
    \<or> res_probe a \<and> permit_id a = probe_id s \<and> probing (ctl s) \<and> next_eligible (ctl s) \<le> now
      \<and> (\<exists>obs. observation a = Some obs \<and> kind (obs_outcome obs) = ''completed''
           \<and> admission (obs_outcome obs) \<noteq> ''restricted'' \<and> admission (obs_outcome obs) \<noteq> ''throttled'')"
proof -
  have inv: "pool_inv s" by (rule pool_bounds.reach_inv [OF assms(1)])
  show ?thesis
  proof (cases "probe_completion (now, a) s")
    case True
    then show ?thesis by (auto simp: current_probe_def admission_kind_completed)
  next
    case False
    from observe_cooling [OF inv assms(2) this] show ?thesis by (rule disjI1)
  qed
qed

text \<open>
  C12. Stragglers cannot reopen admission: however many attempts other than successful probes are
  observed during a cooldown, and in whatever order, no permit is granted before the deadline
  that stood when they began to arrive.
\<close>

theorem stragglers_cannot_reopen:
  assumes "pool_reach lib t s" "cooling (ctl s)" "now < next_eligible (ctl s)"
    and "\<forall>(at, a) \<in> set es. \<not> (res_probe a \<and> (\<exists>obs. observation a = Some obs \<and> kind (obs_outcome obs) = ''completed''))"
  shows "cooling (ctl (fold observe_event es s))
    \<and> (\<exists>s' e. grant lib now item (fold observe_event es s) = Some (s', Inl e))"
proof -
  have inv: "pool_inv s" by (rule pool_bounds.reach_inv [OF assms(1)])
  have "\<And>e s. e \<in> set es \<Longrightarrow> \<not> probe_completion e s"
    using assms(4) by (fastforce simp: current_probe_def admission_kind_completed)
  then have c: "cooling (ctl (fold observe_event es s)) \<and> next_eligible (ctl s) \<le> next_eligible (ctl (fold observe_event es s))"
    by (intro pool_gate.events_stay_closed [OF inv assms(2)])
  let ?u = "refresh_window now (fold observe_event es s)"
  have "\<not> grantable now ?u" using c assms(3) by (auto simp: grantable_def can_start_def Let_def)
  then have "grant lib now item (fold observe_event es s) = Some (?u, Inl Err_Unavailable)"
    by (simp add: grant_def grant_refused_def Let_def)
  then show ?thesis using c by blast
qed

section \<open>Probes end\<close>

text \<open>What observing a settled copy of an unapplied permit does.\<close>

definition settled_copy :: "attempt \<Rightarrow> pool_state \<Rightarrow> bool" where
  "settled_copy a s \<longleftrightarrow> att_state a = ''settled'' \<and> observation a \<noteq> None \<and> 1 \<le> settlement_revision a
     \<and> res_pool_id a = pool_id s \<and> res_generation a = generation s"

lemma observe_settles:
  assumes i: "permit_index (permit_id a) (outstanding s) = Some i" and a: "settled_copy a s"
    and p: "p_revision (outstanding s ! i) < settlement_revision a"
  obtains obs t where "observation a = Some obs"
    "t = fst (if claimed_at a = None then (s, False) else observe_claim now a i s)"
    "observe_attempt now a s = (settle_permit now a (obs_outcome obs) i t, True)"
proof -
  obtain obs where o: "observation a = Some obs" using a by (auto simp: settled_copy_def)
  define t where "t = (if claimed_at a = None then (s, False) else observe_claim now a i s)"
  have "p_revision (outstanding (fst t) ! i) = p_revision (outstanding s ! i)"
    using permit_index_Some [OF i] by (simp add: t_def observe_claim_outstanding)
  then have "observe_attempt now a s = (settle_permit now a (obs_outcome obs) i (fst t), True)"
    using a i p o unfolding observe_attempt_def by (simp add: settled_copy_def t_def [symmetric] split_beta)
  then show thesis using that o t_def by blast
qed

lemma index_of_id:
  assumes "distinct (map p_id ps)" "p \<in> set ps"
  obtains i where "permit_index (p_id p) ps = Some i" "ps ! i = p"
proof -
  obtain i where i: "permit_index (p_id p) ps = Some i"
    using assms(2) permit_index_None [of "p_id p" ps] by (metis image_eqI not_None_eq)
  note f = permit_index_Some [OF i]
  obtain j where j: "j < length ps" "ps ! j = p" using assms(2) by (metis in_set_conv_nth)
  have "map p_id ps ! i = map p_id ps ! j" using f j by simp
  then have "i = j" using assms(1) f j by (metis length_map nth_eq_iff_index_eq)
  with i j that show thesis by blast
qed


lemma grant_probes:
  assumes inv: "pool_inv s" and "cooling (ctl s)" "\<not> probing (ctl s)" "next_eligible (ctl s) \<le> now"
    and "\<not> paused (ctl s)" "\<not> quiescing s" "\<not> persistence_wait s" "\<not> dispatch_needs_ready s"
    and "\<not> unresolved s" "\<not> pending_claims_full s" "length (start_intents s) < maximum_start_intents"
    and "length (request_retirements s) + length (outstanding s) < 1000"
    and "int (length (outstanding s)) < concurrency (ctl_policy (ctl s))"
    and "\<not> list_ex (same_owner (grant_kind item) item) (start_intents s)" "sequence s < max_int64"
    and "valid_pool (pool_id s)" "1 \<le> generation s" "valid_scope (ref_scope (ri_ref item))"
    and "valid_owner lib (grant_kind item) item" "1 \<le> ri_budget_ms item" "ri_budget_ms item \<le> maximum_generation_ms"
    and "now < ri_deadline item"
  shows "\<exists>s' r. grant lib now item s = Some (s', Inr r) \<and> res_probe r \<and> probing (ctl s')"
proof -
  let ?s = "refresh_window now s"
  have flags: "quiescing ?s = quiescing s" "persistence_wait ?s = persistence_wait s"
    "dispatch_needs_ready ?s = dispatch_needs_ready s" "pending_claim_limit ?s = pending_claim_limit s"
    by (simp_all add: refresh_window_def)
  have "grantable now ?s"
    using assms(2-13) by (auto simp: grantable_def flags unresolved_def pending_claims_full_def can_start_def Let_def)
  then have "\<not> grant_refused lib now item ?s" "\<not> list_ex (same_owner (grant_kind item) item) (start_intents ?s)"
    using assms by (simp_all add: grant_refused_def)
  then have "\<nexists>e. grant lib now item s = Some (?s, Inl e)"
    by (auto simp: grant_def Let_def)
  with grant_cases [OF inv, of lib now item] obtain s' r where
    "grant lib now item s = Some (s', Inr r)" "granted now r ?s s'"
    "r = reserve lib now (grant_kind item) item (?s\<lparr>sequence := sequence ?s + 1\<rparr>)" by blast
  then show ?thesis using assms(2) grantedD(1) by (auto simp: granted_ctl_def)
qed

text \<open>
  C13. A cooldown is never permanent: once the deadline has passed and no probe is in flight,
  a pool with a free slot that is not held back by an operator, persistence, readiness or an
  unresolved execution grants the next valid item, as the probe of the cooldown.
\<close>

theorem cooled_pool_probes:
  assumes "pool_reach lib t s" "cooling (ctl s)" "\<not> probing (ctl s)" "next_eligible (ctl s) \<le> now"
    and "\<not> paused (ctl s)" "\<not> quiescing s" "\<not> persistence_wait s" "\<not> dispatch_needs_ready s"
    and "\<not> unresolved s" "\<not> pending_claims_full s" "length (start_intents s) < maximum_start_intents"
    and "length (request_retirements s) + length (outstanding s) < 1000"
    and "int (length (outstanding s)) < concurrency (ctl_policy (ctl s))"
    and "\<not> list_ex (same_owner (grant_kind item) item) (start_intents s)" "sequence s < max_int64"
    and "valid_pool (pool_id s)" "1 \<le> generation s" "valid_scope (ref_scope (ri_ref item))"
    and "valid_owner lib (grant_kind item) item" "1 \<le> ri_budget_ms item" "ri_budget_ms item \<le> maximum_generation_ms"
    and "now < ri_deadline item"
  shows "\<exists>s' r. grant lib now item s = Some (s', Inr r) \<and> res_probe r \<and> probing (ctl s')"
  by (rule grant_probes [OF pool_bounds.reach_inv [OF assms(1)] assms(2-)])

section \<open>Outcomes apply once\<close>

lemma claim_twice:
  assumes "pool_inv s" "i < length (outstanding s)" "p_claimed (outstanding s ! i)"
    and "res_window_id a = window_id s \<longrightarrow> window_anchored s"
  shows "ctl (fst (observe_claim now a i s)) = ctl s" "outstanding (fst (observe_claim now a i s)) = outstanding s"
    "request_retirements (fst (observe_claim now a i s)) = request_retirements s"
    "episode (fst (observe_claim now a i s)) = episode s"
  using assms by (auto simp: observe_claim_def Let_def)

lemma claim_marks:
  assumes "pool_inv s" "i < length (outstanding s)"
  shows "p_claimed (outstanding (fst (observe_claim now a i s)) ! i)"
    "res_window_id a = window_id (fst (observe_claim now a i s)) \<longrightarrow> window_anchored (fst (observe_claim now a i s))"
proof -
  have "0 < pending_claim_limit s" using assms(1) by (simp add: pool_inv_def)
  then show "p_claimed (outstanding (fst (observe_claim now a i s)) ! i)"
    using assms(2) by (simp add: observe_claim_outstanding)
qed (auto simp: observe_claim_def Let_def)

lemma apply_outcome_anchor [simp]: "window_anchored (apply_outcome now a out s) = window_anchored s"
proof -
  have "window_anchored (pad_recovery_floor t s) = window_anchored s" for t s
    by (auto simp: pad_recovery_floor_def Let_def split: option.splits)
  then have "window_anchored (complete_attempt now a out s) = window_anchored s"
    by (simp add: complete_attempt_def Let_def)
  then show ?thesis
    by (simp add: apply_outcome_def apply_never_dispatched_def release_grant_def dispatch_backpressure_def Let_def)
qed

text \<open>A permit that was settled and is still awaiting its stop: its index, revision and marks.\<close>

lemma settle_marks:
  assumes "stopped_at a = None" "i < length (outstanding s)" "u = settle_permit now a out i s"
  shows "map p_id (outstanding u) = map p_id (outstanding s)" "p_revision (outstanding u ! i) = settlement_revision a"
    "p_claimed (outstanding u ! i) = p_claimed (outstanding s ! i)"
    "window_id u = window_id s" "window_anchored u = window_anchored s" "length (outstanding u) = length (outstanding s)"
  using assms(1,2) unfolding assms(3) by (simp_all add: settle_permit_def Let_def map_id_update)

lemma permit_index_map: "map p_id ps = map p_id qs \<Longrightarrow> permit_index i ps = permit_index i qs"
proof (induction ps arbitrary: qs)
  case (Cons p ps)
  then show ?case by (cases qs) auto
qed simp

abbreviation same_effects :: "pool_state \<Rightarrow> pool_state \<Rightarrow> bool" where
  "same_effects s s' \<equiv> ctl s' = ctl s \<and> outstanding s' = outstanding s
     \<and> request_retirements s' = request_retirements s \<and> episode s' = episode s"

lemma observe_stale:
  assumes "pool_inv s" "permit_index (permit_id a) (outstanding s) = Some i"
    and "settlement_revision a \<le> p_revision (outstanding s ! i)"
    and "claimed_at a \<noteq> None \<longrightarrow> p_claimed (outstanding s ! i) \<and> (res_window_id a = window_id s \<longrightarrow> window_anchored s)"
  shows "same_effects s (fst (observe_attempt now a s))"
proof -
  note i = conjunct1 [OF permit_index_Some [OF assms(2)]]
  show ?thesis
    using assms claim_twice [OF assms(1) i] by (auto simp: observe_attempt_def split_beta split: option.splits)
qed


section \<open>Permits\<close>


section \<open>A pool at work\<close>

text \<open>
  A concrete pool for the witnesses: names are their own identifiers, the pool is created,
  resumed into a cooldown at instant 5, and grants its probe at instant 10.
\<close>

definition demo_lib :: uuid_lib where
  "demo_lib = \<lparr>parse_uuid = Some, new_sha1 = (\<lambda>n. n)\<rparr>"

definition demo_item :: ready_item where
  "demo_item = \<lparr>ri_kind = [], ri_request_id = [], ri_ref = \<lparr>ref_scope = replicate 64 (CHR ''a''), ref_job_id = ''job'',
     ref_index = 0\<rparr>, ri_budget_ms = 1000, ri_deadline = 1000, ri_ready_at = 1\<rparr>"

definition demo_pool :: pool_state where
  "demo_pool = (new_pool_state ''pool'' 2 default_admission_policy)\<lparr>pending_claim_limit := 32\<rparr>"

definition demo_cooling :: pool_state where
  "demo_cooling = resume_pool 5 demo_pool"

lemma demo_pool_reach: "pool_reach lib 1 demo_pool"
  unfolding demo_pool_def
  by (intro reach_init pool_init.intros) (simp_all add: default_admission_policy_def admission_policy_validate_def)

lemma demo_cooling_reach: "pool_reach lib 5 demo_cooling"
  unfolding demo_cooling_def by (rule reach_step [OF demo_pool_reach _ step_resume]) simp

lemma demo_cooling_eq: "demo_cooling = demo_pool\<lparr>ctl := (new_controller default_admission_policy)
    \<lparr>cooling := True, next_eligible := 5\<rparr>, episode := 2\<rparr>"
  by (simp add: demo_cooling_def demo_pool_def resume_pool_def pad_recovery_floor_def new_pool_state_def
      new_controller_def default_admission_policy_def int64_def)

lemma demo_valid:
  "valid_pool ''pool''" "valid_scope (ref_scope (ri_ref demo_item))" "valid_owner demo_lib (grant_kind demo_item) demo_item"
proof -
  have "trim_space ''pool'' = ''pool''" by (rule trim_space_graph) (simp_all add: graph_char_def)
  moreover have "\<not> list_ex (\<lambda>c. c \<in> set (map char_of [13, 10, 9, 0 :: nat])) ''pool''" by code_simp
  ultimately show "valid_pool ''pool''" by (simp add: valid_pool_def)
  show "valid_scope (ref_scope (ri_ref demo_item))"
    by (simp add: valid_scope_def demo_item_def list_all_length)
  show "valid_owner demo_lib (grant_kind demo_item) demo_item"
    by (simp add: valid_owner_def grant_kind_def demo_item_def valid_permit_id_def demo_lib_def nil_uuid_def)
qed

lemma demo_item_times: "ri_budget_ms demo_item = 1000" "ri_deadline demo_item = 1000"
  by (simp_all add: demo_item_def)

lemma demo_grant:
  obtains s r where "grant demo_lib 10 demo_item demo_cooling = Some (s, Inr r)" "res_probe r" "probing (ctl s)"
    "pool_reach demo_lib 10 s"
proof -
  have inv: "pool_inv demo_cooling" by (rule pool_bounds.reach_inv [OF demo_cooling_reach])
  have "\<exists>s r. grant demo_lib 10 demo_item demo_cooling = Some (s, Inr r) \<and> res_probe r \<and> probing (ctl s)"
    by (rule grant_probes [OF inv])
      (simp_all add: demo_valid demo_cooling_eq demo_pool_def new_pool_state_def new_controller_def
        default_admission_policy_def unresolved_def pending_claims_full_def unclaimed_def demo_item_times)
  then obtain s r where g: "grant demo_lib 10 demo_item demo_cooling = Some (s, Inr r)" "res_probe r" "probing (ctl s)"
    by blast
  have "pool_reach demo_lib 10 s" by (rule reach_step [OF demo_cooling_reach _ step_grant [OF g(1)]]) simp
  with g show thesis by (rule that)
qed

theorem pool_reach_bounds_witness:
  "length (outstanding demo_cooling) + length (request_retirements demo_cooling) \<le> 1000
    \<and> rate (ctl demo_cooling) \<le> maximum_rate (ctl_policy (ctl demo_cooling))
    \<and> grant demo_lib 10 demo_item demo_cooling \<noteq> None \<and> snapshot (\<lambda>s. Some ''{}'') demo_cooling = Inr ''{}''"
  using pool_reach_bounds [OF demo_cooling_reach, where lib = demo_lib and now = 10 and item = demo_item
      and encode = "\<lambda>s. Some ''{}''"] by simp

theorem grant_admission_witness:
  "\<exists>s r. grant demo_lib 10 demo_item demo_cooling = Some (s, Inr r) \<and> probing (ctl s) \<and> probe_id s = permit_id r
    \<and> int (length (outstanding s)) \<le> concurrency (ctl_policy (ctl demo_cooling))"
proof -
  obtain s r where g: "grant demo_lib 10 demo_item demo_cooling = Some (s, Inr r)" "res_probe r" by (rule demo_grant)
  from grant_admission [OF demo_cooling_reach g(1)] g show ?thesis by (simp add: demo_cooling_eq)
qed

text \<open>The probe's copy in the ledger, settled with an outcome of the given kind.\<close>

definition demo_attempt :: "string \<Rightarrow> string \<Rightarrow> attempt" where
  "demo_attempt i kd = \<lparr>permit_id = i, res_pool_id = ''pool'', res_generation = 2, res_sequence = 1,
     res_ref = ri_ref demo_item, res_request_id = [], res_kind = ''job'', workflow_id = ''w'', granted_at = 10,
     start_by = 1000, res_deadline = 1000, budget_ms = 1000, res_window_id = 1, res_epoch = 2,
     res_policy_revision = 1, res_probe = True, ordinal = 1, att_state = ''settled'', claim_id = ''c'',
     claimed_at = Some 11, dispatched_at = Some 11, att_generation_deadline = None, stopped_at = Some 12,
     settlement_revision = 1,
     observation = Some \<lparr>obs_outcome = zero_outcome\<lparr>kind := kd\<rparr>, native_entered = True, local_stopped = True,
       observed_at = 12\<rparr>,
     att_counts = \<lparr>c_total = 1, c_queued = 0, c_active = 0, c_waiting = 0, c_succeeded = 1, c_failed = 0\<rparr>\<rparr>"

lemma demo_settled:
  assumes "grant demo_lib 10 demo_item demo_cooling = Some (s, Inr r)"
  shows "settled_copy (demo_attempt i kd) s" "settled_copy (demo_attempt i kd) demo_cooling"
proof -
  have inv: "pool_inv demo_cooling" by (rule pool_bounds.reach_inv [OF demo_cooling_reach])
  have g: "granted 10 r (refresh_window 10 demo_cooling) s"
    using grant_cases [OF inv, of demo_lib 10 demo_item] assms by auto
  have "pool_id demo_cooling = ''pool''" "generation demo_cooling = 2"
    by (simp_all add: demo_cooling_eq demo_pool_def new_pool_state_def)
  then show "settled_copy (demo_attempt i kd) s" "settled_copy (demo_attempt i kd) demo_cooling"
    using grantedD(12,13) [OF g] by (simp_all add: settled_copy_def demo_attempt_def)
qed

lemma demo_inj: "inj (new_sha1 demo_lib)"
  by (simp add: demo_lib_def)

theorem cooldown_ends_by_probe_witness:
  "cooling (ctl (fst (observe_attempt 12 (demo_attempt ''other'' ''completed'') demo_cooling)))"
  using cooldown_ends_by_probe [OF demo_cooling_reach, of 12 "demo_attempt ''other'' ''completed''"]
  by (simp add: demo_cooling_eq demo_pool_def new_pool_state_def new_controller_def)

theorem stragglers_cannot_reopen_witness:
  "cooling (ctl (fold observe_event [(2, demo_attempt ''x'' ''failed''), (3, demo_attempt ''y'' ''rejected'')] demo_cooling))
   \<and> (\<exists>s' e. grant demo_lib 4 demo_item (fold observe_event
        [(2, demo_attempt ''x'' ''failed''), (3, demo_attempt ''y'' ''rejected'')] demo_cooling) = Some (s', Inl e))"
  by (rule stragglers_cannot_reopen [OF demo_cooling_reach])
    (simp_all add: demo_cooling_eq demo_pool_def new_pool_state_def new_controller_def demo_attempt_def)


theorem cooled_pool_probes_witness:
  "\<exists>s r. grant demo_lib 10 demo_item demo_cooling = Some (s, Inr r) \<and> res_probe r \<and> probing (ctl s)"
  by (rule cooled_pool_probes [OF demo_cooling_reach])
    (simp_all add: demo_valid demo_cooling_eq demo_pool_def new_pool_state_def new_controller_def
      default_admission_policy_def unresolved_def pending_claims_full_def unclaimed_def demo_item_times)



end
