(* ===== verification/Go_Value.thy ===== *)
theory Go_Value
  imports Json_Number Go_Float
begin

text \<open>
  Go values as \<open>reflect\<close> sees them, over a heap of the cells that pointers, slices and maps refer
  to; the layout of a decoded JSON value on such a heap; \<open>json.Marshal\<close> followed by a decoder with
  \<open>UseNumber\<close>; and the cleaning of invalid UTF-8.
\<close>

section \<open>Invalid UTF-8\<close>

text \<open>
  Every byte that starts no well-formed rune is replaced: with U+FFFD by \<open>encoding/json\<close>, with
  nothing by \<open>strings.ToValidUTF8(s, "")\<close>.
\<close>

function replace_invalid :: "string \<Rightarrow> string \<Rightarrow> string" where
  "replace_invalid r s = (if s = [] then []
     else (if fst (decode_rune s) = rune_error \<and> snd (decode_rune s) = 1 then r else take (snd (decode_rune s)) s)
       @ replace_invalid r (drop (snd (decode_rune s)) s))"
  by pat_completeness simp
termination
proof (relation "measure (\<lambda>(r, s). length s)")
  show "wf (measure (\<lambda>(r, s). length s))" by (rule wf_measure)
  fix r s :: string
  assume "s \<noteq> []"
  with decode_rune_size [OF this]
  show "((r, drop (snd (decode_rune s)) s), r, s) \<in> measure (\<lambda>(r, s). length s)" by simp
qed

declare replace_invalid.simps [simp del]

function valid_utf8 :: "string \<Rightarrow> bool" where
  "valid_utf8 s = (if s = [] then True
     else \<not> (fst (decode_rune s) = rune_error \<and> snd (decode_rune s) = 1) \<and> valid_utf8 (drop (snd (decode_rune s)) s))"
  by pat_completeness simp
termination
proof (relation "measure length")
  show "wf (measure length)" by (rule wf_measure)
  fix s :: string
  assume "s \<noteq> []"
  with decode_rune_size [OF this]
  show "(drop (snd (decode_rune s)) s, s) \<in> measure length" by simp
qed

declare valid_utf8.simps [simp del]

definition replacement_char :: string where
  "replacement_char = map char_of [0xEF, 0xBF, 0xBD :: nat]"

lemma valid_utf8_Nil [simp]: "valid_utf8 []"
  by (simp add: valid_utf8.simps)

lemma replace_invalid_valid: "valid_utf8 s \<Longrightarrow> replace_invalid r s = s"
proof (induction r s rule: replace_invalid.induct)
  case (1 r s)
  show ?case
  proof (cases "s = []")
    case False
    with 1(2) have "\<not> (fst (decode_rune s) = rune_error \<and> snd (decode_rune s) = 1)"
      and "valid_utf8 (drop (snd (decode_rune s)) s)"
      by (simp_all add: valid_utf8.simps [of s])
    with False 1(1) show ?thesis by (subst replace_invalid.simps) auto
  qed (simp add: replace_invalid.simps)
qed

lemma valid_utf8_ascii:
  "valid_utf8 (c # s) \<longleftrightarrow> valid_utf8 s" if "of_char c < (0x80 :: nat)"
  using that by (subst valid_utf8.simps) (simp add: decode_rune_def rune_error_def)

section \<open>Values and the heap\<close>

text \<open>
  A field of a struct carries its name, its \<open>json\<close> tag and whether it is exported. A slice and a
  map carry their type and the address of their backing cell (\<open>None\<close> for nil), a map also
  whether its keys are strings. An interface value is its dynamic value, \<open>VNil\<close> when it is nil.
\<close>

datatype go_value =
    VNil
  | VBool bool
  | VString string
  | VInt int
  | VFloat float64
  | VPointer "nat option"
  | VBytes string
  | VSlice string "nat option"
  | VArray "go_value list"
  | VMap string bool "nat option"
  | VStruct "((string \<times> string \<times> bool) \<times> go_value) list"
  | VOther string

datatype go_cell =
    CellValue go_value
  | CellElems "go_value list"
  | CellEntries "(string \<times> go_value) list"

type_synonym go_heap = "go_cell list"

text \<open>Reading a cell of another shape does not happen in a typed program.\<close>

definition pointee :: "go_heap \<Rightarrow> nat \<Rightarrow> go_value" where
  "pointee h a = (if a < length h then (case h ! a of CellValue v \<Rightarrow> v | _ \<Rightarrow> VNil) else VNil)"

definition slice_elems :: "go_heap \<Rightarrow> nat \<Rightarrow> go_value list" where
  "slice_elems h a = (if a < length h then (case h ! a of CellElems vs \<Rightarrow> vs | _ \<Rightarrow> []) else [])"

definition map_entries :: "go_heap \<Rightarrow> nat \<Rightarrow> (string \<times> go_value) list" where
  "map_entries h a = (if a < length h then (case h ! a of CellEntries es \<Rightarrow> es | _ \<Rightarrow> []) else [])"

section \<open>Decoded JSON on the heap\<close>

abbreviation slice_type :: string where "slice_type \<equiv> ''[]interface {}''"
abbreviation map_type :: string where "map_type \<equiv> ''map[string]interface {}''"

text \<open>
  A tree of \<open>nil\<close>, \<open>bool\<close>, \<open>string\<close>, \<open>json.Number\<close> (of kind \<open>String\<close>), \<open>[]any\<close> and
  \<open>map[string]any\<close>: each slice and each map has a cell of its own, allocated after those below it.
\<close>

fun store_json :: "json \<Rightarrow> go_heap \<Rightarrow> go_value \<times> go_heap"
  and store_list :: "json list \<Rightarrow> go_heap \<Rightarrow> go_value list \<times> go_heap"
  and store_entries :: "(string \<times> json) list \<Rightarrow> go_heap \<Rightarrow> (string \<times> go_value) list \<times> go_heap" where
  "store_json JNull h = (VNil, h)"
| "store_json (JBool b) h = (VBool b, h)"
| "store_json (JNumber n) h = (VString n, h)"
| "store_json (JString s) h = (VString s, h)"
| "store_json (JArray xs) h = (case store_list xs h of (vs, h') \<Rightarrow>
     (VSlice slice_type (Some (length h')), h' @ [CellElems vs]))"
| "store_json (JObject kvs) h = (case store_entries kvs h of (es, h') \<Rightarrow>
     (VMap map_type True (Some (length h')), h' @ [CellEntries es]))"
| "store_list [] h = ([], h)"
| "store_list (x # xs) h = (case store_json x h of (v, h1) \<Rightarrow>
     case store_list xs h1 of (vs, h2) \<Rightarrow> (v # vs, h2))"
| "store_entries [] h = ([], h)"
| "store_entries ((k, x) # xs) h = (case store_json x h of (v, h1) \<Rightarrow>
     case store_entries xs h1 of (es, h2) \<Rightarrow> ((k, v) # es, h2))"

section \<open>Encoding and decoding\<close>

text \<open>
  \<open>json.Marshal\<close> refuses a \<open>json.Number\<close> that is no number (the empty one is written as 0).
  The decoder gives back each number as its text; invalid UTF-8 comes back as U+FFFD; of two
  keys that become equal, the later in the encoder's order counts; nesting beyond 10000 is
  refused.
\<close>

fun json_depth :: "json \<Rightarrow> nat" where
  "json_depth (JArray xs) = Suc (fold max (map json_depth xs) 0)"
| "json_depth (JObject kvs) = Suc (fold max (map (\<lambda>(k, v). json_depth v) kvs) 0)"
| "json_depth _ = 0"

abbreviation max_nesting :: nat where "max_nesting \<equiv> 10000"

definition clean_text :: "string \<Rightarrow> string" where
  "clean_text s = replace_invalid replacement_char s"

fun last_wins :: "(string \<times> 'v) list \<Rightarrow> (string \<times> 'v) list" where
  "last_wins [] = []"
| "last_wins ((k, v) # kvs) = (if has_key kvs k then last_wins kvs else (k, v) # last_wins kvs)"

fun numbers_ok :: "json \<Rightarrow> bool" where
  "numbers_ok (JNumber n) \<longleftrightarrow> n = [] \<or> valid_number n"
| "numbers_ok (JArray xs) \<longleftrightarrow> list_all numbers_ok xs"
| "numbers_ok (JObject kvs) \<longleftrightarrow> list_all (\<lambda>(k, v). numbers_ok v) kvs"
| "numbers_ok _ \<longleftrightarrow> True"

fun decode_encoded :: "json \<Rightarrow> json" where
  "decode_encoded (JNumber n) = JNumber (if n = [] then ''0'' else n)"
| "decode_encoded (JString s) = JString (clean_text s)"
| "decode_encoded (JArray xs) = JArray (map decode_encoded xs)"
| "decode_encoded (JObject kvs) = JObject (last_wins (map (\<lambda>(k, v). (clean_text k, v))
     (sort_key fst (map (\<lambda>(k, v). (k, decode_encoded v)) kvs))))"
| "decode_encoded v = v"

end
