(* ===== verification/Cachekey.thy ===== *)
theory Cachekey
  imports Go_Digest Go_Value
begin

text \<open>
  The identity of a cached operation, \<open>internal/cachekey\<close>: the cache mode, the normalisation of an
  operation with its refusal of credential headers, the check that a value can be encoded, the
  canonical JSON text and its SHA-256 digest.
\<close>

section \<open>The operation\<close>

abbreviation OperationSchemaVersion :: string where
  "OperationSchemaVersion \<equiv> ''utility-llm.operation.v1''"

abbreviation DefaultVersion :: string where
  "DefaultVersion \<equiv> ''operation-v2''"

record endpoint =
  ep_identity :: string
  ep_method :: string
  ep_path :: string

record response_projection =
  proj_provider :: string
  proj_kind :: string
  proj_version :: string

record operation =
  schema_version :: string
  op_cache_domain :: string
  op_protocol :: string
  op_endpoint :: endpoint
  op_model :: string
  op_payload :: json
  semantic_headers :: "json_map option"
  op_projection :: response_projection

datatype cachekey_error =
    UnsupportedMode string
  | UnsupportedSchemaVersion string
  | OperationIncomplete
  | CredentialHeader string
  | NonFiniteNumber string
  | ValueCycle string
  | NonStringKeys string
  | UnsupportedValue string string
  | EncodeFailed
  | DecodeFailed

section \<open>The cache mode\<close>

type_synonym cache_mode = string

abbreviation ModeOff :: cache_mode where "ModeOff \<equiv> ''off''"
abbreviation ModeCache :: cache_mode where "ModeCache \<equiv> ''cache''"
abbreviation ModeRefresh :: cache_mode where "ModeRefresh \<equiv> ''refresh''"

definition resolve_mode :: "string \<Rightarrow> cachekey_error + cache_mode" where
  "resolve_mode value = (let m = to_lower (trim_space value) in
     if m = [] \<or> m = ModeOff then Inr ModeOff
     else if m = ModeCache then Inr ModeCache
     else if m = ModeRefresh then Inr ModeRefresh
     else Inl (UnsupportedMode value))"

section \<open>Credential headers\<close>

text \<open>
  The expression \<open>forbiddenSemanticHeader\<close>: one of the words, whatever the case, between the ends of
  the header and its dashes and underscores. \<open>fold_name\<close> folds the case the way \<open>(?i)\<close> does on
  ASCII letters.
\<close>

definition credential_words :: "string list" where
  "credential_words = [''authorization'', ''apikey'', ''api-key'', ''api_key'', ''secret'', ''token'',
     ''password'', ''credential'', ''cf-access-client-secret'']"

definition separator :: "char \<Rightarrow> bool" where
  "separator c \<longleftrightarrow> c = CHR ''-'' \<or> c = CHR ''_''"

definition word_ends_here :: "string \<Rightarrow> string \<Rightarrow> bool" where
  "word_ends_here s w \<longleftrightarrow> (case strip_prefix w s of None \<Rightarrow> False
     | Some rest \<Rightarrow> rest = [] \<or> separator (hd rest))"

fun word_starts_after :: "string \<Rightarrow> bool" where
  "word_starts_after [] \<longleftrightarrow> False"
| "word_starts_after (c # s) \<longleftrightarrow>
     separator c \<and> list_ex (word_ends_here s) credential_words \<or> word_starts_after s"

definition forbidden_semantic_header :: "string \<Rightarrow> bool" where
  "forbidden_semantic_header header \<longleftrightarrow> (let h = fold_name header in
     list_ex (word_ends_here h) credential_words \<or> word_starts_after h)"

section \<open>Values that can be encoded\<close>

type_synonym visit = "string \<times> nat"

text \<open>The largest finite float is a bound no finite value passes, so only NaN and the infinities do.\<close>

definition math_is_invalid :: "float64 \<Rightarrow> bool" where
  "math_is_invalid x \<longleftrightarrow> (case x of Fin _ \<Rightarrow> False | _ \<Rightarrow> True)"

definition element_path :: "string \<Rightarrow> nat \<Rightarrow> string" where
  "element_path path i = path @ ''['' @ show_nat i @ '']''"

definition elem_paths :: "string \<Rightarrow> go_value list \<Rightarrow> (string \<times> go_value) list" where
  "elem_paths path vs = map (\<lambda>(i, v). (element_path path i, v)) (enumerate 0 vs)"

definition entry_paths :: "string \<Rightarrow> (string \<times> go_value) list \<Rightarrow> (string \<times> go_value) list" where
  "entry_paths path es = map (\<lambda>(k, v). (path @ ''.'' @ k, v)) es"

definition encoded_field :: "string \<times> string \<times> bool \<Rightarrow> bool" where
  "encoded_field f \<longleftrightarrow> (case f of (name, tag, exported) \<Rightarrow> exported \<and> tag \<noteq> ''-'')"

definition field_paths :: "string \<Rightarrow> ((string \<times> string \<times> bool) \<times> go_value) list \<Rightarrow> (string \<times> go_value) list" where
  "field_paths path fs = map (\<lambda>(f, v). (path @ ''.'' @ fst f, v)) (filter (\<lambda>(f, v). encoded_field f) fs)"

text \<open>
  \<open>validateReflect\<close>: the outer \<open>None\<close> says that the fuel ran out, that is, that the recursion is
  deeper than the fuel; \<open>Some None\<close> is the nil error.
\<close>

fun validate_reflect :: "nat \<Rightarrow> go_heap \<Rightarrow> go_value \<Rightarrow> string \<Rightarrow> visit list \<Rightarrow> cachekey_error option option"
  and validate_each :: "nat \<Rightarrow> go_heap \<Rightarrow> (string \<times> go_value) list \<Rightarrow> visit list \<Rightarrow> cachekey_error option option" where
  "validate_reflect 0 h v path seen = None"
| "validate_reflect (Suc n) h v path seen = (case v of
     VFloat x \<Rightarrow> Some (if math_is_invalid x then Some (NonFiniteNumber path) else None)
   | VPointer None \<Rightarrow> Some None
   | VPointer (Some a) \<Rightarrow> validate_reflect n h (pointee h a) path seen
   | VSlice t None \<Rightarrow> Some None
   | VSlice t (Some a) \<Rightarrow>
       (if (t, a) \<in> set seen then Some (Some (ValueCycle path))
        else validate_each n h (elem_paths path (slice_elems h a)) ((t, a) # seen))
   | VArray vs \<Rightarrow> validate_each n h (elem_paths path vs) seen
   | VMap t string_keys a \<Rightarrow>
       (if \<not> string_keys then Some (Some (NonStringKeys path))
        else (case a of None \<Rightarrow> Some None
          | Some a \<Rightarrow> (if (t, a) \<in> set seen then Some (Some (ValueCycle path))
              else validate_each n h (entry_paths path (map_entries h a)) ((t, a) # seen))))
   | VStruct fs \<Rightarrow> validate_each n h (field_paths path fs) seen
   | VOther k \<Rightarrow> Some (Some (UnsupportedValue path k))
   | _ \<Rightarrow> Some None)"
| "validate_each n h [] seen = Some None"
| "validate_each n h ((path, v) # rest) seen = (case validate_reflect n h v path seen of
     None \<Rightarrow> None
   | Some (Some e) \<Rightarrow> Some (Some e)
   | Some None \<Rightarrow> validate_each n h rest seen)"

text \<open>
  \<open>validateJSONSafe\<close> on a decoded JSON value: on the heap that holds it, no deeper than it has
  cells.
\<close>

definition validate_json_safe :: "json \<Rightarrow> string \<Rightarrow> cachekey_error option" where
  "validate_json_safe v path = (case store_json v [] of (v0, h) \<Rightarrow>
     (case validate_reflect (length h + 1) h v0 path [] of None \<Rightarrow> None | Some r \<Rightarrow> r))"

section \<open>Normalisation\<close>

text \<open>
  \<open>strings.ToUpper\<close> maps an ASCII string byte by byte; on others it follows the Unicode tables,
  the parameter \<open>upper\<close>.
\<close>

definition ascii_upper :: "char \<Rightarrow> char" where
  "ascii_upper c = (let n = of_char c :: nat in if 97 \<le> n \<and> n \<le> 122 then char_of (n - 32) else c)"

definition is_ascii :: "string \<Rightarrow> bool" where
  "is_ascii s \<longleftrightarrow> list_all (\<lambda>c. of_char c < (0x80 :: nat)) s"

definition to_upper :: "(string \<Rightarrow> string) \<Rightarrow> string \<Rightarrow> string" where
  "to_upper upper s = (if is_ascii s then map ascii_upper s else upper s)"

definition trimmed_operation :: "(string \<Rightarrow> string) \<Rightarrow> operation \<Rightarrow> operation" where
  "trimmed_operation upper op = \<lparr>schema_version = OperationSchemaVersion,
     op_cache_domain = trim_space (op_cache_domain op), op_protocol = trim_space (op_protocol op),
     op_endpoint = \<lparr>ep_identity = trim_space (ep_identity (op_endpoint op)),
       ep_method = to_upper upper (trim_space (ep_method (op_endpoint op))),
       ep_path = trim_space (ep_path (op_endpoint op))\<rparr>,
     op_model = trim_space (op_model op), op_payload = op_payload op,
     semantic_headers = Some (case semantic_headers op of None \<Rightarrow> [] | Some hs \<Rightarrow> hs),
     op_projection = \<lparr>proj_provider = trim_space (proj_provider (op_projection op)),
       proj_kind = trim_space (proj_kind (op_projection op)),
       proj_version = trim_space (proj_version (op_projection op))\<rparr>\<rparr>"

definition operation_incomplete :: "operation \<Rightarrow> bool" where
  "operation_incomplete op \<longleftrightarrow> op_protocol op = [] \<or> ep_identity (op_endpoint op) = []
     \<or> ep_method (op_endpoint op) = [] \<or> ep_path (op_endpoint op) = [] \<or> op_model op = []
     \<or> proj_provider (op_projection op) = [] \<or> proj_kind (op_projection op) = []
     \<or> proj_version (op_projection op) = []"

definition headers_of :: "operation \<Rightarrow> json_map" where
  "headers_of op = (case semantic_headers op of None \<Rightarrow> [] | Some hs \<Rightarrow> hs)"

definition normalize_operation :: "(string \<Rightarrow> string) \<Rightarrow> operation \<Rightarrow> cachekey_error + operation" where
  "normalize_operation upper op =
     (if trim_space (schema_version op) \<noteq> OperationSchemaVersion
        then Inl (UnsupportedSchemaVersion (schema_version op))
      else (let n = trimmed_operation upper op in
        if operation_incomplete n then Inl OperationIncomplete
        else (case find forbidden_semantic_header (map fst (headers_of n)) of
            Some header \<Rightarrow> Inl (CredentialHeader header)
          | None \<Rightarrow> (case validate_json_safe (op_payload n) ''operation.payload'' of
              Some e \<Rightarrow> Inl e
            | None \<Rightarrow> (case validate_json_safe (JObject (headers_of n)) ''operation.semanticHeaders'' of
                Some e \<Rightarrow> Inl e
              | None \<Rightarrow> Inr n)))))"

section \<open>The canonical text and its digest\<close>

text \<open>The keys sorted, each with the text of its value.\<close>

fun write_canonical :: "json \<Rightarrow> string" where
  "write_canonical JNull = ''null''"
| "write_canonical (JBool b) = (if b then ''true'' else ''false'')"
| "write_canonical (JString s) = json_quote s"
| "write_canonical (JNumber n) = n"
| "write_canonical (JArray xs) = ''['' @ join_with '','' (map write_canonical xs) @ '']''"
| "write_canonical (JObject kvs) =
     (let texts = map (\<lambda>(k, v). (k, write_canonical v)) kvs;
          keys = sort (map fst kvs)
      in ''{'' @ join_with '','' (map (\<lambda>k. json_quote k @ '':'' @ the (map_of texts k)) keys) @ ''}'')"

definition stable_json :: "json \<Rightarrow> cachekey_error + string" where
  "stable_json v = (case validate_json_safe v ''$'' of
     Some e \<Rightarrow> Inl e
   | None \<Rightarrow> (if \<not> numbers_ok v then Inl EncodeFailed
       else if max_nesting < json_depth v then Inl DecodeFailed
       else Inr (write_canonical (decode_encoded v))))"

text \<open>The object \<open>json.Marshal\<close> writes for an \<open>Operation\<close>.\<close>

definition operation_json :: "operation \<Rightarrow> json" where
  "operation_json op = JObject (
     (''schemaVersion'', JString (schema_version op)) #
     (if op_cache_domain op = [] then [] else [(''cacheDomain'', JString (op_cache_domain op))]) @
     [(''protocol'', JString (op_protocol op)),
      (''endpoint'', JObject [(''identity'', JString (ep_identity (op_endpoint op))),
         (''method'', JString (ep_method (op_endpoint op))), (''path'', JString (ep_path (op_endpoint op)))]),
      (''model'', JString (op_model op)), (''payload'', op_payload op),
      (''semanticHeaders'', JObject (headers_of op)),
      (''responseProjection'', JObject [(''provider'', JString (proj_provider (op_projection op))),
         (''kind'', JString (proj_kind (op_projection op))), (''version'', JString (proj_version (op_projection op)))])])"

definition hash_input :: "(string \<Rightarrow> string) \<Rightarrow> operation \<Rightarrow> string \<Rightarrow> cachekey_error + string" where
  "hash_input upper op version = (case normalize_operation upper op of
     Inl e \<Rightarrow> Inl e
   | Inr n \<Rightarrow> (let v = trim_space version; v' = (if v = [] then DefaultVersion else v) in
       stable_json (JObject [(''operation'', operation_json n), (''cacheVersion'', JString v')])))"

definition hex_encode :: "string \<Rightarrow> string" where
  "hex_encode s = concat (map (\<lambda>c. [hex_digit (of_char c div 16), hex_digit (of_char c)]) s)"

definition operation_hash :: "(string \<Rightarrow> string) \<Rightarrow> operation \<Rightarrow> string \<Rightarrow> cachekey_error + string" where
  "operation_hash upper op version = (case hash_input upper op version of
     Inl e \<Rightarrow> Inl e
   | Inr payload \<Rightarrow> Inr (hex_encode (sha256 payload)))"

end
