(* ===== verification/Runtime_Types.thy ===== *)
theory Runtime_Types
  imports Retry Accounting Cachekey "HOL-Library.AList"
begin

text \<open>
  The data of \<open>internal/runtime\<close>: connections, calls, provider results, attempt and call records,
  cached results (\<open>types.go\<close>, \<open>cache.go\<close>), the observability context and its merge
  (\<open>context.go\<close>), and search evidence with its validation (\<open>search.go\<close>).
\<close>

section \<open>Connections and calls\<close>

record connection =
  conn_id :: string
  conn_provider :: string
  api_inference_type :: string
  conn_base_url :: string
  conn_cache_domain :: string
  supports_web_search :: bool
  conn_pricing :: "pricing option"

record credential =
  api_key :: string
  cred_headers :: "(string \<times> string) list option"

record resolved_connection =
  rc_connection :: connection
  rc_credential :: credential

record function_call =
  fc_name :: string
  fc_arguments :: string

record tool_call =
  tc_id :: string
  tc_type :: string
  tc_function :: function_call
  tc_item_id :: string

record message =
  msg_role :: string
  msg_content :: string
  msg_name :: string
  msg_tool_call_id :: string
  msg_tool_calls :: "tool_call list"

record function_tool =
  ft_name :: string
  ft_description :: string
  ft_parameters :: string
  ft_strict :: "bool option"

record tool_choice =
  choice_mode :: string
  choice_name :: string

record origin =
  or_client :: string
  or_component :: string
  or_operation_id :: string
  or_parent_run_id :: string
  or_job_id :: string
  or_test_run_id :: string
  or_test_id :: string
  or_source_revision :: string

record observability_context =
  task_id :: string
  task_slug :: string
  item_id :: string
  run_id :: string
  organization_id :: string
  query_set_id :: string
  environment :: string
  release :: string
  prompt_labels :: "string list option"
  context_tags :: "(string \<times> string) list option"
  context_metadata :: "(string \<times> string) list option"

record repair_history_entry =
  rh_stage :: string
  rh_attempt :: int
  rh_output :: string
  rh_validation_error :: string

record repair_request =
  rq_attempt :: int
  rq_max_attempts :: int
  rq_stage :: string
  rq_branch :: string
  rq_target_schema :: string
  rq_history :: "repair_history_entry list"

text \<open>
  A call. The search memo, a shared map only the providers read and write, is modelled by its
  presence; the progress callback and the observer belong to the environment of a run.
\<close>

record llm_call =
  call_connections :: "(string \<times> resolved_connection) list"
  call_model :: string
  call_messages :: "message list"
  call_type :: string
  call_schema :: string
  call_tools :: "function_tool list"
  call_tool_choice :: tool_choice
  call_effort :: string
  web_search :: bool
  search_memo :: bool
  provider_options :: "json_map option"
  call_context :: observability_context
  call_origin :: origin
  validate_structured :: "(json \<Rightarrow> go_error option) option"
  call_repair :: "repair_request option"

record prepared_operation =
  prep_operation :: operation
  prep_opaque :: json

definition with_cache_domain :: "prepared_operation \<Rightarrow> connection \<Rightarrow> prepared_operation" where
  "with_cache_domain p c = p\<lparr>prep_operation := (prep_operation p)\<lparr>op_cache_domain :=
     (if conn_cache_domain c = [] then conn_id c else conn_cache_domain c)\<rparr>\<rparr>"

section \<open>Results and records\<close>

record search_source =
  src_url :: string
  src_title :: string

record search_citation =
  cit_url :: string
  cit_title :: string
  cit_start :: int
  cit_end :: int

record search_result =
  search_mode :: string
  search_executed :: bool
  search_sources :: "search_source list option"
  search_citations :: "search_citation list"
  entry_point_html :: string
  search_cost_status :: string

record stream_diagnostics =
  correlation_id :: string
  headers_ms :: "int option"
  received_bytes :: int
  event_count :: int
  output_bytes :: int
  output_code_points :: int
  first_event_ms :: "int option"
  first_output_ms :: "int option"
  last_event_at :: "gtime option"
  last_output_at :: "gtime option"
  terminal_state :: string

definition zero_stream :: stream_diagnostics where
  "zero_stream = \<lparr>correlation_id = [], headers_ms = None, received_bytes = 0, event_count = 0,
     output_bytes = 0, output_code_points = 0, first_event_ms = None, first_output_ms = None,
     last_event_at = None, last_output_at = None, terminal_state = []\<rparr>"

record wait_diagnostics =
  wait_reason :: category
  wait_planned :: duration
  wait_actual :: duration
  wait_retry_after :: duration

text \<open>The output, of type \<open>any\<close>, is a decoded JSON value; \<open>JNull\<close> stands for \<open>nil\<close>.\<close>

record provider_result =
  pr_assistant_text :: string
  pr_search :: "search_result option"
  pr_output :: json
  pr_accounting :: ledger
  pr_stream :: stream_diagnostics
  provider_dispatched :: bool

record execution_target =
  et_connection_id :: string
  et_provider :: string
  et_protocol :: string
  et_endpoint :: string
  et_model_id :: string

record attempt_record =
  at_number :: int
  at_connection_id :: string
  at_target :: execution_target
  at_provider_used :: bool
  at_category :: category
  at_status :: int
  at_retryable :: bool
  at_delay :: duration
  at_duration :: duration
  at_repair :: bool
  at_code :: string
  at_type :: string
  at_provider_request_id :: string
  at_stage :: string
  at_branch :: string
  at_trigger_attempt :: int
  at_input_attempts :: "int list"
  at_transport_retry_of :: int
  at_started_at :: gtime
  at_finished_at :: gtime
  at_effort :: string
  at_dispatch_observed :: bool
  at_stream :: "stream_diagnostics option"
  at_wait_diagnostics :: "wait_diagnostics option"

abbreviation ResultSourceNone :: string where "ResultSourceNone \<equiv> ''none''"
abbreviation ResultSourceProvider :: string where "ResultSourceProvider \<equiv> ''provider''"
abbreviation ResultSourceCache :: string where "ResultSourceCache \<equiv> ''cache''"

record result_source =
  rs_kind :: string
  rs_attempt_number :: int
  rs_producer :: "execution_target option"

record cache_facts =
  cf_mode :: cache_mode
  cf_status :: string
  cf_operation_hash :: string
  cf_original_hash :: string
  cf_rerun_hash :: string
  cf_version :: string
  cf_served :: bool
  cf_written :: bool

record branch_cache =
  bc_branch :: string
  bc_target :: execution_target
  bc_cache :: cache_facts

record call_diagnostics =
  dg_stage :: string
  dg_branch :: string
  dg_stop_reason :: string
  dg_attempts_used :: int
  dg_attempts_remaining :: int
  dg_elapsed :: duration
  dg_total_wait :: duration
  dg_received_bytes :: int
  dg_event_count :: int
  dg_output_bytes :: int
  dg_output_code_points :: int
  dg_effective_timeout :: "duration option"
  dg_deadline_at :: "gtime option"
  dg_branch_caches :: "branch_cache list"

record call_record =
  cr_assistant_text :: string
  cr_search :: "search_result option"
  cr_call_id :: string
  cr_trace_id :: string
  cr_output :: json
  cr_selected_target :: execution_target
  cr_result_source :: result_source
  cr_result_ledger :: ledger
  cr_provider_ledger :: ledger
  cr_attempts :: "attempt_record list"
  cr_parse_failure :: string
  cr_prepared :: "prepared_operation option"
  cr_generation_target :: execution_target
  cr_branch :: string
  cr_stop_reason :: string
  cr_diagnostics :: call_diagnostics
  cr_origin :: origin
  cr_cache :: cache_facts

record cached_result =
  ca_provider_result :: provider_result
  ca_producer :: execution_target
  ca_generation_target :: execution_target
  ca_completed_by :: string

record progress_snapshot =
  ps_sequence :: int
  ps_run_id :: string
  ps_call_id :: string
  ps_trace_id :: string
  ps_type :: string
  ps_stage :: string
  ps_branch :: string
  ps_connection_id :: string
  ps_effort :: string
  ps_attempt :: int
  ps_attempts_used :: int
  ps_attempts_remaining :: int
  ps_elapsed_ms :: int
  ps_deadline_remaining_ms :: "int option"
  ps_received_bytes :: int
  ps_event_count :: int
  ps_output_bytes :: int
  ps_output_code_points :: int
  ps_last_activity :: gtime
  ps_stop_reason :: string
  ps_terminal :: bool
  ps_max_attempts :: int
  ps_effective_timeout :: "duration option"
  ps_origin :: origin
  ps_attempts :: "attempt_record list"
  ps_accounting :: "(ledger \<times> ledger) option"

definition zero_execution_target :: execution_target where
  "zero_execution_target = \<lparr>et_connection_id = [], et_provider = [], et_protocol = [],
     et_endpoint = [], et_model_id = []\<rparr>"

definition zero_diagnostics :: call_diagnostics where
  "zero_diagnostics = \<lparr>dg_stage = [], dg_branch = [], dg_stop_reason = [], dg_attempts_used = 0,
     dg_attempts_remaining = 0, dg_elapsed = 0, dg_total_wait = 0, dg_received_bytes = 0,
     dg_event_count = 0, dg_output_bytes = 0, dg_output_code_points = 0, dg_effective_timeout = None,
     dg_deadline_at = None, dg_branch_caches = []\<rparr>"

definition zero_origin :: origin where
  "zero_origin = \<lparr>or_client = [], or_component = [], or_operation_id = [], or_parent_run_id = [],
     or_job_id = [], or_test_run_id = [], or_test_id = [], or_source_revision = []\<rparr>"

text \<open>The error \<open>ErrCacheIntegrity\<close>.\<close>

definition cache_integrity_error :: go_error where
  "cache_integrity_error = ErrText ''CACHE_INTEGRITY''"

section \<open>The observability context\<close>

definition merge_scalar :: "string \<Rightarrow> string \<Rightarrow> string" where
  "merge_scalar base value = (if value \<noteq> [] then value else base)"

text \<open>A Go map as an association list with distinct keys; \<open>None\<close> is the nil map.\<close>

definition put_all :: "(string \<times> 'v) list \<Rightarrow> (string \<times> 'v) list \<Rightarrow> (string \<times> 'v) list" where
  "put_all base override = fold (\<lambda>(k, v). AList.update k v) override base"

definition merge_string_map ::
    "(string \<times> string) list option \<Rightarrow> (string \<times> string) list option \<Rightarrow> (string \<times> string) list option" where
  "merge_string_map base override =
     (if base = None \<and> override = None then None
      else Some (put_all (put_all [] (case base of None \<Rightarrow> [] | Some m \<Rightarrow> m))
        (case override of None \<Rightarrow> [] | Some m \<Rightarrow> m)))"

text \<open>\<open>append([]string(nil), labels...)\<close> is nil when there are no labels.\<close>

definition copy_labels :: "string list option \<Rightarrow> string list option" where
  "copy_labels ls = (case ls of Some (x # xs) \<Rightarrow> Some (x # xs) | _ \<Rightarrow> None)"

definition clone_context :: "observability_context \<Rightarrow> observability_context" where
  "clone_context c = c\<lparr>prompt_labels := copy_labels (prompt_labels c),
     context_tags := merge_string_map None (context_tags c),
     context_metadata := merge_string_map None (context_metadata c)\<rparr>"

definition merge_observability_context ::
    "observability_context \<Rightarrow> observability_context \<Rightarrow> observability_context" where
  "merge_observability_context defaults request = (let r = clone_context defaults in
     \<lparr>task_id = merge_scalar (task_id r) (task_id request),
      task_slug = merge_scalar (task_slug r) (task_slug request),
      item_id = merge_scalar (item_id r) (item_id request),
      run_id = merge_scalar (run_id r) (run_id request),
      organization_id = merge_scalar (organization_id r) (organization_id request),
      query_set_id = merge_scalar (query_set_id r) (query_set_id request),
      environment = merge_scalar (environment r) (environment request),
      release = merge_scalar (release r) (release request),
      prompt_labels = (if prompt_labels request \<noteq> None then copy_labels (prompt_labels request) else prompt_labels r),
      context_tags = merge_string_map (context_tags r) (context_tags request),
      context_metadata = merge_string_map (context_metadata r) (context_metadata request)\<rparr>)"

definition metric_labels :: "observability_context \<Rightarrow> (string \<times> string) list" where
  "metric_labels c = (if environment c \<noteq> [] then [(''environment'', environment c)] else [])"

section \<open>Search evidence\<close>

text \<open>
  The parser \<open>url.Parse\<close> is a parameter: the scheme, the host name and whether there is a user
  part, or \<open>None\<close> when it fails.
\<close>

type_synonym url_parser = "string \<Rightarrow> (string \<times> string \<times> bool) option"

definition valid_search_url :: "url_parser \<Rightarrow> string \<Rightarrow> bool" where
  "valid_search_url parse raw \<longleftrightarrow> (case parse raw of None \<Rightarrow> False
     | Some (scheme, hostname, user) \<Rightarrow>
         (scheme = ''https'' \<or> scheme = ''http'') \<and> hostname \<noteq> [] \<and> \<not> user)"

abbreviation max_search_entry_point_code_points :: nat where
  "max_search_entry_point_code_points \<equiv> 32768"

definition validate_search_result :: "url_parser \<Rightarrow> search_result option \<Rightarrow> go_error option" where
  "validate_search_result parse result = (case result of None \<Rightarrow> None | Some r \<Rightarrow>
     (if search_mode r \<noteq> ''native'' \<and> search_mode r \<noteq> ''jina''
        then Some (ErrText ''runtime: search mode is invalid'')
      else if search_cost_status r \<noteq> ''unavailable''
        then Some (ErrText ''runtime: search cost status is invalid'')
      else (case search_sources r of
          None \<Rightarrow> Some (ErrText ''runtime: search source list is invalid'')
        | Some sources \<Rightarrow>
           (if length sources > 50 then Some (ErrText ''runtime: search source list is invalid'')
            else if list_ex (\<lambda>s. \<not> valid_search_url parse (src_url s)) sources
              then Some (ErrText ''runtime: search source URL is invalid'')
            else if list_ex (\<lambda>c. \<not> valid_search_url parse (cit_url c) \<or> cit_start c < 0 \<or> cit_end c \<le> cit_start c)
                (search_citations r)
              then Some (ErrText ''runtime: search citation is invalid'')
            else if length (runes (entry_point_html r)) > max_search_entry_point_code_points
              then Some (ErrText (''runtime: search entry point exceeds '' @ show_nat max_search_entry_point_code_points
                @ '' code points''))
            else None))))"

end
