(* ===== verification/Runtime.thy ===== *)
theory Runtime
  imports Runtime_Types Accumulator
begin

text \<open>
  The execution of one call, \<open>internal/runtime/execute.go\<close>: the run's environment, the admission
  of results, the progress snapshots, and \<open>Execute\<close> with its retry loop. Without an observer a run
  reads and changes the world only through the functions of its environment.
\<close>

section \<open>The environment of a run\<close>

text \<open>
  The execution of one prepared operation by a provider: it reports stream measurements through
  the callback \<open>StreamProgress\<close> any number of times, each time going on from the world the
  callback leaves, and then returns.
\<close>

datatype 'w execution =
    Report stream_diagnostics 'w "'w \<Rightarrow> 'w execution"
  | Finished provider_result "go_error option" 'w

record 'w cache_api =
  cache_get :: "string \<Rightarrow> string \<Rightarrow> 'w \<Rightarrow> (go_error + cached_result option) \<times> 'w"
  cache_set :: "string \<Rightarrow> string \<Rightarrow> cached_result \<Rightarrow> 'w \<Rightarrow> go_error option \<times> 'w"

record 'w runtime_env =
  ctx_given :: bool
  ctx_err :: "'w \<Rightarrow> go_error option"
  ctx_deadline :: "gtime option"
  env_now :: "'w \<Rightarrow> gtime \<times> 'w"
  env_random :: "'w \<Rightarrow> float64 \<times> 'w"
  env_wait :: "duration \<Rightarrow> 'w \<Rightarrow> go_error option \<times> 'w"
  executor_given :: bool
  env_prepare :: "connection \<Rightarrow> credential \<Rightarrow> llm_call \<Rightarrow> 'w \<Rightarrow> (go_error + prepared_operation) \<times> 'w"
  env_execute :: "prepared_operation \<Rightarrow> 'w \<Rightarrow> 'w execution"
  env_cache :: "'w cache_api option"
  env_progress :: "(progress_snapshot \<Rightarrow> 'w \<Rightarrow> 'w) option"
  env_url_parse :: url_parser
  env_upper :: "string \<Rightarrow> string"
  env_hash_error :: "cachekey_error \<Rightarrow> string"

text \<open>
  What the body of \<open>Execute\<close> and its closures share: the arguments, and the instant the run
  started.
\<close>

record 'w run_context =
  x_env :: "'w runtime_env"
  x_connection :: connection
  x_credential :: credential
  x_call :: llm_call
  x_policy :: policy
  x_cache_mode :: cache_mode
  x_cache_version :: string
  x_call_id :: string
  x_trace_id :: string
  x_started_at :: gtime

text \<open>The state of a run: the world, the record under construction and the progress variables.\<close>

record 'w run =
  world :: 'w
  run_record :: call_record
  progress_sequence :: int
  active_stream :: "stream_diagnostics option"

definition map_record :: "(call_record \<Rightarrow> call_record) \<Rightarrow> 'w run \<Rightarrow> 'w run" where
  "map_record f s = s\<lparr>run_record := f (run_record s)\<rparr>"

definition read_clock :: "'w runtime_env \<Rightarrow> 'w run \<Rightarrow> gtime \<times> 'w run" where
  "read_clock e s = (case env_now e (world s) of (t, w) \<Rightarrow> (t, s\<lparr>world := w\<rparr>))"

definition execution_context_error :: "'w runtime_env \<Rightarrow> gtime \<Rightarrow> 'w \<Rightarrow> go_error option" where
  "execution_context_error e now w = (case ctx_err e w of
     Some err \<Rightarrow> Some err
   | None \<Rightarrow> (case ctx_deadline e of
       Some deadline \<Rightarrow> if \<not> now < deadline then Some ErrDeadlineExceeded else None
     | None \<Rightarrow> None))"

definition check_context :: "'w runtime_env \<Rightarrow> 'w run \<Rightarrow> go_error option \<times> 'w run" where
  "check_context e s = (case read_clock e s of (t, s') \<Rightarrow> (execution_context_error e t (world s'), s'))"

section \<open>Targets\<close>

definition target_from_connection :: "connection \<Rightarrow> string \<Rightarrow> execution_target" where
  "target_from_connection c model = \<lparr>et_connection_id = conn_id c, et_provider = conn_provider c,
     et_protocol = api_inference_type c, et_endpoint = conn_base_url c, et_model_id = model\<rparr>"

definition target_from_prepared :: "connection \<Rightarrow> prepared_operation \<Rightarrow> execution_target" where
  "target_from_prepared c p = (let op = prep_operation p; t = target_from_connection c (op_model op) in
     t\<lparr>et_protocol := op_protocol op, et_endpoint := ep_identity (op_endpoint op),
       et_model_id := op_model op,
       et_provider := (if proj_provider (op_projection op) \<noteq> [] then proj_provider (op_projection op)
         else et_provider t)\<rparr>)"

section \<open>Admission of a result\<close>

definition normalized_ledger :: "ledger \<Rightarrow> ledger" where
  "normalized_ledger l =
     \<lparr>ledger_usage = (if usage_status (ledger_usage l) = [] then unavailable_usage else ledger_usage l),
      ledger_cost = (if cost_status (ledger_cost l) = [] then unavailable_cost else ledger_cost l)\<rparr>"

definition provider_error :: "string \<Rightarrow> string \<Rightarrow> category \<Rightarrow> go_error" where
  "provider_error text code category = ErrProvider (Some (ErrText text)) category code [] [] [] 0 0"

definition accounting_provider_error :: go_error where
  "accounting_provider_error =
     provider_error ''provider accounting is invalid'' ''ACCOUNTING_INVALID'' CategoryOther"

definition validate_ledger :: "ledger \<Rightarrow> go_error option" where
  "validate_ledger l =
     (if usage_validate (ledger_usage l) \<noteq> None then Some accounting_provider_error
      else if cost_validate (ledger_cost l) \<noteq> None then Some accounting_provider_error
      else None)"

definition accepted_output :: "json \<Rightarrow> bool" where
  "accepted_output output = (case output of
     JNull \<Rightarrow> False
   | JString text \<Rightarrow> trim_space text \<noteq> []
   | _ \<Rightarrow> True)"

definition validate_structured_value :: "(json \<Rightarrow> go_error option) option \<Rightarrow> json \<Rightarrow> go_error option" where
  "validate_structured_value validator value = (case validator of
     None \<Rightarrow> Some (ErrText ''runtime structured output validator is required'')
   | Some f \<Rightarrow> f value)"

definition admit_result ::
    "url_parser \<Rightarrow> provider_result \<Rightarrow> string \<Rightarrow> (json \<Rightarrow> go_error option) \<Rightarrow> go_error option" where
  "admit_result parse r ctype validate =
     (case validate_ledger (pr_accounting r) of
        Some e \<Rightarrow> Some e
      | None \<Rightarrow>
         (if \<not> accepted_output (pr_output r)
            then Some (provider_error ''provider returned no accepted output'' ''OUTPUT_REQUIRED'' CategoryOther)
          else if validate_search_result parse (pr_search r) \<noteq> None
            then Some (provider_error ''provider search metadata is invalid'' ''SEARCH_INVALID'' CategoryOther)
          else if ctype = ''structured'' then validate (pr_output r)
          else None))"

definition validate_cache_producer :: "execution_target \<Rightarrow> execution_target \<Rightarrow> go_error option" where
  "validate_cache_producer producer expected =
     (if trim_space (et_connection_id producer) = [] \<or> et_provider producer \<noteq> et_provider expected
         \<or> et_protocol producer \<noteq> et_protocol expected \<or> et_endpoint producer \<noteq> et_endpoint expected
         \<or> et_model_id producer \<noteq> et_model_id expected
      then Some cache_integrity_error else None)"

definition admit_cached_result ::
    "url_parser \<Rightarrow> execution_target \<Rightarrow> cached_result \<Rightarrow> llm_call \<Rightarrow> go_error option" where
  "admit_cached_result parse target cached c =
     (case validate_cache_producer (ca_producer cached) target of
        Some e \<Rightarrow> Some e
      | None \<Rightarrow> admit_result parse (ca_provider_result cached) (call_type c)
          (validate_structured_value (validate_structured c)))"

definition combine_accounting_failure :: "go_error option \<Rightarrow> go_error" where
  "combine_accounting_failure existing = (case existing of
     None \<Rightarrow> accounting_provider_error
   | Some e \<Rightarrow>
      (if errors_is e ErrCanceled \<or> errors_is e ErrDeadlineExceeded then e
       else (case errors_as_provider e of
           None \<Rightarrow> accounting_provider_error
         | Some pe \<Rightarrow>
            (if pe_code pe \<in> set [''ENDPOINT_POLICY'', ''TLS_OR_TRANSPORT_CONFIGURATION'', ''RESPONSE_TOO_LARGE''] then e
             else ErrProvider (pe_err accounting_provider_error) (pe_category accounting_provider_error)
               (pe_code accounting_provider_error) (pe_type pe) (pe_request_id pe) (pe_raw accounting_provider_error)
               (pe_status pe) (pe_retry_after pe)))))"

definition resolve_attempt_cost :: "ledger \<Rightarrow> connection \<Rightarrow> cost \<times> acc_error option" where
  "resolve_attempt_cost l c = (case conn_pricing c of
     None \<Rightarrow> (ledger_cost l, None)
   | Some p \<Rightarrow> (if cost_source (ledger_cost l) = ''reported'' then (ledger_cost l, None)
       else resolve_cost (ledger_usage l) p None))"

text \<open>What both loops do with the ledger of a result: normalise, price, observe.\<close>

definition settle_accounting :: "connection \<Rightarrow> provider_result \<Rightarrow> go_error option \<Rightarrow> provider_accumulator
    \<Rightarrow> provider_result \<times> go_error option \<times> provider_accumulator" where
  "settle_accounting c r0 failure acc =
     (let r1 = r0\<lparr>pr_accounting := normalized_ledger (pr_accounting r0)\<rparr>;
          (r2, f2) = (if provider_dispatched r1 then
              (case resolve_attempt_cost (pr_accounting r1) c of
                 (price, Some _) \<Rightarrow> (r1, Some (combine_accounting_failure failure))
               | (price, None) \<Rightarrow> (r1\<lparr>pr_accounting := (pr_accounting r1)\<lparr>ledger_cost := price\<rparr>\<rparr>, failure))
            else (r1, failure));
          (acc', bad) = observe (provider_dispatched r2) (pr_accounting r2) acc
      in (r2, if bad \<noteq> None then Some (combine_accounting_failure f2) else f2, acc'))"

section \<open>Parse failures\<close>

text \<open>Encoding the two-key object of strings never fails.\<close>

definition capture_parse_failure_response :: "string \<Rightarrow> call_record \<Rightarrow> call_record" where
  "capture_parse_failure_response raw r =
     (if cr_parse_failure r \<noteq> [] \<or> raw = [] then r
      else r\<lparr>cr_parse_failure := json_marshal (JObject [
        (''schemaVersion'', JString ''harden-llm.parse-failure.v1''), (''rawResponse'', JString raw)])\<rparr>)"

definition capture_provider_parse_failure :: "go_error \<Rightarrow> string \<Rightarrow> call_record \<Rightarrow> string \<times> call_record" where
  "capture_provider_parse_failure err previous r = (case errors_as_provider err of
     None \<Rightarrow> (previous, r)
   | Some pe \<Rightarrow> (if pe_category pe \<noteq> CategoryParse \<or> pe_raw pe = [] then (previous, r)
       else (pe_raw pe, capture_parse_failure_response (pe_raw pe) r)))"

section \<open>Progress\<close>

definition stream_sum :: "(stream_diagnostics \<Rightarrow> int) \<Rightarrow> int \<Rightarrow> stream_diagnostics option \<Rightarrow> int" where
  "stream_sum f base active = (case active of None \<Rightarrow> base | Some st \<Rightarrow> wrap64 (base + f st))"

definition build_progress_snapshot :: "'w runtime_env \<Rightarrow> gtime \<Rightarrow> progress_snapshot \<Rightarrow> 'w run \<Rightarrow> progress_snapshot \<times> 'w run" where
  "build_progress_snapshot e started_at event s =
     (let r = run_record s; d = cr_diagnostics r; used = int (length (cr_attempts r));
          (t1, s1) = read_clock e s;
          (t2, s2) = read_clock e s1;
          event' = event\<lparr>ps_attempts_used := used,
            ps_attempts_remaining := max (ps_max_attempts event - used) 0,
            ps_elapsed_ms := max (milliseconds (time_sub t1 started_at)) 0,
            ps_stop_reason := cr_stop_reason r,
            ps_received_bytes := stream_sum received_bytes (dg_received_bytes d) (active_stream s),
            ps_event_count := stream_sum event_count (dg_event_count d) (active_stream s),
            ps_output_bytes := stream_sum output_bytes (dg_output_bytes d) (active_stream s),
            ps_output_code_points := stream_sum output_code_points (dg_output_code_points d) (active_stream s),
            ps_last_activity := t2, ps_effective_timeout := dg_effective_timeout d,
            ps_origin := cr_origin r, ps_attempts := cr_attempts r,
            ps_accounting := (if used > 0 then Some (cr_result_ledger r, cr_provider_ledger r) else None)\<rparr>
      in case ctx_deadline e of
           None \<Rightarrow> (event', s2)
         | Some deadline \<Rightarrow> (case read_clock e s2 of (t3, s3) \<Rightarrow>
             (event'\<lparr>ps_deadline_remaining_ms := Some (max (milliseconds (time_sub deadline t3)) 0)\<rparr>, s3)))"

definition fresh_snapshot :: "'w run_context \<Rightarrow> int \<Rightarrow> string \<Rightarrow> string \<Rightarrow> string \<Rightarrow> string \<Rightarrow> string
    \<Rightarrow> int \<Rightarrow> bool \<Rightarrow> progress_snapshot" where
  "fresh_snapshot x n type stage branch conn effort attempt terminal =
     \<lparr>ps_sequence = n, ps_run_id = run_id (call_context (x_call x)), ps_call_id = x_call_id x,
      ps_trace_id = x_trace_id x, ps_type = type, ps_stage = stage, ps_branch = branch,
      ps_connection_id = conn, ps_effort = effort, ps_attempt = attempt, ps_attempts_used = 0,
      ps_attempts_remaining = 0, ps_elapsed_ms = 0, ps_deadline_remaining_ms = None,
      ps_received_bytes = 0, ps_event_count = 0, ps_output_bytes = 0, ps_output_code_points = 0,
      ps_last_activity = 0, ps_stop_reason = [], ps_terminal = terminal,
      ps_max_attempts = max_attempts (x_policy x), ps_effective_timeout = None,
      ps_origin = zero_origin, ps_attempts = [], ps_accounting = None\<rparr>"

text \<open>Both closures \<open>emitProgress\<close> and \<open>emit\<close>; the sequence number is a \<open>uint64\<close>.\<close>

definition emit_event :: "'w run_context \<Rightarrow> string \<Rightarrow> string \<Rightarrow> string \<Rightarrow> string \<Rightarrow> string \<Rightarrow> int \<Rightarrow> bool
    \<Rightarrow> 'w run \<Rightarrow> 'w run" where
  "emit_event x type stage branch conn effort attempt terminal s = (case env_progress (x_env x) of
     None \<Rightarrow> s
   | Some callback \<Rightarrow>
      (let n = (progress_sequence s + 1) mod 2 ^ 64;
           (event, s') = build_progress_snapshot (x_env x) (x_started_at x)
             (fresh_snapshot x n type stage branch conn effort attempt terminal)
             (s\<lparr>progress_sequence := n\<rparr>)
       in s'\<lparr>world := callback event (world s')\<rparr>))"

definition emit_progress :: "'w run_context \<Rightarrow> string \<Rightarrow> int \<Rightarrow> bool \<Rightarrow> 'w run \<Rightarrow> 'w run" where
  "emit_progress x type attempt terminal =
     emit_event x type ''original.generate'' ''original'' (conn_id (x_connection x))
       (call_effort (x_call x)) attempt terminal"

section \<open>One attempt\<close>

primrec run_execution :: "(stream_diagnostics \<Rightarrow> 'w run \<Rightarrow> 'w run) \<Rightarrow> 'w execution \<Rightarrow> 'w run
    \<Rightarrow> (provider_result \<times> go_error option) \<times> 'w run" where
  "run_execution progress (Report st w k) s =
     (let s' = progress st (s\<lparr>world := w\<rparr>) in run_execution progress (k (world s')) s')"
| "run_execution progress (Finished r err w) s = ((r, err), s\<lparr>world := w\<rparr>)"

text \<open>The record after the provider returned: its text and the sums of the stream measurements.\<close>

definition note_result :: "provider_result \<Rightarrow> call_record \<Rightarrow> call_record" where
  "note_result r c = (let d = cr_diagnostics c; st = pr_stream r in
     c\<lparr>cr_assistant_text := pr_assistant_text r,
       cr_diagnostics := d\<lparr>dg_received_bytes := wrap64 (dg_received_bytes d + received_bytes st),
         dg_event_count := wrap64 (dg_event_count d + event_count st),
         dg_output_bytes := wrap64 (dg_output_bytes d + output_bytes st),
         dg_output_code_points := wrap64 (dg_output_code_points d + output_code_points st)\<rparr>\<rparr>)"

record dispatch =
  dp_result :: provider_result
  dp_failure :: "go_error option"
  dp_started :: gtime
  dp_finished :: gtime

text \<open>
  From the start of an attempt to the return of the provider. The closure that receives the
  stream measurements makes each of them the active one and emits a progress event.
\<close>

definition dispatch_attempt :: "'w runtime_env \<Rightarrow> ('w run \<Rightarrow> 'w run) \<Rightarrow> prepared_operation \<Rightarrow> 'w run \<Rightarrow> dispatch \<times> 'w run" where
  "dispatch_attempt e report p s =
     (let (started, s1) = read_clock e s;
          s2 = s1\<lparr>active_stream := Some zero_stream\<rparr>;
          ((r, failure), s3) = run_execution (\<lambda>st s. report (s\<lparr>active_stream := Some st\<rparr>))
            (env_execute e p (world s2)) s2;
          (finished, s4) = read_clock e (s3\<lparr>active_stream := None\<rparr>)
      in (\<lparr>dp_result = r, dp_failure = failure, dp_started = started, dp_finished = finished\<rparr>,
          map_record (note_result r) s4))"

text \<open>Encoding an output fails only on a \<open>json.Number\<close> that is no number.\<close>

definition marshal_output :: "json \<Rightarrow> string option" where
  "marshal_output v = (if numbers_ok v then Some (json_marshal v) else None)"

definition marshal_error :: go_error where
  "marshal_error = ErrText ''json: invalid number literal''"

definition schema_failure :: "go_error \<Rightarrow> go_error" where
  "schema_failure err = ErrProvider (Some err) CategoryParse ''STRUCTURED_SCHEMA'' [] [] [] 0 0"

text \<open>
  The admission of a completed result in \<open>Execute\<close>: the failure, the text of the refused output
  and the record. An error of the validator becomes a parse error.
\<close>

definition admit_attempt :: "'w run_context \<Rightarrow> provider_result \<Rightarrow> call_record \<Rightarrow> go_error option \<times> string \<times> call_record" where
  "admit_attempt x r c =
     (case admit_result (env_url_parse (x_env x)) r (call_type (x_call x))
          (validate_structured_value (validate_structured (x_call x))) of
        None \<Rightarrow> (None, [], c)
      | Some err \<Rightarrow>
         (if call_type (x_call x) = ''structured'' \<and> errors_as_provider err = None then
            (case marshal_output (pr_output r) of
               None \<Rightarrow> (Some marshal_error, [], c)
             | Some text \<Rightarrow> (Some (schema_failure err), text, capture_parse_failure_response text c))
          else (Some err, [], c)))"

definition note_failure :: "go_error option \<Rightarrow> string \<Rightarrow> call_record \<Rightarrow> string \<times> call_record" where
  "note_failure failure previous c = (case failure of
     None \<Rightarrow> (previous, c)
   | Some err \<Rightarrow> capture_provider_parse_failure err previous c)"

definition stream_observed :: "stream_diagnostics \<Rightarrow> bool" where
  "stream_observed st \<longleftrightarrow> 0 < received_bytes st \<or> 0 < event_count st \<or> 0 < output_bytes st
     \<or> 0 < output_code_points st \<or> terminal_state st \<noteq> []"

definition attempt_stream :: "provider_result \<Rightarrow> stream_diagnostics option" where
  "attempt_stream r = (if stream_observed (pr_stream r) then Some (pr_stream r) else None)"

definition original_attempt :: "'w run_context \<Rightarrow> execution_target \<Rightarrow> int \<Rightarrow> classification \<Rightarrow> dispatch
    \<Rightarrow> gtime \<Rightarrow> attempt_record" where
  "original_attempt x target n cl d finish =
     \<lparr>at_number = n, at_connection_id = conn_id (x_connection x), at_target = target,
      at_provider_used = provider_dispatched (dp_result d), at_category = cl_category cl,
      at_status = cl_status cl, at_retryable = cl_retryable cl, at_delay = 0,
      at_duration = max 0 (time_sub finish (dp_started d)), at_repair = call_repair (x_call x) \<noteq> None,
      at_code = cl_code cl, at_type = cl_type cl, at_provider_request_id = cl_request_id cl,
      at_stage = ''original.generate'', at_branch = ''original'', at_trigger_attempt = 0,
      at_input_attempts = [], at_transport_retry_of = 0, at_started_at = dp_started d,
      at_finished_at = dp_finished d, at_effort = call_effort (x_call x),
      at_dispatch_observed = provider_dispatched (dp_result d),
      at_stream = attempt_stream (dp_result d), at_wait_diagnostics = None\<rparr>"

definition add_attempt :: "attempt_record \<Rightarrow> call_record \<Rightarrow> call_record" where
  "add_attempt a c = c\<lparr>cr_attempts := cr_attempts c @ [a]\<rparr>"

text \<open>\<open>record.Attempts[len(record.Attempts)-1]\<close> is updated; there is always one.\<close>

definition update_last :: "('a \<Rightarrow> 'a) \<Rightarrow> 'a list \<Rightarrow> 'a list" where
  "update_last f xs = (if xs = [] then [] else butlast xs @ [f (last xs)])"

definition map_last_attempt :: "(attempt_record \<Rightarrow> attempt_record) \<Rightarrow> call_record \<Rightarrow> call_record" where
  "map_last_attempt f c = c\<lparr>cr_attempts := update_last f (cr_attempts c)\<rparr>"

record attempt_outcome =
  ao_result :: provider_result
  ao_failure :: "go_error option"
  ao_class :: classification

text \<open>The verdict on what the provider returned: the failure, if any, and the record.\<close>

definition judge_result :: "'w run_context \<Rightarrow> provider_result \<Rightarrow> go_error option \<Rightarrow> call_record
    \<Rightarrow> go_error option \<times> call_record" where
  "judge_result x r failure c =
     (let (f, previous, c') = (if failure = None then admit_attempt x r c else (failure, [], c))
      in (f, snd (note_failure f previous c')))"

text \<open>A last look at the context, whose error outranks the provider's, and the attempt record.\<close>

definition conclude_attempt :: "'w run_context \<Rightarrow> execution_target \<Rightarrow> int \<Rightarrow> dispatch \<Rightarrow> go_error option \<Rightarrow> 'w run
    \<Rightarrow> go_error option \<times> classification \<times> 'w run" where
  "conclude_attempt x target n d failure s =
     (let (late, s1) = check_context (x_env x) s;
          f = (if late \<noteq> None then late else failure);
          cl = classify f (x_policy x);
          (finish, s2) = read_clock (x_env x) s1;
          s3 = map_record (add_attempt (original_attempt x target n cl d finish)) s2
      in (f, cl, emit_progress x ''run.progress'' n False s3))"

text \<open>
  One turn of the loop of \<open>Execute\<close> up to the appended attempt record: dispatch, accounting,
  admission and conclusion.
\<close>

definition attempt_once :: "'w run_context \<Rightarrow> prepared_operation \<Rightarrow> execution_target \<Rightarrow> int \<Rightarrow> provider_accumulator
    \<Rightarrow> 'w run \<Rightarrow> attempt_outcome \<times> provider_accumulator \<times> 'w run" where
  "attempt_once x p target n acc s =
     (let (d, s1) = dispatch_attempt (x_env x) (emit_progress x ''run.progress'' n False) p s;
          (r, f1, acc') = settle_accounting (x_connection x) (dp_result d) (dp_failure d) acc;
          (f2, c) = judge_result x r f1 ((run_record s1)\<lparr>cr_provider_ledger := accumulator_ledger acc'\<rparr>);
          (f3, cl, s2) = conclude_attempt x target n d f2 (s1\<lparr>run_record := c\<rparr>)
      in (\<lparr>ao_result = r, ao_failure = f3, ao_class = cl\<rparr>, acc', s2))"

section \<open>Success, and the wait before a retry\<close>

definition accept_result :: "execution_target \<Rightarrow> int \<Rightarrow> provider_result \<Rightarrow> call_record \<Rightarrow> call_record" where
  "accept_result producer n r c = c\<lparr>cr_output := pr_output r,
     cr_search := (if pr_search r \<noteq> None then pr_search r else cr_search c),
     cr_result_ledger := pr_accounting r,
     cr_result_source := \<lparr>rs_kind = ResultSourceProvider, rs_attempt_number = n, rs_producer = Some producer\<rparr>\<rparr>"

definition cache_entry :: "provider_result \<Rightarrow> search_result option \<Rightarrow> execution_target \<Rightarrow> execution_target \<Rightarrow> string \<Rightarrow> cached_result" where
  "cache_entry r search producer generation completed_by =
     \<lparr>ca_provider_result = r\<lparr>pr_search := (if pr_search r = None then search else pr_search r)\<rparr>,
      ca_producer = producer, ca_generation_target = generation, ca_completed_by = completed_by\<rparr>"

text \<open>
  A failed write is noted in the record and is no error of the call. In a cache mode there is a
  cache: both executors return early otherwise.
\<close>

definition write_cache :: "'w run_context \<Rightarrow> string \<Rightarrow> cached_result \<Rightarrow> 'w run \<Rightarrow> bool \<times> 'w run" where
  "write_cache x hash entry s = (case env_cache (x_env x) of
     None \<Rightarrow> (True, s)
   | Some cache \<Rightarrow> (case cache_set cache hash (x_cache_version x) entry (world s) of
       (Some _, w) \<Rightarrow> (False, map_record (\<lambda>c. c\<lparr>cr_cache := (cr_cache c)\<lparr>cf_status := ''write_failed''\<rparr>\<rparr>) (s\<lparr>world := w\<rparr>))
     | (None, w) \<Rightarrow> (True, map_record (\<lambda>c. c\<lparr>cr_cache := (cr_cache c)\<lparr>cf_written := True\<rparr>\<rparr>) (s\<lparr>world := w\<rparr>))))"

definition finish_success :: "'w run_context \<Rightarrow> execution_target \<Rightarrow> int \<Rightarrow> provider_result \<Rightarrow> 'w run \<Rightarrow> 'w run" where
  "finish_success x target n r s =
     (let s1 = map_record (accept_result target n r) s; c = run_record s1 in
      if x_cache_mode x = ModeOff then s1
      else snd (write_cache x (cf_operation_hash (cr_cache c))
        (cache_entry r (cr_search c) target target ''generation'') s1))"

text \<open>
  The wait between two attempts: the error with which the call returns instead, if any. A delay
  that reaches the deadline is not waited for.
\<close>

definition wait_refused :: "'w runtime_env \<Rightarrow> duration \<Rightarrow> 'w run \<Rightarrow> bool \<times> 'w run" where
  "wait_refused e dl s = (case ctx_deadline e of
     None \<Rightarrow> (False, s)
   | Some deadline \<Rightarrow> (case read_clock e s of (t, s') \<Rightarrow> (time_sub deadline t \<le> dl, s')))"

definition note_wait :: "classification \<Rightarrow> duration \<Rightarrow> duration \<Rightarrow> call_record \<Rightarrow> call_record" where
  "note_wait cl dl actual c = map_last_attempt (\<lambda>a. a\<lparr>at_wait_diagnostics := Some \<lparr>wait_reason = cl_category cl,
       wait_planned = dl, wait_actual = actual, wait_retry_after = cl_retry_after cl\<rparr>\<rparr>)
     (c\<lparr>cr_diagnostics := (cr_diagnostics c)\<lparr>dg_total_wait := wrap64 (dg_total_wait (cr_diagnostics c) + actual)\<rparr>\<rparr>)"

definition perform_wait :: "'w runtime_env \<Rightarrow> classification \<Rightarrow> duration \<Rightarrow> 'w run \<Rightarrow> go_error option \<times> 'w run" where
  "perform_wait e cl dl s =
     (let s1 = map_record (map_last_attempt (\<lambda>a. a\<lparr>at_delay := dl\<rparr>)) s;
          (began, s2) = read_clock e s1;
          (err, w) = env_wait e dl (world s2);
          (ended, s3) = read_clock e (s2\<lparr>world := w\<rparr>)
      in (err, map_record (note_wait cl dl (max 0 (time_sub ended began))) s3))"

definition wait_to_retry :: "'w run_context \<Rightarrow> int \<Rightarrow> classification \<Rightarrow> 'w run \<Rightarrow> go_error option \<times> 'w run" where
  "wait_to_retry x n cl s =
     (let e = x_env x;
          (rnd, w) = env_random e (world s);
          dl = delay n (cl_retry_after cl) (pol_backoff (x_policy x)) rnd;
          (refused, s1) = wait_refused e dl (s\<lparr>world := w\<rparr>)
      in if refused then (Some ErrDeadlineExceeded, s1)
         else (case perform_wait e cl dl s1 of
             (Some err, s2) \<Rightarrow> (Some err, s2)
           | (None, s2) \<Rightarrow> check_context e s2))"

section \<open>The loop\<close>

text \<open>A turn of the loop: the call returns, or the loop goes on with the next attempt.\<close>

definition execute_turn :: "'w run_context \<Rightarrow> prepared_operation \<Rightarrow> execution_target \<Rightarrow> int \<Rightarrow> provider_accumulator
    \<Rightarrow> 'w run \<Rightarrow> (go_error option \<times> 'w run) + provider_accumulator \<times> 'w run" where
  "execute_turn x p target n acc s =
     (case check_context (x_env x) s of (late, s1) \<Rightarrow>
       if late \<noteq> None then Inl (late, s1)
       else (case attempt_once x p target n acc s1 of (out, acc', s2) \<Rightarrow>
         if ao_failure out = None then Inl (None, finish_success x target n (ao_result out) s2)
         else if n = max_attempts (x_policy x) \<or> \<not> cl_retryable (ao_class out) then Inl (ao_failure out, s2)
         else (case wait_to_retry x n (ao_class out) s2 of (stop, s3) \<Rightarrow>
           if stop \<noteq> None then Inl (stop, s3) else Inr (acc', s3))))"

text \<open>The loop has no bound of its own: not returning is the value \<open>None\<close>.\<close>

partial_function (option) execute_loop :: "'w run_context \<Rightarrow> prepared_operation \<Rightarrow> execution_target \<Rightarrow> int
    \<Rightarrow> provider_accumulator \<Rightarrow> 'w run \<Rightarrow> (go_error option \<times> 'w run) option" where
  "execute_loop x p target n acc s = (case execute_turn x p target n acc s of
     Inl out \<Rightarrow> Some out
   | Inr (acc', s') \<Rightarrow> execute_loop x p target (n + 1) acc' s')"

declare execute_loop.simps [code]

section \<open>Stop reasons and the deferred summary\<close>

definition stop_reason_for :: "go_error option \<Rightarrow> string" where
  "stop_reason_for err = (case err of
     None \<Rightarrow> ''succeeded''
   | Some e \<Rightarrow>
      (if errors_is e ErrCanceled then ''canceled''
       else if errors_is e ErrDeadlineExceeded then ''deadline_exceeded''
       else (case errors_as_provider e of
           None \<Rightarrow> ''terminal_error''
         | Some pe \<Rightarrow>
            (if pe_code pe = ''REPAIR_INPUT_LIMIT'' then ''repair_input_limit_exceeded''
             else if pe_code pe = ''RESPONSE_TOO_LARGE'' then ''response_limit_exceeded''
             else ''terminal_error''))))"

definition record_last_stage :: "attempt_record list \<Rightarrow> string" where
  "record_last_stage attempts = (if attempts = [] then [] else at_stage (last attempts))"

definition close_record :: "policy \<Rightarrow> gtime \<Rightarrow> gtime \<Rightarrow> string \<Rightarrow> go_error option \<Rightarrow> call_record \<Rightarrow> call_record" where
  "close_record p started_at now branch err c =
     (let reason = (if cr_stop_reason c = [] then stop_reason_for err else cr_stop_reason c);
          used = int (length (cr_attempts c)) in
      c\<lparr>cr_stop_reason := reason,
        cr_diagnostics := (cr_diagnostics c)\<lparr>dg_attempts_used := used,
          dg_attempts_remaining := max (max_attempts p - used) 0,
          dg_elapsed := max (time_sub now started_at) 0,
          dg_stage := record_last_stage (cr_attempts c), dg_branch := branch, dg_stop_reason := reason\<rparr>\<rparr>)"

definition finish_run :: "'w run_context \<Rightarrow> go_error option \<Rightarrow> 'w run \<Rightarrow> 'w run" where
  "finish_run x err s =
     (let (now, s1) = read_clock (x_env x) s;
          s2 = map_record (close_record (x_policy x) (x_started_at x) now ''original'' err) s1
      in emit_progress x ''run.terminal'' (int (length (cr_attempts (run_record s2)))) True s2)"

section \<open>The start of a run\<close>

definition initial_record :: "'w run_context \<Rightarrow> call_record" where
  "initial_record x = (let target = target_from_connection (x_connection x) (call_model (x_call x)) in
     \<lparr>cr_assistant_text = [], cr_search = None, cr_call_id = x_call_id x, cr_trace_id = x_trace_id x,
      cr_output = JNull, cr_selected_target = target,
      cr_result_source = \<lparr>rs_kind = ResultSourceNone, rs_attempt_number = 0, rs_producer = None\<rparr>,
      cr_result_ledger = empty_ledger, cr_provider_ledger = empty_ledger, cr_attempts = [],
      cr_parse_failure = [], cr_prepared = None, cr_generation_target = target, cr_branch = ''original'',
      cr_stop_reason = [], cr_diagnostics = zero_diagnostics, cr_origin = call_origin (x_call x),
      cr_cache = \<lparr>cf_mode = x_cache_mode x, cf_status = ''skipped'', cf_operation_hash = [],
        cf_original_hash = [], cf_rerun_hash = [], cf_version = x_cache_version x, cf_served = False,
        cf_written = False\<rparr>\<rparr>)"

text \<open>The deadline and the time left until it, in whole milliseconds.\<close>

definition note_deadline :: "'w runtime_env \<Rightarrow> gtime \<Rightarrow> call_record \<Rightarrow> call_record" where
  "note_deadline e started_at c = (case ctx_deadline e of
     None \<Rightarrow> c
   | Some deadline \<Rightarrow> c\<lparr>cr_diagnostics := (cr_diagnostics c)\<lparr>dg_deadline_at := Some deadline,
       dg_effective_timeout := Some (wrap64 (max (milliseconds (time_sub deadline started_at)) 0 * millisecond))\<rparr>\<rparr>)"

definition add_branch_cache :: "string \<Rightarrow> execution_target \<Rightarrow> call_record \<Rightarrow> call_record" where
  "add_branch_cache branch target c = c\<lparr>cr_diagnostics := (cr_diagnostics c)\<lparr>dg_branch_caches :=
     dg_branch_caches (cr_diagnostics c) @ [\<lparr>bc_branch = branch, bc_target = target, bc_cache = cr_cache c\<rparr>]\<rparr>\<rparr>"

definition serve_cached :: "string \<Rightarrow> execution_target \<Rightarrow> cached_result \<Rightarrow> call_record \<Rightarrow> call_record" where
  "serve_cached branch target cached c = (let r = ca_provider_result cached in
     add_branch_cache branch target (c\<lparr>cr_output := pr_output r, cr_search := pr_search r,
       cr_assistant_text := pr_assistant_text r, cr_result_ledger := pr_accounting r,
       cr_result_source := \<lparr>rs_kind = ResultSourceCache, rs_attempt_number = 0, rs_producer = Some (ca_producer cached)\<rparr>,
       cr_cache := (cr_cache c)\<lparr>cf_status := ''hit'', cf_served := True\<rparr>\<rparr>))"

definition set_cache_status :: "string \<Rightarrow> call_record \<Rightarrow> call_record" where
  "set_cache_status st c = c\<lparr>cr_cache := (cr_cache c)\<lparr>cf_status := st\<rparr>\<rparr>"

definition hash_operation :: "'w run_context \<Rightarrow> prepared_operation \<Rightarrow> go_error + string" where
  "hash_operation x p = (case operation_hash (env_upper (x_env x)) (prep_operation p) (x_cache_version x) of
     Inl err \<Rightarrow> Inl (ErrText (env_hash_error (x_env x) err))
   | Inr h \<Rightarrow> Inr h)"

text \<open>
  The cache stage of \<open>Execute\<close>: \<open>Some err\<close> when the call returns here, with the error \<open>err\<close> or,
  on a hit, with none.
\<close>

definition look_up :: "'w run_context \<Rightarrow> 'w cache_api \<Rightarrow> execution_target \<Rightarrow> string \<Rightarrow> 'w run
    \<Rightarrow> go_error option option \<times> 'w run" where
  "look_up x cache target hash s = (case cache_get cache hash (x_cache_version x) (world s) of (found, w) \<Rightarrow>
     (let s1 = s\<lparr>world := w\<rparr> in
      case found of
        Inl err \<Rightarrow> (Some (Some err), s1)
      | Inr None \<Rightarrow> (None, map_record (add_branch_cache ''original'' target \<circ> set_cache_status ''miss'') s1)
      | Inr (Some cached) \<Rightarrow>
         (if admit_cached_result (env_url_parse (x_env x)) target cached (x_call x) \<noteq> None
            then (Some (Some cache_integrity_error), s1)
          else (Some None, map_record (serve_cached ''original'' target cached) s1))))"

definition consult_cache :: "'w run_context \<Rightarrow> prepared_operation \<Rightarrow> execution_target \<Rightarrow> 'w run
    \<Rightarrow> go_error option option \<times> 'w run" where
  "consult_cache x p target s =
     (if x_cache_mode x = ModeOff then (None, s)
      else (case env_cache (x_env x) of
          None \<Rightarrow> (Some (Some (ErrText ''runtime cache is required when cache mode is active'')), s)
        | Some cache \<Rightarrow>
           (case hash_operation x p of
              Inl err \<Rightarrow> (Some (Some err), s)
            | Inr hash \<Rightarrow>
               (let s1 = map_record (\<lambda>c. c\<lparr>cr_cache := (cr_cache c)\<lparr>cf_operation_hash := hash\<rparr>\<rparr>) s in
                if x_cache_mode x = ModeCache then look_up x cache target hash s1
                else (None, map_record (add_branch_cache ''original'' target \<circ> set_cache_status ''refresh'') s1)))))"

text \<open>The body of \<open>Execute\<close> after the start of the run, before the deferred summary.\<close>

definition execute_body :: "'w run_context \<Rightarrow> 'w run \<Rightarrow> (go_error option \<times> 'w run) option" where
  "execute_body x s = (let s1 = emit_progress x ''run.started'' 0 False s in
     case check_context (x_env x) s1 of (late, s2) \<Rightarrow>
       if late \<noteq> None then Some (late, s2)
       else (case env_prepare (x_env x) (x_connection x) (x_credential x) (x_call x) (world s2) of
           (Inl err, w) \<Rightarrow> Some (Some err, s2\<lparr>world := w\<rparr>)
         | (Inr p0, w) \<Rightarrow>
            (let p = with_cache_domain p0 (x_connection x);
                 target = target_from_prepared (x_connection x) p;
                 s3 = map_record (\<lambda>c. c\<lparr>cr_prepared := Some p\<rparr>) (s2\<lparr>world := w\<rparr>)
             in case consult_cache x p target s3 of
                  (Some err, s4) \<Rightarrow> Some (err, s4)
                | (None, s4) \<Rightarrow> execute_loop x p target 1 new_provider_accumulator s4)))"

definition begin_run :: "'w run_context \<Rightarrow> 'w \<Rightarrow> 'w run_context \<times> 'w run" where
  "begin_run x w =
     (let s0 = \<lparr>world = w, run_record = initial_record x, progress_sequence = 0, active_stream = None\<rparr>;
          (t, s1) = read_clock (x_env x) s0
      in (x\<lparr>x_started_at := t\<rparr>, map_record (note_deadline (x_env x) t) s1))"

definition execute_plain :: "'w run_context \<Rightarrow> 'w \<Rightarrow> (call_record \<times> go_error option \<times> 'w) option" where
  "execute_plain x0 w =
     (let x1 = (if web_search (x_call x0) then x0\<lparr>x_call := (x_call x0)\<lparr>search_memo := True\<rparr>\<rparr> else x0);
          x2 = (if x_cache_version x1 = [] then x1\<lparr>x_cache_version := DefaultVersion\<rparr> else x1);
          (x, s) = begin_run x2 w
      in case execute_body x s of
           None \<Rightarrow> None
         | Some (err, s') \<Rightarrow> (let s'' = finish_run x err s' in Some (run_record s'', err, world s'')))"

end
