(* ===== verification/Recovery.thy ===== *)
theory Recovery
  imports Runtime
begin

text \<open>
  The staged executor of structured calls with a recovery plan,
  \<open>internal/runtime/recovery_execute.go\<close>: the plan's stages, the preparation of the next
  operation, the attempts of a plan and its loop; and \<open>Execute\<close>, which chooses the executor.
\<close>

section \<open>Stages\<close>

abbreviation stageOriginalGenerate :: string where "stageOriginalGenerate \<equiv> ''original.generate''"
abbreviation stageOriginalRepairInitial :: string where "stageOriginalRepairInitial \<equiv> ''original.repair.initial''"
abbreviation stageOriginalRepairEscalate :: string where "stageOriginalRepairEscalate \<equiv> ''original.repair.escalation''"
abbreviation stageRerunGenerate :: string where "stageRerunGenerate \<equiv> ''rerun.generate''"
abbreviation stageRerunRepairInitial :: string where "stageRerunRepairInitial \<equiv> ''rerun.repair.initial''"
abbreviation stageRerunRepairEscalate :: string where "stageRerunRepairEscalate \<equiv> ''rerun.repair.escalation''"

record planned_work =
  pw_call :: llm_call
  pw_connection :: connection
  pw_credential :: credential
  pw_generation_binding :: resolved_connection
  pw_target :: execution_target
  pw_prepared :: prepared_operation
  pw_generation_call :: llm_call
  pw_branch :: string
  pw_stage :: string
  pw_history :: "repair_history_entry list"
  pw_generation_target :: execution_target
  pw_generation_hash :: string

definition rerun_or_end :: "policy \<Rightarrow> string" where
  "rerun_or_end p = (if rerun p \<noteq> None then stageRerunGenerate else [])"

definition next_planned_stage :: "policy \<Rightarrow> string \<Rightarrow> string \<Rightarrow> string" where
  "next_planned_stage p branch stage =
     (if branch = ''original'' then
        (if stage = stageOriginalGenerate then
           (if json_repair p \<noteq> None then stageOriginalRepairInitial else rerun_or_end p)
         else if stage = stageOriginalRepairInitial then
           (if Option.bind (json_repair p) rp_escalation \<noteq> None then stageOriginalRepairEscalate
            else rerun_or_end p)
         else if stage = stageOriginalRepairEscalate then rerun_or_end p
         else [])
      else (case rerun p of None \<Rightarrow> [] | Some r \<Rightarrow>
        (case rr_json_repair r of None \<Rightarrow> [] | Some j \<Rightarrow>
          (if stage = stageRerunGenerate then stageRerunRepairInitial
           else if stage = stageRerunRepairInitial \<and> rp_escalation j \<noteq> None then stageRerunRepairEscalate
           else []))))"

definition has_explicit_recovery_plan :: "policy \<Rightarrow> bool" where
  "has_explicit_recovery_plan p \<longleftrightarrow> uses_explicit_plan p"

section \<open>Preparing the next operation\<close>

text \<open>
  A model target replaces the model, the reasoning effort and the provider options of the call, and,
  when it names one, the connection.
\<close>

definition retarget_call :: "recovery_target \<Rightarrow> llm_call \<Rightarrow> llm_call" where
  "retarget_call t c = c\<lparr>provider_options := rt_provider_options t, call_effort := rt_reasoning_effort t,
     call_model := (if rt_model_id t \<noteq> [] then rt_model_id t else call_model c)\<rparr>"

definition resolve_recovery_target :: "recovery_target option \<Rightarrow> connection \<Rightarrow> credential \<Rightarrow> llm_call
    \<Rightarrow> go_error + (connection \<times> credential \<times> llm_call)" where
  "resolve_recovery_target t conn cred c = (case t of
     None \<Rightarrow> Inr (conn, cred, c)
   | Some t \<Rightarrow>
      (if rt_source t \<noteq> ''model'' then Inr (conn, cred, c)
       else if rt_connection_id t = [] then Inr (conn, cred, retarget_call t c)
       else (case map_of (call_connections c) (rt_connection_id t) of
           None \<Rightarrow> Inl (ErrText ''runtime recovery upstream is not configured'')
         | Some b \<Rightarrow> Inr (rc_connection b, rc_credential b, retarget_call t c))))"

definition prepare_planned_work :: "'w runtime_env \<Rightarrow> connection \<Rightarrow> credential \<Rightarrow> llm_call \<Rightarrow> string \<Rightarrow> string
    \<Rightarrow> recovery_target option \<Rightarrow> repair_request option \<Rightarrow> 'w \<Rightarrow> (go_error + planned_work) \<times> 'w" where
  "prepare_planned_work e conn0 cred0 base branch stage t repair w =
     (case resolve_recovery_target t conn0 cred0 (base\<lparr>call_repair := repair\<rparr>) of
        Inl err \<Rightarrow> (Inl err, w)
      | Inr (conn, cred, c) \<Rightarrow>
         (case env_prepare e conn cred c w of
            (Inl err, w') \<Rightarrow> (Inl err, w')
          | (Inr p0, w') \<Rightarrow>
             (let p = with_cache_domain p0 conn in
              (Inr \<lparr>pw_call = c, pw_connection = conn, pw_credential = cred,
                 pw_generation_binding = \<lparr>rc_connection = conn, rc_credential = cred\<rparr>,
                 pw_target = target_from_prepared conn p, pw_prepared = p,
                 pw_generation_call = c\<lparr>call_repair := None\<rparr>, pw_branch = branch, pw_stage = stage,
                 pw_history = (case repair of None \<Rightarrow> [] | Some q \<Rightarrow> rq_history q),
                 pw_generation_target = zero_execution_target, pw_generation_hash = []\<rparr>, w'))))"

definition prepare_planned_generation :: "'w runtime_env \<Rightarrow> connection \<Rightarrow> credential \<Rightarrow> llm_call \<Rightarrow> string \<Rightarrow> string
    \<Rightarrow> recovery_target option \<Rightarrow> 'w \<Rightarrow> (go_error + planned_work) \<times> 'w" where
  "prepare_planned_generation e conn cred base branch stage t w =
     prepare_planned_work e conn cred base branch stage t None w"

text \<open>The target of a repair stage; \<open>None\<close> where the code would dereference a nil plan.\<close>

definition repair_target :: "policy \<Rightarrow> string \<Rightarrow> string \<Rightarrow> recovery_target option" where
  "repair_target p branch stage =
     (if branch = ''original'' then
        (case json_repair p of None \<Rightarrow> None | Some j \<Rightarrow>
          (if stage = stageOriginalRepairInitial then Some (rp_initial j) else rp_escalation j))
      else (case rerun p of None \<Rightarrow> None | Some r \<Rightarrow>
        (case rr_json_repair r of None \<Rightarrow> None | Some j \<Rightarrow>
          (if stage = stageRerunRepairInitial then Some (rp_initial j) else rp_escalation j))))"

definition repair_call :: "llm_call \<Rightarrow> planned_work \<Rightarrow> recovery_target \<Rightarrow> repair_request \<Rightarrow> llm_call" where
  "repair_call base current t q =
     (if rt_source t = ''generation'' then pw_generation_call current else base)
       \<lparr>web_search := False, call_repair := Some q\<rparr>"

definition prepare_repair :: "'w run_context \<Rightarrow> llm_call \<Rightarrow> planned_work \<Rightarrow> recovery_target \<Rightarrow> repair_request \<Rightarrow> 'w
    \<Rightarrow> (go_error + planned_work) \<times> 'w" where
  "prepare_repair x base current t q w =
     (let (conn, cred) = (if rt_source t = ''generation''
            then (rc_connection (pw_generation_binding current), rc_credential (pw_generation_binding current))
            else (x_connection x, x_credential x))
      in case prepare_planned_work (x_env x) conn cred (repair_call base current t q) (pw_branch current) (rq_stage q)
             (Some t) (Some q) w of
           (Inl err, w') \<Rightarrow> (Inl err, w')
         | (Inr n, w') \<Rightarrow> (Inr (n\<lparr>pw_generation_hash := pw_generation_hash current,
             pw_generation_target := pw_generation_target current,
             pw_generation_call := pw_generation_call current,
             pw_generation_binding := pw_generation_binding current\<rparr>), w'))"

text \<open>The next operation of the plan; \<open>Inr None\<close> when the plan has no further stage.\<close>

definition prepare_next_planned_work :: "'w run_context \<Rightarrow> llm_call \<Rightarrow> planned_work \<Rightarrow> repair_history_entry list \<Rightarrow> int \<Rightarrow> 'w
    \<Rightarrow> (go_error + planned_work option) \<times> 'w" where
  "prepare_next_planned_work x base current history attempt w =
     (let p = x_policy x; stage = next_planned_stage p (pw_branch current) (pw_stage current) in
      if stage = [] then (Inr None, w)
      else if stage = stageRerunGenerate then
        (case prepare_planned_work (x_env x) (x_connection x) (x_credential x) (base\<lparr>call_repair := None\<rparr>) ''rerun'' stage
            (map_option rr_target (rerun p)) None w of
           (Inl err, w') \<Rightarrow> (Inl err, w') | (Inr n, w') \<Rightarrow> (Inr (Some n), w'))
      else (case repair_target p (pw_branch current) stage of
          None \<Rightarrow> (Inl (ErrText ''invalid memory address or nil pointer dereference''), w)
        | Some t \<Rightarrow>
           (case prepare_repair x base current t \<lparr>rq_attempt = attempt + 1, rq_max_attempts = max_attempts p,
               rq_stage = stage, rq_branch = pw_branch current, rq_target_schema = call_schema base,
               rq_history = history\<rparr> w of
              (Inl err, w') \<Rightarrow> (Inl err, w') | (Inr n, w') \<Rightarrow> (Inr (Some n), w'))))"

section \<open>Helpers\<close>

definition check_targets :: "(string \<times> recovery_target option \<times> bool) list \<Rightarrow> validation_error option" where
  "check_targets checks = List.fold (\<lambda>(role, t, allow) found. case found of
       Some err \<Rightarrow> Some err
     | None \<Rightarrow> (case t of None \<Rightarrow> None | Some t \<Rightarrow> target_validate t (''recoveryPolicy.'' @ role) allow)) checks None"

definition validate_recovery_targets :: "policy \<Rightarrow> validation_error option" where
  "validate_recovery_targets p =
     (let j = json_repair p; r = rerun p; rj = Option.bind r rr_json_repair in
      check_targets [
        (''jsonRepair.initial'', map_option rp_initial j, True),
        (''jsonRepair.escalation'', Option.bind j rp_escalation, True),
        (''rerun.target'', map_option rr_target r, False),
        (''rerun.jsonRepair.initial'', map_option rp_initial rj, True),
        (''rerun.jsonRepair.escalation'', Option.bind rj rp_escalation, True)])"

definition trigger_attempt :: "repair_history_entry list \<Rightarrow> int" where
  "trigger_attempt history = (case history of [] \<Rightarrow> 0 | h # _ \<Rightarrow> rh_attempt h)"

definition encode_repair_output :: "json \<Rightarrow> string" where
  "encode_repair_output output = (if output = JNull then []
     else case marshal_output output of None \<Rightarrow> [] | Some text \<Rightarrow> text)"

abbreviation max_error_bytes :: nat where "max_error_bytes \<equiv> 8192"

definition bounded_error :: "go_error option \<Rightarrow> string" where
  "bounded_error err = (case err of None \<Rightarrow> []
     | Some e \<Rightarrow> take max_error_bytes (replace_invalid [] (error_text e)))"

definition exhausted_recovery_error :: "string \<Rightarrow> go_error" where
  "exhausted_recovery_error reason = provider_error (''recovery attempt budget exhausted: '' @ reason)
     ''RECOVERY_ATTEMPTS_EXHAUSTED'' CategoryOther"

definition validate_target_snapshot :: "execution_target \<Rightarrow> go_error option" where
  "validate_target_snapshot t =
     (if trim_space (et_connection_id t) = [] \<or> trim_space (et_provider t) = [] \<or> trim_space (et_protocol t) = []
         \<or> trim_space (et_endpoint t) = [] \<or> trim_space (et_model_id t) = []
      then Some cache_integrity_error else None)"

definition first_some :: "'e option \<Rightarrow> 'e option \<Rightarrow> 'e option" where
  "first_some a b = (if a = None then b else a)"

definition validate_cached_identity :: "cached_result \<Rightarrow> execution_target \<Rightarrow> go_error option" where
  "validate_cached_identity cached generation =
     (if et_connection_id (ca_generation_target cached) = [] then validate_cache_producer (ca_producer cached) generation
      else if ca_completed_by cached = ''generation'' then
        first_some (validate_cache_producer (ca_generation_target cached) generation)
          (validate_cache_producer (ca_producer cached) (ca_generation_target cached))
      else if ca_completed_by cached = ''repair'' then
        first_some (validate_target_snapshot (ca_generation_target cached)) (validate_target_snapshot (ca_producer cached))
      else Some cache_integrity_error)"

definition admit_planned_cached_result ::
    "url_parser \<Rightarrow> execution_target \<Rightarrow> cached_result \<Rightarrow> llm_call \<Rightarrow> go_error option" where
  "admit_planned_cached_result parse generation cached c =
     (case validate_cached_identity cached generation of
        Some err \<Rightarrow> Some err
      | None \<Rightarrow> admit_result parse (ca_provider_result cached) (call_type c)
          (validate_structured_value (validate_structured c)))"

section \<open>One attempt of a plan\<close>

record 'w plan_state =
  pl_run :: "'w run"
  pl_work :: planned_work
  pl_accumulator :: provider_accumulator
  pl_attempt :: int
  pl_last_stage :: string
  pl_last_attempt :: int

definition emit_work :: "'w run_context \<Rightarrow> planned_work \<Rightarrow> string \<Rightarrow> int \<Rightarrow> bool \<Rightarrow> 'w run \<Rightarrow> 'w run" where
  "emit_work x k type attempt terminal =
     emit_event x type (pw_stage k) (pw_branch k) (conn_id (pw_connection k)) (call_effort (pw_call k)) attempt terminal"

definition work_target :: "planned_work \<Rightarrow> execution_target" where
  "work_target k = target_from_prepared (pw_connection k) (pw_prepared k)"

definition keep_search :: "provider_result \<Rightarrow> call_record \<Rightarrow> call_record" where
  "keep_search r c = (if pr_search r \<noteq> None then c\<lparr>cr_search := pr_search r\<rparr> else c)"

text \<open>The admission of a completed result: the failure and the record.\<close>

definition admit_planned :: "'w run_context \<Rightarrow> planned_work \<Rightarrow> provider_result \<Rightarrow> string \<Rightarrow> call_record
    \<Rightarrow> go_error option \<times> call_record" where
  "admit_planned x k r previous c =
     (case admit_result (env_url_parse (x_env x)) r (call_type (pw_call k))
          (validate_structured_value (validate_structured (pw_call k))) of
        None \<Rightarrow> (None, c)
      | Some err \<Rightarrow>
         (Some (if call_type (pw_call k) = ''structured'' \<and> errors_as_provider err = None
            then schema_failure err else err),
          if previous \<noteq> [] then capture_parse_failure_response previous c else c))"

definition semantic_parse :: "go_error option \<Rightarrow> policy \<Rightarrow> bool" where
  "semantic_parse failure p \<longleftrightarrow> failure \<noteq> None \<and> cl_category (classify failure p) = CategoryParse"

definition transport_retry :: "go_error option \<Rightarrow> policy \<Rightarrow> bool" where
  "transport_retry failure p \<longleftrightarrow> \<not> semantic_parse failure p \<and> cl_retryable (classify failure p)"

definition planned_class :: "policy \<Rightarrow> planned_work \<Rightarrow> go_error option \<Rightarrow> classification" where
  "planned_class p k failure = (let cl = classify failure p in
     if semantic_parse failure p \<and> next_planned_stage p (pw_branch k) (pw_stage k) \<noteq> [] \<or> transport_retry failure p
     then cl\<lparr>cl_retryable := True\<rparr> else cl)"

definition planned_attempt :: "planned_work \<Rightarrow> int \<Rightarrow> classification \<Rightarrow> dispatch \<Rightarrow> gtime \<Rightarrow> int \<Rightarrow> attempt_record" where
  "planned_attempt k n cl d finish retry_of =
     \<lparr>at_number = n, at_connection_id = conn_id (pw_connection k), at_target = work_target k,
      at_provider_used = provider_dispatched (dp_result d), at_category = cl_category cl,
      at_status = cl_status cl, at_retryable = cl_retryable cl, at_delay = 0,
      at_duration = max 0 (time_sub finish (dp_started d)), at_repair = call_repair (pw_call k) \<noteq> None,
      at_code = cl_code cl, at_type = cl_type cl, at_provider_request_id = cl_request_id cl,
      at_stage = pw_stage k, at_branch = pw_branch k, at_trigger_attempt = trigger_attempt (pw_history k),
      at_input_attempts = map rh_attempt (pw_history k), at_transport_retry_of = retry_of,
      at_started_at = dp_started d, at_finished_at = dp_finished d, at_effort = call_effort (pw_call k),
      at_dispatch_observed = provider_dispatched (dp_result d),
      at_stream = attempt_stream (dp_result d), at_wait_diagnostics = None\<rparr>"

record planned_outcome =
  po_result :: provider_result
  po_failure :: "go_error option"
  po_previous :: string

text \<open>The verdict on what the provider returned: the failure, the text to repair and the record.\<close>

definition judge_planned :: "'w run_context \<Rightarrow> planned_work \<Rightarrow> provider_result \<Rightarrow> go_error option \<Rightarrow> call_record
    \<Rightarrow> go_error option \<times> string \<times> call_record" where
  "judge_planned x k r failure c =
     (let previous = encode_repair_output (pr_output r);
          (f, c') = (if failure = None then admit_planned x k r previous c else (failure, c))
      in (f, note_failure f previous c'))"

definition conclude_planned :: "'w run_context \<Rightarrow> 'w plan_state \<Rightarrow> dispatch \<Rightarrow> go_error option \<Rightarrow> 'w run \<Rightarrow> 'w plan_state" where
  "conclude_planned x st d failure s =
     (let k = pl_work st; n = pl_attempt st;
          cl = planned_class (x_policy x) k failure;
          (finish, s1) = read_clock (x_env x) s;
          retry_of = (if pl_last_stage st = pw_stage k then pl_last_attempt st else 0);
          s2 = map_record (add_attempt (planned_attempt k n cl d finish retry_of)) s1
      in st\<lparr>pl_run := emit_work x k ''run.progress'' n False s2,
            pl_last_stage := pw_stage k, pl_last_attempt := n\<rparr>)"

text \<open>A turn of the loop up to the appended attempt record, with \<open>attempt\<close> already increased.\<close>

definition plan_attempt :: "'w run_context \<Rightarrow> 'w plan_state \<Rightarrow> planned_outcome \<times> 'w plan_state" where
  "plan_attempt x st =
     (let k = pl_work st; n = pl_attempt st;
          (d, s1) = dispatch_attempt (x_env x) (emit_work x k ''run.progress'' n False) (pw_prepared k) (pl_run st);
          (r, f1, acc') = settle_accounting (pw_connection k) (dp_result d) (dp_failure d) (pl_accumulator st);
          (f2, previous, c) = judge_planned x k r f1
            ((keep_search r (run_record s1))\<lparr>cr_provider_ledger := accumulator_ledger acc'\<rparr>)
      in (\<lparr>po_result = r, po_failure = f2, po_previous = previous\<rparr>,
          (conclude_planned x st d f2 (s1\<lparr>run_record := c\<rparr>))\<lparr>pl_accumulator := acc'\<rparr>))"

section \<open>After an attempt\<close>

text \<open>What a turn ends in: the call returns, with the work in hand, or the loop goes on.\<close>

type_synonym 'w plan_exit = "go_error option \<times> 'w run \<times> planned_work option"

definition set_stop_reason :: "string \<Rightarrow> call_record \<Rightarrow> call_record" where
  "set_stop_reason reason c = c\<lparr>cr_stop_reason := reason\<rparr>"

definition leave :: "string \<Rightarrow> go_error option \<Rightarrow> 'w plan_state \<Rightarrow> 'w plan_exit + 'w plan_state" where
  "leave reason err st = Inl (err, map_record (set_stop_reason reason) (pl_run st), Some (pl_work st))"

definition planned_success :: "'w run_context \<Rightarrow> provider_result \<Rightarrow> 'w plan_state \<Rightarrow> 'w plan_exit + 'w plan_state" where
  "planned_success x r st =
     (let k = pl_work st; producer = work_target k;
          s1 = map_record (accept_result producer (pl_attempt st) r) (pl_run st)
      in if x_cache_mode x = ModeOff then leave ''succeeded'' None (st\<lparr>pl_run := s1\<rparr>)
         else (case write_cache x (pw_generation_hash k) (cache_entry r (cr_search (run_record s1)) producer
                 (pw_generation_target k) (if call_repair (pw_call k) \<noteq> None then ''repair'' else ''generation'')) s1 of
             (True, s2) \<Rightarrow> leave ''succeeded'' None (st\<lparr>pl_run := s2\<rparr>)
           | (False, s2) \<Rightarrow> Inl (None, s2, Some k)))"

text \<open>A new branch has a generation of its own, which may already be in the cache.\<close>

definition rerun_lookup :: "'w run_context \<Rightarrow> llm_call \<Rightarrow> planned_work \<Rightarrow> 'w run
    \<Rightarrow> (go_error option \<times> 'w run) + 'w run" where
  "rerun_lookup x base n s = (case env_cache (x_env x) of
     None \<Rightarrow> Inr s
   | Some cache \<Rightarrow>
      (case cache_get cache (pw_generation_hash n) (x_cache_version x) (world s) of (found, w) \<Rightarrow>
        (let s1 = s\<lparr>world := w\<rparr> in case found of
           Inl err \<Rightarrow> Inl (Some err, s1)
         | Inr None \<Rightarrow> Inr s1
         | Inr (Some cached) \<Rightarrow>
            (if admit_planned_cached_result (env_url_parse (x_env x)) (pw_generation_target n) cached base \<noteq> None
               then Inl (Some cache_integrity_error, s1)
             else Inl (None, map_record (set_stop_reason ''succeeded'' \<circ>
               (\<lambda>c. c\<lparr>cr_diagnostics := (cr_diagnostics c)\<lparr>dg_stage := pw_stage n, dg_branch := pw_branch n\<rparr>\<rparr>) \<circ>
               serve_cached ''rerun'' (pw_generation_target n) cached) s1)))))"

definition enter_branch :: "'w run_context \<Rightarrow> llm_call \<Rightarrow> planned_work \<Rightarrow> 'w run
    \<Rightarrow> (go_error option \<times> 'w run) + planned_work \<times> 'w run" where
  "enter_branch x base n0 s =
     (let n1 = n0\<lparr>pw_generation_target := work_target n0\<rparr>;
          s1 = map_record (\<lambda>c. c\<lparr>cr_branch := pw_branch n1, cr_generation_target := pw_generation_target n1\<rparr>) s
      in if x_cache_mode x = ModeOff then Inr (n1, s1)
         else (case hash_operation x (pw_prepared n1) of
             Inl err \<Rightarrow> Inl (Some err, s1)
           | Inr hash \<Rightarrow>
              (let n = n1\<lparr>pw_generation_hash := hash\<rparr>;
                   s2 = map_record (\<lambda>c. c\<lparr>cr_cache := (cr_cache c)\<lparr>cf_operation_hash := hash, cf_rerun_hash := hash\<rparr>\<rparr>) s1
               in case (if x_cache_mode x = ModeCache then rerun_lookup x base n s2 else Inr s2) of
                    Inl out \<Rightarrow> Inl out
                  | Inr s3 \<Rightarrow> Inr (n, if cf_status (cr_cache (run_record s3)) \<noteq> ''hit''
                      then map_record (add_branch_cache ''rerun'' (pw_generation_target n)) s3 else s3))))"

definition advance_plan :: "'w run_context \<Rightarrow> llm_call \<Rightarrow> planned_outcome \<Rightarrow> 'w plan_state \<Rightarrow> 'w plan_exit + 'w plan_state" where
  "advance_plan x base out st =
     (let k = pl_work st; s = pl_run st;
          entry = \<lparr>rh_stage = pw_stage k, rh_attempt = pl_attempt st, rh_output = po_previous out,
            rh_validation_error = bounded_error (po_failure out)\<rparr>
      in if pl_attempt st \<ge> max_attempts (x_policy x) then leave ''attempts_exhausted'' (po_failure out) st
         else (case prepare_next_planned_work x base k (pw_history k @ [entry]) (pl_attempt st) (world s) of (next, w) \<Rightarrow>
           (let s1 = s\<lparr>world := w\<rparr>; st1 = st\<lparr>pl_run := s1\<rparr> in case next of
              Inl err \<Rightarrow> leave ''configuration_error'' (Some err) st1
            | Inr None \<Rightarrow> leave ''recovery_exhausted'' (po_failure out) st1
            | Inr (Some n) \<Rightarrow>
               (if pw_branch n = pw_branch k then Inr (st1\<lparr>pl_work := n\<rparr>)
                else (case enter_branch x base n s1 of
                    Inl (err, s2) \<Rightarrow> Inl (err, s2, Some k)
                  | Inr (n', s2) \<Rightarrow> Inr (st1\<lparr>pl_work := n', pl_run := s2\<rparr>))))))"

definition retry_transport :: "'w run_context \<Rightarrow> classification \<Rightarrow> go_error option \<Rightarrow> 'w plan_state
    \<Rightarrow> 'w plan_exit + 'w plan_state" where
  "retry_transport x cl failure st =
     (let e = x_env x; s = pl_run st in
      if pl_attempt st \<ge> max_attempts (x_policy x) then leave ''attempts_exhausted'' failure st
      else (let (rnd, w) = env_random e (world s);
                dl = delay (pl_attempt st) (cl_retry_after cl) (pol_backoff (x_policy x)) rnd;
                (refused, s1) = wait_refused e dl (s\<lparr>world := w\<rparr>)
            in if refused then leave ''deadline_exceeded'' (Some ErrDeadlineExceeded) (st\<lparr>pl_run := s1\<rparr>)
               else (case perform_wait e cl dl s1 of (err, s2) \<Rightarrow>
                 if err \<noteq> None then leave (stop_reason_for err) err (st\<lparr>pl_run := s2\<rparr>)
                 else Inr (st\<lparr>pl_run := s2\<rparr>))))"

definition after_attempt :: "'w run_context \<Rightarrow> llm_call \<Rightarrow> planned_outcome \<Rightarrow> 'w plan_state \<Rightarrow> 'w plan_exit + 'w plan_state" where
  "after_attempt x base out st =
     (let failure = po_failure out in
      if failure = None then planned_success x (po_result out) st
      else (case check_context (x_env x) (pl_run st) of (late, s1) \<Rightarrow>
        (let st1 = st\<lparr>pl_run := s1\<rparr> in
         if late \<noteq> None then leave (stop_reason_for late) late st1
         else if semantic_parse failure (x_policy x) then advance_plan x base out st1
         else if \<not> transport_retry failure (x_policy x) then leave (stop_reason_for failure) failure st1
         else retry_transport x (planned_class (x_policy x) (pl_work st) failure) failure st1)))"

section \<open>The loop of a plan\<close>

definition plan_turn :: "'w run_context \<Rightarrow> llm_call \<Rightarrow> 'w plan_state \<Rightarrow> 'w plan_exit + 'w plan_state" where
  "plan_turn x base st0 =
     (let s0 = emit_work x (pl_work st0) ''run.progress'' (pl_attempt st0) False (pl_run st0) in
      case check_context (x_env x) s0 of (late, s1) \<Rightarrow>
        (let st1 = st0\<lparr>pl_run := s1\<rparr> in
         if late \<noteq> None then leave (stop_reason_for late) late st1
         else if pl_attempt st1 \<ge> max_attempts (x_policy x)
           then leave ''attempts_exhausted'' (Some (exhausted_recovery_error ''attempts_exhausted'')) st1
         else (case plan_attempt x (st1\<lparr>pl_attempt := pl_attempt st1 + 1\<rparr>) of (out, st2) \<Rightarrow>
             after_attempt x base out st2)))"

partial_function (option) plan_loop :: "'w run_context \<Rightarrow> llm_call \<Rightarrow> 'w plan_state \<Rightarrow> 'w plan_exit option" where
  "plan_loop x base st = (case plan_turn x base st of
     Inl out \<Rightarrow> Some out
   | Inr st' \<Rightarrow> plan_loop x base st')"

declare plan_loop.simps [code]

section \<open>The run of a plan\<close>

definition planned_lookup :: "'w run_context \<Rightarrow> llm_call \<Rightarrow> planned_work \<Rightarrow> 'w run
    \<Rightarrow> (go_error option \<times> 'w run) + 'w run" where
  "planned_lookup x base k s = (case env_cache (x_env x) of
     None \<Rightarrow> Inr s
   | Some cache \<Rightarrow>
      (case cache_get cache (pw_generation_hash k) (x_cache_version x) (world s) of (found, w) \<Rightarrow>
        (let s1 = s\<lparr>world := w\<rparr> in case found of
           Inl err \<Rightarrow> Inl (Some err, s1)
         | Inr None \<Rightarrow> Inr (map_record (set_cache_status ''miss'') s1)
         | Inr (Some cached) \<Rightarrow>
            (if admit_planned_cached_result (env_url_parse (x_env x)) (pw_generation_target k) cached base \<noteq> None
               then Inl (Some cache_integrity_error, s1)
             else Inl (None, map_record (set_stop_reason ''succeeded'' \<circ>
               (\<lambda>c. c\<lparr>cr_diagnostics := (cr_diagnostics c)\<lparr>dg_stage := pw_stage k, dg_branch := pw_branch k\<rparr>\<rparr>) \<circ>
               serve_cached ''original'' (pw_generation_target k) cached) s1)))))"

text \<open>From the prepared generation to the first turn of the loop.\<close>

definition open_generation :: "'w run_context \<Rightarrow> llm_call \<Rightarrow> planned_work \<Rightarrow> 'w run
    \<Rightarrow> (go_error option \<times> 'w run \<times> planned_work) + planned_work \<times> 'w run" where
  "open_generation x base k0 s =
     (let k1 = k0\<lparr>pw_generation_target := work_target k0\<rparr>;
          s1 = map_record (\<lambda>c. c\<lparr>cr_generation_target := pw_generation_target k1\<rparr>) s
      in if x_cache_mode x = ModeOff then Inr (k1, emit_work x k1 ''run.started'' 0 False s1)
         else (case hash_operation x (pw_prepared k1) of
             Inl err \<Rightarrow> Inl (Some err, s1, k1)
           | Inr hash \<Rightarrow>
              (let k = k1\<lparr>pw_generation_hash := hash\<rparr>;
                   s2 = map_record (\<lambda>c. c\<lparr>cr_cache := (cr_cache c)\<lparr>cf_operation_hash := hash, cf_original_hash := hash\<rparr>\<rparr>) s1;
                   s3 = emit_work x k ''run.started'' 0 False s2
               in case (if x_cache_mode x = ModeCache then planned_lookup x base k s3
                        else Inr (map_record (set_cache_status ''refresh'') s3)) of
                    Inl (err, s4) \<Rightarrow> Inl (err, s4, k)
                  | Inr s4 \<Rightarrow> Inr (k, map_record (add_branch_cache ''original'' (pw_generation_target k)) s4))))"

definition plan_body :: "'w run_context \<Rightarrow> llm_call \<Rightarrow> 'w run \<Rightarrow> 'w plan_exit option" where
  "plan_body x base s =
     (case prepare_planned_generation (x_env x) (x_connection x) (x_credential x) base ''original'' stageOriginalGenerate
         None (world s) of
        (Inl err, w) \<Rightarrow> Some (Some err, s\<lparr>world := w\<rparr>, None)
      | (Inr k0, w) \<Rightarrow>
         (case open_generation x base k0 (s\<lparr>world := w\<rparr>) of
            Inl (err, s1, k) \<Rightarrow> Some (err, s1, Some k)
          | Inr (k, s1) \<Rightarrow>
             (case validate_recovery_targets (x_policy x) of
                Some err \<Rightarrow> Some (Some (ErrText (validation_text err)),
                  map_record (set_stop_reason ''configuration_error'') s1, Some k)
              | None \<Rightarrow> plan_loop x base \<lparr>pl_run = s1, pl_work = k, pl_accumulator = new_provider_accumulator,
                  pl_attempt = 0, pl_last_stage = [], pl_last_attempt = 0\<rparr>)))"

definition finish_plan :: "'w run_context \<Rightarrow> 'w plan_exit \<Rightarrow> 'w run" where
  "finish_plan x out = (case out of (err, s, k) \<Rightarrow>
     (let (now, s1) = read_clock (x_env x) s;
          s2 = map_record (close_record (x_policy x) (x_started_at x) now (cr_branch (run_record s1)) err) s1
      in case k of None \<Rightarrow> s2
         | Some k \<Rightarrow> emit_work x k ''run.terminal'' (int (length (cr_attempts (run_record s2)))) True s2))"

definition start_run :: "'w run_context \<Rightarrow> 'w \<Rightarrow> 'w run" where
  "start_run x w = \<lparr>world = w, run_record = initial_record x, progress_sequence = 0, active_stream = None\<rparr>"

definition plan_result :: "'w run_context \<Rightarrow> 'w plan_exit option \<Rightarrow> (call_record \<times> go_error option \<times> 'w) option" where
  "plan_result x out = (case out of None \<Rightarrow> None
     | Some ex \<Rightarrow> (let s = finish_plan x ex in Some (run_record s, fst ex, world s)))"

definition zero_record :: call_record where
  "zero_record = \<lparr>cr_assistant_text = [], cr_search = None, cr_call_id = [], cr_trace_id = [], cr_output = JNull,
     cr_selected_target = zero_execution_target,
     cr_result_source = \<lparr>rs_kind = [], rs_attempt_number = 0, rs_producer = None\<rparr>,
     cr_result_ledger = \<lparr>ledger_usage = unavailable_usage\<lparr>usage_status := []\<rparr>, ledger_cost = zero_cost\<rparr>,
     cr_provider_ledger = \<lparr>ledger_usage = unavailable_usage\<lparr>usage_status := []\<rparr>, ledger_cost = zero_cost\<rparr>, cr_attempts = [],
     cr_parse_failure = [], cr_prepared = None, cr_generation_target = zero_execution_target, cr_branch = [],
     cr_stop_reason = [], cr_diagnostics = zero_diagnostics, cr_origin = zero_origin,
     cr_cache = \<lparr>cf_mode = [], cf_status = [], cf_operation_hash = [], cf_original_hash = [], cf_rerun_hash = [],
       cf_version = [], cf_served = False, cf_written = False\<rparr>\<rparr>"

definition recovery_guard :: "'w run_context \<Rightarrow> go_error option" where
  "recovery_guard x =
     (if call_type (x_call x) \<noteq> ''structured''
        then Some (ErrText ''runtime explicit recovery plans require structured calls'')
      else if conn_id (x_connection x) = [] then Some (ErrText ''runtime connection ID is required'')
      else None)"

definition execute_recovery_plan :: "'w run_context \<Rightarrow> 'w \<Rightarrow> (call_record \<times> go_error option \<times> 'w) option" where
  "execute_recovery_plan x0 w =
     (if recovery_guard x0 \<noteq> None then Some (zero_record, recovery_guard x0, w)
      else (let x1 = (if x_cache_version x0 = [] then x0\<lparr>x_cache_version := DefaultVersion\<rparr> else x0);
          base = (if web_search (x_call x1) \<and> \<not> search_memo (x_call x1)
            then (x_call x1)\<lparr>search_memo := True\<rparr> else x_call x1)
      in case check_context (x_env x1) (start_run x1 w) of (late, s1) \<Rightarrow>
        if late \<noteq> None then Some (set_stop_reason (stop_reason_for late) (run_record s1), late, world s1)
        else if x_cache_mode x1 \<noteq> ModeOff \<and> env_cache (x_env x1) = None
          then Some (run_record s1, Some (ErrText ''runtime cache is required when cache mode is active''), world s1)
        else (case read_clock (x_env x1) s1 of (t, s2) \<Rightarrow>
          (let x = x1\<lparr>x_started_at := t\<rparr> in
           plan_result x (plan_body x base (map_record (note_deadline (x_env x) t) s2))))))"

section \<open>\<open>Execute\<close>\<close>

text \<open>
  The guards of \<open>Execute\<close> and the choice of the executor. The context carries the arguments; a
  missing random source, wait function or clock is replaced by the standard one, so the
  environment always has them.
\<close>

definition execute_guard :: "'w run_context \<Rightarrow> go_error option" where
  "execute_guard x =
     (if \<not> ctx_given (x_env x) then Some (ErrText ''runtime context is required'')
      else if \<not> executor_given (x_env x) then Some (ErrText ''runtime executor is required'')
      else (case policy_validate (x_policy x) of
          Some err \<Rightarrow> Some (ErrText (validation_text err))
        | None \<Rightarrow>
           (if conn_id (x_connection x) = [] then Some (ErrText ''runtime connection ID is required'')
            else if call_type (x_call x) = ''structured'' \<and> validate_structured (x_call x) = None
              then Some (ErrText ''structured call validator is required'')
            else None)))"

definition execute :: "'w run_context \<Rightarrow> 'w \<Rightarrow> (call_record \<times> go_error option \<times> 'w) option" where
  "execute x w =
     (case execute_guard x of
        Some err \<Rightarrow> Some (zero_record, Some err, w)
      | None \<Rightarrow>
         (if call_type (x_call x) = ''structured'' \<and> has_explicit_recovery_plan (x_policy x)
            then execute_recovery_plan x w
          else execute_plain x w))"

end
