(* ===== verification/Runtime_Properties.thy ===== *)
theory Runtime_Properties
  imports Recovery
begin

text \<open>
  What the executors of \<open>internal/runtime\<close> guarantee whatever the providers, the cache and the clock do:
  a run returns within its attempt budget, reports success only with an admitted output, and
  names a stop reason that agrees with its error.
\<close>

section \<open>What the steps leave of the record\<close>

named_theorems run_frame

lemma run_record_map_record [run_frame]: "run_record (map_record f s) = f (run_record s)"
  by (simp add: map_record_def)

lemma read_clock_record [run_frame]: "run_record (snd (read_clock e s)) = run_record s"
  by (simp add: read_clock_def split: prod.split)

lemma check_context_record [run_frame]: "run_record (snd (check_context e s)) = run_record s"
  by (simp add: check_context_def case_prod_beta run_frame)

lemma wait_refused_record [run_frame]: "run_record (snd (wait_refused e d s)) = run_record s"
  by (simp add: wait_refused_def case_prod_beta run_frame split: option.split)

lemma build_progress_snapshot_record [run_frame]:
  "run_record (snd (build_progress_snapshot e t ev s)) = run_record s"
  by (simp add: build_progress_snapshot_def Let_def case_prod_beta run_frame split: option.split)

lemma emit_event_record [run_frame]: "run_record (emit_event x ty st br co ef n f s) = run_record s"
  by (simp add: emit_event_def Let_def case_prod_beta run_frame split: option.split)

lemma emit_progress_record [run_frame]: "run_record (emit_progress x ty n f s) = run_record s"
  by (simp add: emit_progress_def run_frame)

lemma emit_work_record [run_frame]: "run_record (emit_work x k ty n f s) = run_record s"
  by (simp add: emit_work_def run_frame)

lemma run_execution_record:
  assumes "\<And>st s. run_record (f st s) = run_record s"
  shows "run_record (snd (run_execution f ex s)) = run_record s"
  using assms by (induction ex arbitrary: s) (auto simp: Let_def)

lemma dispatch_attempt_record:
  assumes "\<And>s. run_record (report s) = run_record s"
  shows "run_record (snd (dispatch_attempt e report p s))
    = note_result (dp_result (fst (dispatch_attempt e report p s))) (run_record s)"
  by (simp add: dispatch_attempt_def Let_def case_prod_beta run_frame run_execution_record assms)

text \<open>The part of a record that says how a call ended.\<close>

definition outcome_part :: "call_record \<Rightarrow> json \<times> result_source \<times> ledger \<times> string" where
  "outcome_part c = (cr_output c, cr_result_source c, cr_result_ledger c, cr_stop_reason c)"

lemma note_result_frame [run_frame]:
  "outcome_part (note_result r c) = outcome_part c" "cr_attempts (note_result r c) = cr_attempts c"
  by (simp_all add: note_result_def outcome_part_def Let_def)

lemma capture_response_frame [run_frame]:
  "outcome_part (capture_parse_failure_response raw c) = outcome_part c"
  "cr_attempts (capture_parse_failure_response raw c) = cr_attempts c"
  by (simp_all add: capture_parse_failure_response_def outcome_part_def)

lemma note_failure_frame [run_frame]:
  "outcome_part (snd (note_failure f previous c)) = outcome_part c"
  "cr_attempts (snd (note_failure f previous c)) = cr_attempts c"
  by (simp_all add: note_failure_def capture_provider_parse_failure_def run_frame split: option.split)

lemma admit_attempt_frame [run_frame]:
  "outcome_part (snd (snd (admit_attempt x r c))) = outcome_part c"
  "cr_attempts (snd (snd (admit_attempt x r c))) = cr_attempts c"
  by (simp_all add: admit_attempt_def run_frame split: option.split)

lemma admit_planned_frame [run_frame]:
  "outcome_part (snd (admit_planned x k r previous c)) = outcome_part c"
  "cr_attempts (snd (admit_planned x k r previous c)) = cr_attempts c"
  by (simp_all add: admit_planned_def run_frame split: option.split)

lemma add_attempt_frame [run_frame]:
  "outcome_part (add_attempt a c) = outcome_part c" "cr_attempts (add_attempt a c) = cr_attempts c @ [a]"
  by (simp_all add: add_attempt_def outcome_part_def)

lemma provider_ledger_frame [run_frame]:
  "outcome_part (c\<lparr>cr_provider_ledger := l\<rparr>) = outcome_part c"
  by (simp add: outcome_part_def)

lemma keep_search_frame [run_frame]:
  "outcome_part (keep_search r c) = outcome_part c" "cr_attempts (keep_search r c) = cr_attempts c"
  by (simp_all add: keep_search_def outcome_part_def)

lemma map_last_attempt_frame [run_frame]:
  "outcome_part (map_last_attempt f c) = outcome_part c"
  "cr_attempts (map_last_attempt f c) = update_last f (cr_attempts c)"
  by (simp_all add: map_last_attempt_def outcome_part_def)

text \<open>The part of an attempt record that no wait changes.\<close>

definition attempt_core :: "attempt_record \<Rightarrow> int \<times> bool \<times> string \<times> string \<times> category" where
  "attempt_core a = (at_number a, at_retryable a, at_stage a, at_branch a, at_category a)"

lemma map_update_last: "(\<And>a. g (f a) = g a) \<Longrightarrow> map g (update_last f xs) = map g xs"
  by (cases xs rule: rev_cases) (simp_all add: update_last_def)

lemma note_wait_frame [run_frame]:
  "outcome_part (note_wait cl d a c) = outcome_part c"
  "map attempt_core (cr_attempts (note_wait cl d a c)) = map attempt_core (cr_attempts c)"
  by (simp_all add: note_wait_def run_frame map_update_last attempt_core_def) (simp add: outcome_part_def)

lemma perform_wait_frame [run_frame]:
  "outcome_part (run_record (snd (perform_wait e cl d s))) = outcome_part (run_record s)"
  "map attempt_core (cr_attempts (run_record (snd (perform_wait e cl d s)))) = map attempt_core (cr_attempts (run_record s))"
  by (simp_all add: perform_wait_def Let_def case_prod_beta run_frame map_update_last attempt_core_def)

lemma wait_to_retry_frame [run_frame]:
  "outcome_part (run_record (snd (wait_to_retry x n cl s))) = outcome_part (run_record s)"
  "map attempt_core (cr_attempts (run_record (snd (wait_to_retry x n cl s)))) = map attempt_core (cr_attempts (run_record s))"
  by (simp_all add: wait_to_retry_def Let_def case_prod_beta run_frame split: option.split)

section \<open>An attempt of \<open>Execute\<close>\<close>

text \<open>The validator and the URL parser a result is admitted with.\<close>

definition admitted :: "'w run_context \<Rightarrow> provider_result \<Rightarrow> bool" where
  "admitted x r \<longleftrightarrow> admit_result (env_url_parse (x_env x)) r (call_type (x_call x))
     (validate_structured_value (validate_structured (x_call x))) = None"

lemma admit_attempt_None: "fst (admit_attempt x r c) = None \<longleftrightarrow> admitted x r"
  by (simp add: admit_attempt_def admitted_def split: option.split)

lemma judge_result_frame [run_frame]:
  "outcome_part (snd (judge_result x r f c)) = outcome_part c"
  "cr_attempts (snd (judge_result x r f c)) = cr_attempts c"
  by (simp_all add: judge_result_def case_prod_beta run_frame)

lemma judge_result_None: "fst (judge_result x r f c) = None \<longleftrightarrow> f = None \<and> admitted x r"
  by (auto simp: judge_result_def case_prod_beta admit_attempt_None)

lemma conclude_attempt_spec:
  assumes "conclude_attempt x target n d f s = (f', cl, s')"
  shows "outcome_part (run_record s') = outcome_part (run_record s)"
    and "\<exists>a. cr_attempts (run_record s') = cr_attempts (run_record s) @ [a]
      \<and> attempt_core a = (n, cl_retryable cl, stageOriginalGenerate, ''original'', cl_category cl)"
    and "cl = classify f' (x_policy x)"
    and "f' = None \<Longrightarrow> f = None"
  using assms
  by (auto simp: conclude_attempt_def Let_def case_prod_beta run_frame attempt_core_def original_attempt_def
      split: if_splits)

lemma attempt_once_spec:
  assumes "attempt_once x p target n acc s = (out, acc', s')"
  shows "outcome_part (run_record s') = outcome_part (run_record s)"
    and "\<exists>a. cr_attempts (run_record s') = cr_attempts (run_record s) @ [a]
      \<and> attempt_core a = (n, cl_retryable (ao_class out), stageOriginalGenerate, ''original'', cl_category (ao_class out))"
    and "ao_class out = classify (ao_failure out) (x_policy x)"
    and "ao_failure out = None \<Longrightarrow> admitted x (ao_result out)"
proof -
  let ?report = "emit_progress x ''run.progress'' n False"
  obtain d s1 where 1: "dispatch_attempt (x_env x) ?report p s = (d, s1)" by fastforce
  obtain r f1 acc1 where 2: "settle_accounting (x_connection x) (dp_result d) (dp_failure d) acc = (r, f1, acc1)"
    by (metis prod_cases3)
  define c1 where "c1 = (run_record s1)\<lparr>cr_provider_ledger := accumulator_ledger acc1\<rparr>"
  obtain f2 c where 3: "judge_result x r f1 c1 = (f2, c)" by fastforce
  obtain f3 cl s2 where 4: "conclude_attempt x target n d f2 (s1\<lparr>run_record := c\<rparr>) = (f3, cl, s2)"
    by (metis prod_cases3)
  have out: "out = \<lparr>ao_result = r, ao_failure = f3, ao_class = cl\<rparr>" and s': "s' = s2"
    using assms by (simp_all add: attempt_once_def 1 2 c1_def [symmetric] 3 4)
  have "run_record s1 = note_result (dp_result d) (run_record s)"
    using dispatch_attempt_record [of ?report "x_env x" p s] 1 by (simp add: run_frame)
  then have "outcome_part c1 = outcome_part (run_record s)" "cr_attempts c1 = cr_attempts (run_record s)"
    by (simp_all add: c1_def run_frame)
  then have c: "outcome_part c = outcome_part (run_record s)" "cr_attempts c = cr_attempts (run_record s)"
    using judge_result_frame [of x r f1 c1] 3 by simp_all
  show "outcome_part (run_record s') = outcome_part (run_record s)"
    using conclude_attempt_spec(1) [OF 4] c by (simp add: s')
  show "\<exists>a. cr_attempts (run_record s') = cr_attempts (run_record s) @ [a]
      \<and> attempt_core a = (n, cl_retryable (ao_class out), stageOriginalGenerate, ''original'', cl_category (ao_class out))"
    using conclude_attempt_spec(2) [OF 4] c by (simp add: s' out)
  show "ao_class out = classify (ao_failure out) (x_policy x)"
    using conclude_attempt_spec(3) [OF 4] by (simp add: out)
  show "admitted x (ao_result out)" if "ao_failure out = None"
    using that conclude_attempt_spec(4) [OF 4] judge_result_None [of x r f1 c1] 3 by (simp add: out)
qed

section \<open>How a call ends\<close>

definition pending :: "call_record \<Rightarrow> bool" where
  "pending c \<longleftrightarrow> outcome_part c
     = (JNull, \<lparr>rs_kind = ResultSourceNone, rs_attempt_number = 0, rs_producer = None\<rparr>, empty_ledger, [])"

text \<open>An admitted result, from the provider or from the cache, is in the record.\<close>

definition delivered :: "'w run_context \<Rightarrow> call_record \<Rightarrow> bool" where
  "delivered x c \<longleftrightarrow> (\<exists>r. admitted x r \<and> cr_output c = pr_output r \<and> cr_result_ledger c = pr_accounting r)
     \<and> rs_kind (cr_result_source c) \<in> {ResultSourceProvider, ResultSourceCache}"

definition undelivered :: "call_record \<Rightarrow> bool" where
  "undelivered c \<longleftrightarrow> cr_output c = JNull \<and> rs_kind (cr_result_source c) = ResultSourceNone
     \<and> rs_producer (cr_result_source c) = None \<and> cr_result_ledger c = empty_ledger"

definition settled :: "'w run_context \<Rightarrow> go_error option \<Rightarrow> call_record \<Rightarrow> bool" where
  "settled x err c \<longleftrightarrow> (if err = None then delivered x c else undelivered c)"

definition numbered :: "attempt_record list \<Rightarrow> bool" where
  "numbered as \<longleftrightarrow> map at_number as = [1..int (length as)]"

definition budgeted :: "int \<Rightarrow> attempt_record list \<Rightarrow> bool" where
  "budgeted m as \<longleftrightarrow> numbered as \<and> int (length as) \<le> m \<and> list_all at_retryable (butlast as)"

lemma core_cong:
  assumes "map attempt_core as = map attempt_core bs"
  shows "length as = length bs" "numbered as = numbered bs" "list_all at_retryable as = list_all at_retryable bs"
    "budgeted m as = budgeted m bs"
proof -
  show l: "length as = length bs" using assms by (metis length_map)
  have n: "map at_number as = map at_number bs" and r: "map at_retryable as = map at_retryable bs"
    using arg_cong [OF assms, of "map fst"] arg_cong [OF assms, of "map (fst \<circ> snd)"]
    by (simp_all add: attempt_core_def comp_def)
  show num: "numbered as = numbered bs" by (simp add: numbered_def n l)
  have all: "list_all at_retryable cs \<longleftrightarrow> list_all id (map at_retryable cs)" for cs by (simp add: list_all_iff)
  show "list_all at_retryable as = list_all at_retryable bs" by (simp only: all r)
  have "map at_retryable (butlast as) = map at_retryable (butlast bs)" by (simp add: map_butlast r)
  then show "budgeted m as = budgeted m bs" by (simp only: budgeted_def num l all)
qed

lemma numbered_snoc:
  "numbered as \<Longrightarrow> at_number a = int (length as) + 1 \<Longrightarrow> numbered (as @ [a])"
  using upto_rec2 [of 1 "int (length as) + 1"] by (simp add: numbered_def ac_simps)

lemma budgeted_snoc:
  assumes "numbered as" "list_all at_retryable as" "int (length as) < m" "at_number a = int (length as) + 1"
  shows "budgeted m (as @ [a])"
  using assms numbered_snoc [of as a] by (simp add: budgeted_def)

lemma pending_undelivered: "pending c \<Longrightarrow> undelivered c \<and> cr_stop_reason c = []"
  by (simp add: pending_def undelivered_def outcome_part_def)

lemma pending_cong: "outcome_part c = outcome_part d \<Longrightarrow> pending c = pending d"
  by (simp add: pending_def)

lemma write_cache_frame:
  "outcome_part (run_record (snd (write_cache x h en s))) = outcome_part (run_record s)"
  "cr_attempts (run_record (snd (write_cache x h en s))) = cr_attempts (run_record s)"
  by (simp_all add: write_cache_def run_frame split: option.split prod.split) (simp add: outcome_part_def)

lemma accept_result_delivered:
  "admitted x r \<Longrightarrow> delivered x (accept_result t n r c)"
  "cr_stop_reason (accept_result t n r c) = cr_stop_reason c" "cr_attempts (accept_result t n r c) = cr_attempts c"
  by (auto simp: delivered_def accept_result_def)

lemma delivered_cong: "outcome_part c = outcome_part d \<Longrightarrow> delivered x c = delivered x d"
  by (simp add: delivered_def outcome_part_def)

lemma finish_success_spec:
  assumes "admitted x r" "pending (run_record s)"
  shows "delivered x (run_record (finish_success x t n r s))" "cr_stop_reason (run_record (finish_success x t n r s)) = []"
    and "cr_attempts (run_record (finish_success x t n r s)) = cr_attempts (run_record s)"
proof -
  let ?s = "map_record (accept_result t n r) s"
  have o: "outcome_part (run_record (finish_success x t n r s)) = outcome_part (run_record ?s)"
    and c: "cr_attempts (run_record (finish_success x t n r s)) = cr_attempts (run_record ?s)"
    by (simp_all add: finish_success_def Let_def write_cache_frame)
  from o have e: "cr_stop_reason (run_record (finish_success x t n r s)) = cr_stop_reason (run_record ?s)"
    by (simp add: outcome_part_def)
  show "delivered x (run_record (finish_success x t n r s))"
    unfolding delivered_cong [OF o] by (simp only: run_frame accept_result_delivered(1) assms(1))
  show "cr_stop_reason (run_record (finish_success x t n r s)) = []"
    using assms(2) by (simp add: e run_frame accept_result_delivered pending_undelivered)
  show "cr_attempts (run_record (finish_success x t n r s)) = cr_attempts (run_record s)"
    by (simp add: c run_frame accept_result_delivered)
qed

text \<open>What holds at the head of the loop before attempt \<open>n\<close>.\<close>

definition loop_head :: "'w run_context \<Rightarrow> int \<Rightarrow> 'w run \<Rightarrow> bool" where
  "loop_head x n s \<longleftrightarrow> pending (run_record s) \<and> numbered (cr_attempts (run_record s))
     \<and> list_all at_retryable (cr_attempts (run_record s)) \<and> n = int (length (cr_attempts (run_record s))) + 1
     \<and> n \<le> max_attempts (x_policy x)"

definition returned :: "'w run_context \<Rightarrow> go_error option \<Rightarrow> 'w run \<Rightarrow> bool" where
  "returned x err s \<longleftrightarrow> settled x err (run_record s) \<and> cr_stop_reason (run_record s) = []
     \<and> budgeted (max_attempts (x_policy x)) (cr_attempts (run_record s))"

lemma returned_failure:
  "pending (run_record s) \<Longrightarrow> budgeted (max_attempts (x_policy x)) (cr_attempts (run_record s)) \<Longrightarrow> err \<noteq> None
    \<Longrightarrow> returned x err s"
  using pending_undelivered [of "run_record s"] by (auto simp: returned_def settled_def)

lemma loop_head_budgeted: "loop_head x n s \<Longrightarrow> budgeted (max_attempts (x_policy x)) (cr_attempts (run_record s))"
  by (auto simp: loop_head_def budgeted_def list_all_iff dest: in_set_butlastD)

lemma execute_turn_spec:
  assumes "loop_head x n s"
  shows "case execute_turn x p t n acc s of
      Inl (err, s') \<Rightarrow> returned x err s'
    | Inr (acc', s') \<Rightarrow> loop_head x (n + 1) s'"
proof -
  let ?m = "max_attempts (x_policy x)"
  obtain late s1 where 1: "check_context (x_env x) s = (late, s1)" by fastforce
  have r1: "run_record s1 = run_record s" using check_context_record [of "x_env x" s] 1 by simp
  obtain out acc' s2 where 2: "attempt_once x p t n acc s1 = (out, acc', s2)" by (metis prod_cases3)
  note spec = attempt_once_spec [OF 2, unfolded r1]
  have p2: "pending (run_record s2)" using pending_cong [OF spec(1)] assms by (simp add: loop_head_def)
  obtain a where a: "cr_attempts (run_record s2) = cr_attempts (run_record s) @ [a]"
    "attempt_core a = (n, cl_retryable (ao_class out), stageOriginalGenerate, ''original'', cl_category (ao_class out))"
    using spec(2) by blast
  have b2: "budgeted ?m (cr_attempts (run_record s2))"
    using budgeted_snoc [of "cr_attempts (run_record s)" ?m a] assms a by (simp add: attempt_core_def loop_head_def)
  obtain err s3 where 3: "wait_to_retry x n (ao_class out) s2 = (err, s3)" by fastforce
  note w = wait_to_retry_frame [of x n "ao_class out" s2, unfolded 3 snd_conv]
  have p3: "pending (run_record s3)" using pending_cong [OF w(1)] p2 by simp
  have b3: "budgeted ?m (cr_attempts (run_record s3))" using core_cong(4) [OF w(2)] b2 by simp
  have late: "returned x late s1" if "late \<noteq> None"
    using returned_failure [of s1 x late] loop_head_budgeted [OF assms] assms that by (simp add: r1 loop_head_def)
  have ok: "returned x None (finish_success x t n (ao_result out) s2)" if "ao_failure out = None"
    using finish_success_spec [OF spec(4) [OF that] p2, of t n] b2 by (simp add: returned_def settled_def)
  have again: "loop_head x (n + 1) s3" if "n \<noteq> ?m" "cl_retryable (ao_class out)"
    using that assms a p3 b3 core_cong(1,3) [OF w(2)] by (simp add: loop_head_def budgeted_def attempt_core_def)
  show ?thesis
    using late ok again returned_failure [OF p2 b2] returned_failure [OF p3 b3]
    by (simp add: execute_turn_def 1 2 3)
qed

text \<open>The loop returns, with at most the budget of attempts.\<close>

lemma execute_loop_spec:
  assumes "loop_head x n s"
  shows "\<exists>err s'. execute_loop x p t n acc s = Some (err, s') \<and> returned x err s'"
  using assms
proof (induction "nat (max_attempts (x_policy x) - n)" arbitrary: n acc s rule: less_induct)
  case less
  show ?case
  proof (cases "execute_turn x p t n acc s")
    case (Inl out)
    with execute_turn_spec [OF less.prems, of p t acc] show ?thesis
      by (subst execute_loop.simps) (auto split: prod.splits)
  next
    case (Inr go)
    obtain acc' s' where go: "go = (acc', s')" by fastforce
    then have h: "loop_head x (n + 1) s'" using execute_turn_spec [OF less.prems, of p t acc] Inr by simp
    then have "nat (max_attempts (x_policy x) - (n + 1)) < nat (max_attempts (x_policy x) - n)"
      by (simp add: loop_head_def)
    from less.hyps [OF this h, of acc'] show ?thesis
      by (subst execute_loop.simps) (simp add: Inr go)
  qed
qed

section \<open>\<open>Execute\<close> without a plan\<close>

lemma admitted_cong:
  assumes "x_env y = x_env x" "call_type (x_call y) = call_type (x_call x)"
    "validate_structured (x_call y) = validate_structured (x_call x)"
  shows "admitted y r = admitted x r"
  by (simp add: admitted_def assms)

lemma cached_admitted:
  "admit_cached_result (env_url_parse (x_env x)) t cached (x_call x) = None \<Longrightarrow> admitted x (ca_provider_result cached)"
  by (simp add: admit_cached_result_def admitted_def split: option.splits)

lemma serve_cached_frame:
  "admitted x (ca_provider_result cached) \<Longrightarrow> delivered x (serve_cached branch t cached c)"
  "cr_stop_reason (serve_cached branch t cached c) = cr_stop_reason c"
  "cr_attempts (serve_cached branch t cached c) = cr_attempts c"
  by (auto simp: serve_cached_def add_branch_cache_def delivered_def Let_def)

lemma cache_note_frame [run_frame]:
  "outcome_part (add_branch_cache b t c) = outcome_part c" "cr_attempts (add_branch_cache b t c) = cr_attempts c"
  "outcome_part (set_cache_status st c) = outcome_part c" "cr_attempts (set_cache_status st c) = cr_attempts c"
  "outcome_part (c\<lparr>cr_cache := f\<rparr>) = outcome_part c"
  by (simp_all add: add_branch_cache_def set_cache_status_def outcome_part_def)

text \<open>What holds before the first attempt.\<close>

definition fresh :: "'w run \<Rightarrow> bool" where
  "fresh s \<longleftrightarrow> pending (run_record s) \<and> cr_attempts (run_record s) = []"

lemma fresh_loop_head: "fresh s \<Longrightarrow> 1 \<le> max_attempts (x_policy x) \<Longrightarrow> loop_head x 1 s"
  by (simp add: fresh_def loop_head_def numbered_def)

lemma fresh_cong:
  "outcome_part (run_record s') = outcome_part (run_record s) \<Longrightarrow> cr_attempts (run_record s') = cr_attempts (run_record s)
    \<Longrightarrow> fresh s' = fresh s"
  using pending_cong [of "run_record s'" "run_record s"] by (simp add: fresh_def)

lemma fresh_returned:
  assumes "fresh s" "1 \<le> max_attempts (x_policy x)" "err \<noteq> None"
  shows "returned x err s"
  using returned_failure [of s x err] loop_head_budgeted [OF fresh_loop_head [OF assms(1,2)]] assms
  by (simp add: fresh_def)

lemma served_returned:
  assumes "fresh s" "1 \<le> max_attempts (x_policy x)" "admitted x (ca_provider_result cached)"
  shows "returned x None (map_record (serve_cached b t cached) s)"
  using assms loop_head_budgeted [OF fresh_loop_head [OF assms(1,2)]] pending_undelivered [of "run_record s"]
  by (simp add: returned_def settled_def run_frame serve_cached_frame fresh_def)

definition stage_ok :: "'w run_context \<Rightarrow> go_error option option \<times> 'w run \<Rightarrow> bool" where
  "stage_ok x r \<longleftrightarrow> (case fst r of Some err \<Rightarrow> returned x err (snd r) | None \<Rightarrow> fresh (snd r))"

lemma stage_ok_simps [simp]:
  "stage_ok x (Some err, s) = returned x err s" "stage_ok x (None, s) = fresh s"
  by (simp_all add: stage_ok_def)

lemma look_up_spec:
  assumes "fresh s" "1 \<le> max_attempts (x_policy x)"
  shows "stage_ok x (look_up x cache t h s)"
proof -
  obtain found w where f: "cache_get cache h (x_cache_version x) (world s) = (found, w)" by fastforce
  have s1: "fresh (s\<lparr>world := w\<rparr>)" using assms(1) fresh_cong [of "s\<lparr>world := w\<rparr>" s] by simp
  have miss: "fresh (map_record (add_branch_cache ''original'' t \<circ> set_cache_status ''miss'') (s\<lparr>world := w\<rparr>))"
    using s1 by (simp add: fresh_def pending_def run_frame)
  show ?thesis
    using fresh_returned [OF s1 assms(2)] served_returned [OF s1 assms(2) cached_admitted] miss
    by (auto simp: look_up_def f Let_def split: sum.split option.split)
qed

lemma consult_cache_spec:
  assumes "fresh s" "1 \<le> max_attempts (x_policy x)"
  shows "stage_ok x (consult_cache x p t s)"
proof -
  define s1 where "s1 h = map_record (\<lambda>c. c\<lparr>cr_cache := (cr_cache c)\<lparr>cf_operation_hash := h\<rparr>\<rparr>) s" for h
  have f1: "fresh (s1 h)" for h
    using assms(1) fresh_cong [of "s1 h" s] by (simp add: s1_def run_frame)
  have refresh: "fresh (map_record (add_branch_cache ''original'' t \<circ> set_cache_status ''refresh'') (s1 h))" for h
    using f1 [of h] by (simp add: fresh_def pending_def run_frame)
  show ?thesis
    using look_up_spec [OF f1 assms(2)] refresh assms(1) fresh_returned [OF assms]
    by (simp add: consult_cache_def s1_def [symmetric] Let_def split: option.split sum.split)
qed

lemma execute_body_spec:
  assumes "fresh s" "1 \<le> max_attempts (x_policy x)"
  shows "\<exists>err s'. execute_body x s = Some (err, s') \<and> returned x err s'"
proof -
  define s1 where "s1 = emit_progress x ''run.started'' 0 False s"
  obtain late s2 where 2: "check_context (x_env x) s1 = (late, s2)" by fastforce
  have "run_record s2 = run_record s1" using check_context_record [of "x_env x" s1] 2 by simp
  then have f2: "fresh s2" using assms(1) by (simp add: fresh_def s1_def run_frame)
  obtain prep w where 3: "env_prepare (x_env x) (x_connection x) (x_credential x) (x_call x) (world s2) = (prep, w)"
    by fastforce
  have f3: "fresh (s2\<lparr>world := w\<rparr>)" using f2 by (simp add: fresh_def)
  have f4: "fresh (map_record (\<lambda>c. c\<lparr>cr_prepared := q\<rparr>) (s2\<lparr>world := w\<rparr>))" for q
    using f2 by (simp add: fresh_def run_frame pending_def outcome_part_def)
  show ?thesis
  proof (cases "late = None \<and> (\<exists>p0. prep = Inr p0)")
    case False
    then show ?thesis
      using fresh_returned [OF f2 assms(2)] fresh_returned [OF f3 assms(2)]
      by (cases prep) (auto simp: execute_body_def s1_def [symmetric] 2 3)
  next
    case True
    then obtain p0 where p0: "prep = Inr p0" by blast
    define p where "p = with_cache_domain p0 (x_connection x)"
    define s3 where "s3 = map_record (\<lambda>c. c\<lparr>cr_prepared := Some p\<rparr>) (s2\<lparr>world := w\<rparr>)"
    obtain found s4 where 4: "consult_cache x p (target_from_prepared (x_connection x) p) s3 = (found, s4)" by fastforce
    have "stage_ok x (found, s4)"
      using consult_cache_spec [OF f4 assms(2), of p "target_from_prepared (x_connection x) p" "Some p"] 4
      by (simp add: s3_def)
    moreover have "execute_body x s = (case found of Some err \<Rightarrow> Some (err, s4)
        | None \<Rightarrow> execute_loop x p (target_from_prepared (x_connection x) p) 1 new_provider_accumulator s4)"
      using True by (simp add: execute_body_def s1_def [symmetric] 2 3 p0 Let_def p_def [symmetric] s3_def [symmetric] 4
        split: option.split)
    ultimately show ?thesis
      using execute_loop_spec [OF fresh_loop_head [OF _ assms(2)]] by (cases found) auto
  qed
qed

lemma stop_reason_for_succeeded: "stop_reason_for err = ''succeeded'' \<longleftrightarrow> err = None"
  by (simp add: stop_reason_for_def split: option.split)

lemma stop_reason_for_nonempty: "stop_reason_for err \<noteq> []"
  by (simp add: stop_reason_for_def split: option.split)

text \<open>The verdict on a finished call.\<close>

definition call_ended :: "'w run_context \<Rightarrow> call_record \<Rightarrow> go_error option \<Rightarrow> bool" where
  "call_ended x c err \<longleftrightarrow> budgeted (max_attempts (x_policy x)) (cr_attempts c) \<and> settled x err c
     \<and> (cr_stop_reason c = ''succeeded'' \<longleftrightarrow> err = None)"

lemma close_record_frame:
  "cr_attempts (close_record p t now b err c) = cr_attempts c"
  "settled x e (close_record p t now b err c) = settled x e c"
  "cr_stop_reason (close_record p t now b err c) = (if cr_stop_reason c = [] then stop_reason_for err else cr_stop_reason c)"
  by (simp_all add: close_record_def Let_def settled_def delivered_def undelivered_def)

lemma finish_run_ended:
  assumes "returned x err s"
  shows "call_ended x (run_record (finish_run x err s)) err"
  using assms
  by (simp add: finish_run_def Let_def case_prod_beta run_frame call_ended_def returned_def close_record_frame
      stop_reason_for_succeeded)

lemma settled_context:
  assumes "x_env y = x_env x" "call_type (x_call y) = call_type (x_call x)"
    "validate_structured (x_call y) = validate_structured (x_call x)"
  shows "settled y err c = settled x err c"
  using admitted_cong [OF assms] by (simp add: settled_def delivered_def)

lemma begin_run_spec:
  assumes "begin_run x w = (y, s)"
  shows "fresh s" "x_env y = x_env x" "x_call y = x_call x" "x_policy y = x_policy x"
  using assms
  by (auto simp: begin_run_def Let_def case_prod_beta fresh_def run_frame pending_def outcome_part_def
      note_deadline_def initial_record_def split: option.split)

lemma execute_plain_ended:
  assumes "1 \<le> max_attempts (x_policy x)"
  shows "\<exists>c err w'. execute_plain x w = Some (c, err, w') \<and> call_ended x c err"
proof -
  define x1 where "x1 = (if web_search (x_call x) then x\<lparr>x_call := (x_call x)\<lparr>search_memo := True\<rparr>\<rparr> else x)"
  define x2 where "x2 = (if x_cache_version x1 = [] then x1\<lparr>x_cache_version := DefaultVersion\<rparr> else x1)"
  obtain y s where y: "begin_run x2 w = (y, s)" by fastforce
  note b = begin_run_spec [OF y]
  have eq: "x_policy y = x_policy x" "settled y err c = settled x err c" for err c
    using settled_context [of y x err c] b by (simp_all add: x2_def x1_def)
  obtain err s' where r: "execute_body y s = Some (err, s')" "returned y err s'"
    using execute_body_spec [OF b(1), of y] assms eq(1) by auto
  have "call_ended x (run_record (finish_run y err s')) err"
    using finish_run_ended [OF r(2)] by (simp add: call_ended_def eq)
  then show ?thesis
    by (simp add: execute_plain_def Let_def x1_def [symmetric] x2_def [symmetric] y r(1))
qed

section \<open>The stages of a plan\<close>

type_synonym core = "int \<times> bool \<times> string \<times> string \<times> category"

text \<open>
  Where the plan goes after an attempt: to the next stage when its output was refused, to the
  same operation when the failure was one of transport.
\<close>

definition goes :: "policy \<Rightarrow> core \<Rightarrow> string \<Rightarrow> string \<Rightarrow> bool" where
  "goes p c stage branch \<longleftrightarrow> (case c of (n, again, st, br, cat) \<Rightarrow>
     if cat = CategoryParse
     then stage \<noteq> [] \<and> stage = next_planned_stage p br st \<and> branch = (if stage = stageRerunGenerate then ''rerun'' else br)
     else stage = st \<and> branch = br)"

definition position :: "policy \<Rightarrow> core list \<Rightarrow> string \<Rightarrow> string \<Rightarrow> bool" where
  "position p cs stage branch \<longleftrightarrow>
     (if cs = [] then stage = stageOriginalGenerate \<and> branch = ''original'' else goes p (last cs) stage branch)"

fun plan_path :: "policy \<Rightarrow> core list \<Rightarrow> core list \<Rightarrow> bool" where
  "plan_path p before [] \<longleftrightarrow> True"
| "plan_path p before ((n, again, stage, branch, cat) # cs) \<longleftrightarrow>
     position p before stage branch \<and> plan_path p (before @ [(n, again, stage, branch, cat)]) cs"

definition follows_plan :: "policy \<Rightarrow> attempt_record list \<Rightarrow> bool" where
  "follows_plan p as \<longleftrightarrow> plan_path p [] (map attempt_core as)"

lemma plan_path_snoc:
  "plan_path p before (cs @ [(n, again, stage, branch, cat)])
    \<longleftrightarrow> plan_path p before cs \<and> position p (before @ cs) stage branch"
  by (induction p before cs rule: plan_path.induct) auto

text \<open>The calls of a plan differ from the caller's in what a result is not judged by.\<close>

definition same_call :: "'w run_context \<Rightarrow> llm_call \<Rightarrow> bool" where
  "same_call x c \<longleftrightarrow> call_type c = call_type (x_call x) \<and> validate_structured c = validate_structured (x_call x)"

definition work_ok :: "'w run_context \<Rightarrow> planned_work \<Rightarrow> bool" where
  "work_ok x k \<longleftrightarrow> same_call x (pw_call k) \<and> same_call x (pw_generation_call k)"

lemma same_call_update [simp]:
  "same_call x (c\<lparr>call_repair := q\<rparr>) = same_call x c" "same_call x (c\<lparr>web_search := b\<rparr>) = same_call x c"
  "same_call x (c\<lparr>search_memo := m\<rparr>) = same_call x c" "same_call x (retarget_call t c) = same_call x c"
  by (simp_all add: same_call_def retarget_call_def)

lemma prepare_planned_work_spec:
  assumes "prepare_planned_work e conn cred base branch stage t q w = (Inr k, w')" "same_call x base"
  shows "pw_stage k = stage" "pw_branch k = branch" "work_ok x k"
  using assms
  by (auto simp: prepare_planned_work_def resolve_recovery_target_def work_ok_def Let_def
      split: sum.splits prod.splits option.splits if_splits)

lemma prepare_repair_spec:
  assumes "prepare_repair x base k t q w = (Inr k', w')" "same_call x base" "work_ok x k"
  shows "pw_stage k' = rq_stage q" "pw_branch k' = pw_branch k" "work_ok x k'"
proof -
  obtain conn cred where b: "(if rt_source t = ''generation''
      then (rc_connection (pw_generation_binding k), rc_credential (pw_generation_binding k))
      else (x_connection x, x_credential x)) = (conn, cred)" by fastforce
  obtain r w1 where r: "prepare_planned_work (x_env x) conn cred (repair_call base k t q) (pw_branch k) (rq_stage q)
      (Some t) (Some q) w = (r, w1)" by fastforce
  obtain n where n: "r = Inr n"
    and k': "k' = n\<lparr>pw_generation_hash := pw_generation_hash k, pw_generation_target := pw_generation_target k,
      pw_generation_call := pw_generation_call k, pw_generation_binding := pw_generation_binding k\<rparr>"
    using assms(1) unfolding prepare_repair_def Let_def b by (auto simp: r split: sum.splits)
  have "same_call x (repair_call base k t q)" using assms(2,3) by (simp add: repair_call_def work_ok_def)
  note spec = prepare_planned_work_spec [OF r [unfolded n] this]
  show "pw_stage k' = rq_stage q" "pw_branch k' = pw_branch k" "work_ok x k'"
    using spec assms(3) by (simp_all add: k' work_ok_def)
qed

lemma prepare_next_spec:
  assumes "prepare_next_planned_work x base k h n w = (Inr (Some k'), w')" "same_call x base" "work_ok x k"
  shows "pw_stage k' = next_planned_stage (x_policy x) (pw_branch k) (pw_stage k) \<and> pw_stage k' \<noteq> [] \<and> work_ok x k'
    \<and> pw_branch k' = (if pw_stage k' = stageRerunGenerate then ''rerun'' else pw_branch k)"
proof -
  let ?p = "x_policy x"
  define stage where "stage = next_planned_stage ?p (pw_branch k) (pw_stage k)"
  define q where "q = \<lparr>rq_attempt = n + 1, rq_max_attempts = max_attempts ?p, rq_stage = stage,
    rq_branch = pw_branch k, rq_target_schema = call_schema base, rq_history = h\<rparr>"
  have stage: "stage \<noteq> []"
    using assms(1) by (auto simp: prepare_next_planned_work_def Let_def stage_def [symmetric])
  show ?thesis
  proof (cases "stage = stageRerunGenerate")
    case True
    then have "prepare_planned_work (x_env x) (x_connection x) (x_credential x) (base\<lparr>call_repair := None\<rparr>) ''rerun'' stage
        (map_option rr_target (rerun ?p)) None w = (Inr k', w')"
      using assms(1) by (auto simp: prepare_next_planned_work_def Let_def stage_def [symmetric] split: sum.splits prod.splits)
    from prepare_planned_work_spec [OF this, of x] assms(2) True show ?thesis by (simp add: stage_def)
  next
    case False
    then obtain t where "prepare_repair x base k t q w = (Inr k', w')"
      using assms(1) stage
      by (auto simp: prepare_next_planned_work_def Let_def stage_def [symmetric] q_def [symmetric]
          split: sum.splits prod.splits option.splits)
    from prepare_repair_spec [OF this assms(2,3)] False stage show ?thesis by (simp add: q_def stage_def)
  qed
qed

section \<open>An attempt of a plan\<close>

lemma judge_planned_frame [run_frame]:
  "outcome_part (snd (snd (judge_planned x k r f c))) = outcome_part c"
  "cr_attempts (snd (snd (judge_planned x k r f c))) = cr_attempts c"
  by (simp_all add: judge_planned_def Let_def case_prod_beta run_frame)

lemma judge_planned_None:
  "work_ok x k \<Longrightarrow> fst (judge_planned x k r f c) = None \<longleftrightarrow> f = None \<and> admitted x r"
  by (auto simp: judge_planned_def Let_def case_prod_beta admit_planned_def admitted_def work_ok_def same_call_def
      split: option.split)

lemma conclude_planned_spec:
  "outcome_part (run_record (pl_run (conclude_planned x st d f s))) = outcome_part (run_record s)"
  "\<exists>a. cr_attempts (run_record (pl_run (conclude_planned x st d f s))) = cr_attempts (run_record s) @ [a]
    \<and> attempt_core a = (pl_attempt st, cl_retryable (planned_class (x_policy x) (pl_work st) f), pw_stage (pl_work st),
      pw_branch (pl_work st), cl_category (planned_class (x_policy x) (pl_work st) f))"
  "pl_work (conclude_planned x st d f s) = pl_work st" "pl_attempt (conclude_planned x st d f s) = pl_attempt st"
  by (simp_all add: conclude_planned_def Let_def case_prod_beta run_frame attempt_core_def planned_attempt_def)

lemma plan_attempt_spec:
  assumes "plan_attempt x st = (out, st')" "work_ok x (pl_work st)"
  shows "outcome_part (run_record (pl_run st')) = outcome_part (run_record (pl_run st))"
    and "\<exists>a. cr_attempts (run_record (pl_run st')) = cr_attempts (run_record (pl_run st)) @ [a]
      \<and> attempt_core a = (pl_attempt st, cl_retryable (planned_class (x_policy x) (pl_work st) (po_failure out)),
        pw_stage (pl_work st), pw_branch (pl_work st), cl_category (planned_class (x_policy x) (pl_work st) (po_failure out)))"
    and "pl_work st' = pl_work st" "pl_attempt st' = pl_attempt st"
    and "po_failure out = None \<Longrightarrow> admitted x (po_result out)"
proof -
  let ?k = "pl_work st"
  let ?report = "emit_work x ?k ''run.progress'' (pl_attempt st) False"
  obtain d s1 where 1: "dispatch_attempt (x_env x) ?report (pw_prepared ?k) (pl_run st) = (d, s1)" by fastforce
  obtain r f1 acc1 where 2: "settle_accounting (pw_connection ?k) (dp_result d) (dp_failure d) (pl_accumulator st) = (r, f1, acc1)"
    by (metis prod_cases3)
  define c1 where "c1 = (keep_search r (run_record s1))\<lparr>cr_provider_ledger := accumulator_ledger acc1\<rparr>"
  obtain f2 previous c where 3: "judge_planned x ?k r f1 c1 = (f2, previous, c)" by (metis prod_cases3)
  define st1 where "st1 = conclude_planned x st d f2 (s1\<lparr>run_record := c\<rparr>)"
  have out: "out = \<lparr>po_result = r, po_failure = f2, po_previous = previous\<rparr>" and st': "st' = st1\<lparr>pl_accumulator := acc1\<rparr>"
    using assms(1) by (simp_all add: plan_attempt_def Let_def 1 2 c1_def [symmetric] 3 st1_def [symmetric])
  have "run_record s1 = note_result (dp_result d) (run_record (pl_run st))"
    using dispatch_attempt_record [of ?report "x_env x" "pw_prepared ?k" "pl_run st"] 1 by (simp add: run_frame)
  then have "outcome_part c1 = outcome_part (run_record (pl_run st))" "cr_attempts c1 = cr_attempts (run_record (pl_run st))"
    by (simp_all add: c1_def run_frame)
  then have c: "outcome_part c = outcome_part (run_record (pl_run st))" "cr_attempts c = cr_attempts (run_record (pl_run st))"
    using judge_planned_frame [of x ?k r f1 c1] 3 by simp_all
  note spec = conclude_planned_spec [of x st d f2 "s1\<lparr>run_record := c\<rparr>", folded st1_def]
  show "outcome_part (run_record (pl_run st')) = outcome_part (run_record (pl_run st))"
    using spec(1) c by (simp add: st')
  show "\<exists>a. cr_attempts (run_record (pl_run st')) = cr_attempts (run_record (pl_run st)) @ [a]
      \<and> attempt_core a = (pl_attempt st, cl_retryable (planned_class (x_policy x) (pl_work st) (po_failure out)),
        pw_stage (pl_work st), pw_branch (pl_work st), cl_category (planned_class (x_policy x) (pl_work st) (po_failure out)))"
    using spec(2) c by (simp add: st' out)
  show "pl_work st' = pl_work st" "pl_attempt st' = pl_attempt st" using spec(3,4) by (simp_all add: st')
  show "admitted x (po_result out)" if "po_failure out = None"
    using that judge_planned_None [OF assms(2), of r f1 c1] 3 by (simp add: out)
qed

text \<open>
  What holds at the head of the plan's loop, after an attempt whose failure is \<open>f\<close>, and when the
  call returns.
\<close>

definition plan_head :: "'w run_context \<Rightarrow> 'w plan_state \<Rightarrow> bool" where
  "plan_head x st \<longleftrightarrow> (let as = cr_attempts (run_record (pl_run st)); k = pl_work st in
     pending (run_record (pl_run st)) \<and> numbered as \<and> list_all at_retryable as \<and> pl_attempt st = int (length as)
     \<and> pl_attempt st < max_attempts (x_policy x) \<and> work_ok x k \<and> follows_plan (x_policy x) as
     \<and> position (x_policy x) (map attempt_core as) (pw_stage k) (pw_branch k))"

definition plan_mid :: "'w run_context \<Rightarrow> go_error option \<Rightarrow> 'w plan_state \<Rightarrow> bool" where
  "plan_mid x f st \<longleftrightarrow> (let as = cr_attempts (run_record (pl_run st)); k = pl_work st; cl = planned_class (x_policy x) k f in
     pending (run_record (pl_run st)) \<and> numbered as \<and> list_all at_retryable (butlast as) \<and> as \<noteq> []
     \<and> pl_attempt st = int (length as) \<and> pl_attempt st \<le> max_attempts (x_policy x) \<and> work_ok x k
     \<and> follows_plan (x_policy x) as
     \<and> attempt_core (last as) = (pl_attempt st, cl_retryable cl, pw_stage k, pw_branch k, cl_category cl))"

definition plan_exit_ok :: "'w run_context \<Rightarrow> 'w plan_exit \<Rightarrow> bool" where
  "plan_exit_ok x ex \<longleftrightarrow> (case ex of (err, s, k) \<Rightarrow>
     budgeted (max_attempts (x_policy x)) (cr_attempts (run_record s)) \<and> follows_plan (x_policy x) (cr_attempts (run_record s))
     \<and> settled x err (run_record s)
     \<and> (cr_stop_reason (run_record s) = [] \<or> (cr_stop_reason (run_record s) = ''succeeded'' \<longleftrightarrow> err = None)))"

definition plan_step_ok :: "'w run_context \<Rightarrow> 'w plan_exit + 'w plan_state \<Rightarrow> bool" where
  "plan_step_ok x r \<longleftrightarrow> (case r of Inl ex \<Rightarrow> plan_exit_ok x ex | Inr st \<Rightarrow> plan_head x st)"

section \<open>The turns of a plan\<close>

text \<open>A state of the record from which the call may still return any error.\<close>

definition open_record :: "'w run_context \<Rightarrow> 'w run \<Rightarrow> bool" where
  "open_record x s \<longleftrightarrow> pending (run_record s) \<and> budgeted (max_attempts (x_policy x)) (cr_attempts (run_record s))
     \<and> follows_plan (x_policy x) (cr_attempts (run_record s))"

lemma open_record_cong:
  assumes "outcome_part (run_record s') = outcome_part (run_record s)"
    "map attempt_core (cr_attempts (run_record s')) = map attempt_core (cr_attempts (run_record s))"
  shows "open_record x s' = open_record x s"
  using pending_cong [OF assms(1)] core_cong(4) [OF assms(2)] assms(2) by (simp add: open_record_def follows_plan_def)

lemma plan_head_open: "plan_head x st \<Longrightarrow> open_record x (pl_run st)"
  by (auto simp: plan_head_def open_record_def budgeted_def list_all_iff Let_def dest: in_set_butlastD)

lemma plan_mid_open: "plan_mid x f st \<Longrightarrow> open_record x (pl_run st)"
  by (auto simp: plan_mid_def open_record_def budgeted_def Let_def)

lemma open_exit: "open_record x s \<Longrightarrow> err \<noteq> None \<Longrightarrow> plan_exit_ok x (err, s, k)"
  using pending_undelivered [of "run_record s"] by (auto simp: open_record_def plan_exit_ok_def settled_def)

lemma set_stop_reason_frame:
  "cr_attempts (set_stop_reason r c) = cr_attempts c" "cr_stop_reason (set_stop_reason r c) = r"
  "settled x err (set_stop_reason r c) = settled x err c" "delivered x (set_stop_reason r c) = delivered x c"
  by (simp_all add: set_stop_reason_def settled_def delivered_def undelivered_def)

lemma leave_ok:
  assumes "open_record x (pl_run st)" "err \<noteq> None" "reason \<noteq> ''succeeded''"
  shows "plan_step_ok x (leave reason err st)"
  using assms pending_undelivered [of "run_record (pl_run st)"]
  by (auto simp: leave_def plan_step_ok_def plan_exit_ok_def open_record_def settled_def run_frame set_stop_reason_def
      undelivered_def)

definition delivered_run :: "'w run_context \<Rightarrow> 'w run \<Rightarrow> bool" where
  "delivered_run x s \<longleftrightarrow> delivered x (run_record s) \<and> budgeted (max_attempts (x_policy x)) (cr_attempts (run_record s))
     \<and> follows_plan (x_policy x) (cr_attempts (run_record s)) \<and> cr_stop_reason (run_record s) = []"

lemma delivered_exit: "delivered_run x s \<Longrightarrow> plan_exit_ok x (None, s, k)"
  by (simp add: delivered_run_def plan_exit_ok_def settled_def)

lemma delivered_leave: "delivered_run x (pl_run st) \<Longrightarrow> plan_step_ok x (leave ''succeeded'' None st)"
  by (simp add: delivered_run_def leave_def plan_step_ok_def plan_exit_ok_def run_frame set_stop_reason_frame(1,2,4) settled_def)

lemma planned_success_ok:
  assumes "open_record x (pl_run st)" "admitted x r"
  shows "plan_step_ok x (planned_success x r st)"
proof -
  define s1 where "s1 = map_record (accept_result (work_target (pl_work st)) (pl_attempt st) r) (pl_run st)"
  have d1: "delivered_run x s1"
    using assms pending_undelivered [of "run_record (pl_run st)"]
    by (simp add: delivered_run_def s1_def run_frame accept_result_delivered open_record_def)
  have d2: "delivered_run x (snd (write_cache x h en s1))" for h en
  proof -
    note o = write_cache_frame(1) [of x h en s1]
    have "cr_stop_reason (run_record (snd (write_cache x h en s1))) = cr_stop_reason (run_record s1)"
      using o by (simp add: outcome_part_def)
    then show ?thesis using d1 by (simp add: delivered_run_def delivered_cong [OF o] write_cache_frame(2))
  qed
  have "plan_step_ok x (case write_cache x h en s1 of (True, s2) \<Rightarrow> leave ''succeeded'' None (st\<lparr>pl_run := s2\<rparr>)
      | (False, s2) \<Rightarrow> Inl (None, s2, Some (pl_work st)))" for h en
  proof -
    obtain b s2 where w: "write_cache x h en s1 = (b, s2)" by fastforce
    then have "delivered_run x s2" using d2 [of h en] by simp
    then show ?thesis
      using delivered_leave [of x "st\<lparr>pl_run := s2\<rparr>"] delivered_exit [of x s2 "Some (pl_work st)"]
      by (cases b) (simp_all add: w plan_step_ok_def)
  qed
  moreover have "plan_step_ok x (leave ''succeeded'' None (st\<lparr>pl_run := s1\<rparr>))"
    using delivered_leave [of x "st\<lparr>pl_run := s1\<rparr>"] d1 by simp
  ultimately show ?thesis by (simp add: planned_success_def Let_def s1_def [symmetric])
qed

text \<open>Going on: the record is as after the attempt, the work where the plan leads.\<close>

lemma plan_continue:
  assumes "plan_mid x f st" "pl_attempt st < max_attempts (x_policy x)"
    "cl_retryable (planned_class (x_policy x) (pl_work st) f)"
    "outcome_part (run_record s) = outcome_part (run_record (pl_run st))"
    "map attempt_core (cr_attempts (run_record s)) = map attempt_core (cr_attempts (run_record (pl_run st)))"
    "work_ok x k" "goes (x_policy x) (attempt_core (last (cr_attempts (run_record (pl_run st))))) (pw_stage k) (pw_branch k)"
  shows "plan_head x (st\<lparr>pl_run := s, pl_work := k\<rparr>)"
proof -
  let ?as = "cr_attempts (run_record (pl_run st))"
  have m: "?as \<noteq> []" "list_all at_retryable (butlast ?as)"
      "attempt_core (last ?as) = (pl_attempt st, cl_retryable (planned_class (x_policy x) (pl_work st) f), pw_stage (pl_work st),
        pw_branch (pl_work st), cl_category (planned_class (x_policy x) (pl_work st) f))"
    using assms(1) by (simp_all add: plan_mid_def Let_def)
  have "at_retryable (last ?as)" using m(3) assms(3) by (simp add: attempt_core_def)
  then have "list_all at_retryable ?as"
    using m(1,2) append_butlast_last_id [of ?as] list_all_append [of at_retryable "butlast ?as" "[last ?as]"] by simp
  moreover have "cr_attempts (run_record s) \<noteq> []" using m(1) core_cong(1) [OF assms(5)] by auto
  ultimately show ?thesis
    using assms m(1) core_cong [OF assms(5)] pending_cong [OF assms(4)]
    by (simp add: plan_head_def plan_mid_def Let_def follows_plan_def position_def last_map)
qed

lemma planned_class_category: "cl_category (planned_class p k f) = cl_category (classify f p)"
  by (simp add: planned_class_def Let_def)

lemma retry_transport_ok:
  assumes "plan_mid x f st" "transport_retry f (x_policy x)" "f \<noteq> None"
  shows "plan_step_ok x (retry_transport x (planned_class (x_policy x) (pl_work st) f) f st)"
proof -
  let ?e = "x_env x" and ?cl = "planned_class (x_policy x) (pl_work st) f"
  note open_st = plan_mid_open [OF assms(1)]
  obtain rnd w where 1: "env_random ?e (world (pl_run st)) = (rnd, w)" by fastforce
  define dl where "dl = delay (pl_attempt st) (cl_retry_after ?cl) (pol_backoff (x_policy x)) rnd"
  obtain refused s1 where 2: "wait_refused ?e dl ((pl_run st)\<lparr>world := w\<rparr>) = (refused, s1)" by fastforce
  have r1: "run_record s1 = run_record (pl_run st)"
    using wait_refused_record [of ?e dl "(pl_run st)\<lparr>world := w\<rparr>"] 2 by simp
  obtain err s2 where 3: "perform_wait ?e ?cl dl s1 = (err, s2)" by fastforce
  have r2: "outcome_part (run_record s2) = outcome_part (run_record (pl_run st))"
    "map attempt_core (cr_attempts (run_record s2)) = map attempt_core (cr_attempts (run_record (pl_run st)))"
    using perform_wait_frame [of ?e ?cl dl s1] 3 r1 by simp_all
  have "open_record x s1" using open_record_cong [of s1 "pl_run st" x] r1 open_st by simp
  then have late: "plan_step_ok x (leave ''deadline_exceeded'' (Some ErrDeadlineExceeded) (st\<lparr>pl_run := s1\<rparr>))"
    using leave_ok [of x "st\<lparr>pl_run := s1\<rparr>"] by simp
  have "open_record x s2" using open_record_cong [OF r2] open_st by simp
  then have failed: "plan_step_ok x (leave (stop_reason_for err) err (st\<lparr>pl_run := s2\<rparr>))" if "err \<noteq> None"
    using leave_ok [of x "st\<lparr>pl_run := s2\<rparr>" err "stop_reason_for err"] that by (simp add: stop_reason_for_succeeded)
  have "goes (x_policy x) (attempt_core (last (cr_attempts (run_record (pl_run st))))) (pw_stage (pl_work st)) (pw_branch (pl_work st))"
    and "work_ok x (pl_work st)"
    using assms by (simp_all add: plan_mid_def Let_def goes_def planned_class_category transport_retry_def semantic_parse_def)
  moreover have "cl_retryable ?cl" using assms(2) by (simp add: planned_class_def Let_def)
  ultimately have "plan_step_ok x (Inr (st\<lparr>pl_run := s2\<rparr>))" if "pl_attempt st < max_attempts (x_policy x)"
    using plan_continue [OF assms(1) that _ r2, of "pl_work st"] by (simp add: plan_step_ok_def)
  then show ?thesis
    using late failed leave_ok [OF open_st assms(3), of "''attempts_exhausted''"]
    by (simp add: retry_transport_def Let_def 1 dl_def [symmetric] 2 3)
qed

lemma planned_hit_ok:
  assumes "open_record x s" "same_call x base"
    "admit_planned_cached_result parse t cached base = None" "parse = env_url_parse (x_env x)"
  shows "plan_exit_ok x (None, map_record (set_stop_reason ''succeeded'' \<circ>
    (\<lambda>c. c\<lparr>cr_diagnostics := (cr_diagnostics c)\<lparr>dg_stage := stage, dg_branch := branch\<rparr>\<rparr>) \<circ> serve_cached b t cached) s, k)"
proof -
  have "admitted x (ca_provider_result cached)"
    using assms(2-4) by (simp add: admit_planned_cached_result_def admitted_def same_call_def split: option.splits)
  from serve_cached_frame(1) [OF this, of b t "run_record s"]
  have "delivered x ((serve_cached b t cached (run_record s))\<lparr>cr_diagnostics := d\<rparr>)" for d
    by (simp add: delivered_def)
  with assms(1) show ?thesis
    by (simp add: plan_exit_ok_def run_frame settled_def open_record_def set_stop_reason_frame(1,2,4) serve_cached_frame)
qed

lemma rerun_lookup_ok:
  assumes "open_record x s" "same_call x base"
  shows "case rerun_lookup x base n s of
      Inl (err, s') \<Rightarrow> plan_exit_ok x (err, s', k)
    | Inr s' \<Rightarrow> run_record s' = run_record s"
proof (cases "env_cache (x_env x)")
  case (Some cache)
  obtain found w where f: "cache_get cache (pw_generation_hash n) (x_cache_version x) (world s) = (found, w)" by fastforce
  have o: "open_record x (s\<lparr>world := w\<rparr>)" using assms(1) by (simp add: open_record_def)
  show ?thesis
    using planned_hit_ok [OF o assms(2)] open_exit [OF o]
    by (simp add: rerun_lookup_def Some f Let_def split: sum.split option.split)
qed (simp add: rerun_lookup_def)

lemma planned_lookup_ok:
  assumes "open_record x s" "same_call x base"
  shows "case planned_lookup x base n s of
      Inl (err, s') \<Rightarrow> plan_exit_ok x (err, s', k)
    | Inr s' \<Rightarrow> outcome_part (run_record s') = outcome_part (run_record s) \<and> cr_attempts (run_record s') = cr_attempts (run_record s)"
proof (cases "env_cache (x_env x)")
  case (Some cache)
  obtain found w where f: "cache_get cache (pw_generation_hash n) (x_cache_version x) (world s) = (found, w)" by fastforce
  have o: "open_record x (s\<lparr>world := w\<rparr>)" using assms(1) by (simp add: open_record_def)
  show ?thesis
    using planned_hit_ok [OF o assms(2)] open_exit [OF o]
    by (simp add: planned_lookup_def Some f Let_def run_frame split: sum.split option.split)
qed (simp add: planned_lookup_def)

lemma enter_branch_ok:
  assumes "open_record x s" "same_call x base"
  shows "case enter_branch x base n s of
      Inl (err, s') \<Rightarrow> plan_exit_ok x (err, s', k)
    | Inr (n', s') \<Rightarrow> outcome_part (run_record s') = outcome_part (run_record s)
        \<and> cr_attempts (run_record s') = cr_attempts (run_record s)
        \<and> pw_stage n' = pw_stage n \<and> pw_branch n' = pw_branch n \<and> work_ok x n' = work_ok x n"
proof -
  define n1 where "n1 = n\<lparr>pw_generation_target := work_target n\<rparr>"
  define s1 where "s1 = map_record (\<lambda>c. c\<lparr>cr_branch := pw_branch n1, cr_generation_target := pw_generation_target n1\<rparr>) s"
  define n2 where "n2 h = n1\<lparr>pw_generation_hash := h\<rparr>" for h
  define s2 where "s2 h = map_record (\<lambda>c. c\<lparr>cr_cache := (cr_cache c)\<lparr>cf_operation_hash := h, cf_rerun_hash := h\<rparr>\<rparr>) s1" for h
  have n: "pw_stage n1 = pw_stage n" "pw_branch n1 = pw_branch n" "work_ok x n1 = work_ok x n"
    "pw_stage (n2 h) = pw_stage n" "pw_branch (n2 h) = pw_branch n" "work_ok x (n2 h) = work_ok x n" for h
    by (simp_all add: n1_def n2_def work_ok_def)
  have s: "outcome_part (run_record s1) = outcome_part (run_record s)" "cr_attempts (run_record s1) = cr_attempts (run_record s)"
    "outcome_part (run_record (s2 h)) = outcome_part (run_record s)" "cr_attempts (run_record (s2 h)) = cr_attempts (run_record s)" for h
    by (simp_all add: s1_def s2_def run_frame) (simp_all add: outcome_part_def)
  have o1: "open_record x s1" and o2: "open_record x (s2 h)" for h
    using open_record_cong [of s1 s x] open_record_cong [of "s2 h" s x] s assms(1) by simp_all
  have look: "case rerun_lookup x base (n2 h) (s2 h) of Inl (err, s') \<Rightarrow> plan_exit_ok x (err, s', k)
      | Inr s' \<Rightarrow> run_record s' = run_record (s2 h)" for h
    by (rule rerun_lookup_ok [OF o2 assms(2)])
  have eq: "enter_branch x base n s = (if x_cache_mode x = ModeOff then Inr (n1, s1)
      else (case hash_operation x (pw_prepared n1) of
          Inl err \<Rightarrow> Inl (Some err, s1)
        | Inr h \<Rightarrow> (case (if x_cache_mode x = ModeCache then rerun_lookup x base (n2 h) (s2 h) else Inr (s2 h)) of
            Inl out \<Rightarrow> Inl out
          | Inr s3 \<Rightarrow> Inr (n2 h, if cf_status (cr_cache (run_record s3)) \<noteq> ''hit''
              then map_record (add_branch_cache ''rerun'' (pw_generation_target (n2 h))) s3 else s3))))"
    by (simp only: enter_branch_def Let_def n1_def s1_def n2_def s2_def)
  show ?thesis
  proof (cases "hash_operation x (pw_prepared n1)")
    case (Inl err)
    with n s open_exit [OF o1, of "Some err" k] show ?thesis by (simp add: eq)
  next
    case (Inr h)
    with n s look [of h] show ?thesis by (auto simp: eq run_frame split: sum.split)
  qed
qed

lemma advance_plan_ok:
  assumes "plan_mid x f st" "semantic_parse f (x_policy x)" "po_failure out = f" "same_call x base"
  shows "plan_step_ok x (advance_plan x base out st)"
proof -
  let ?k = "pl_work st" and ?s = "pl_run st"
  define entry where "entry = \<lparr>rh_stage = pw_stage ?k, rh_attempt = pl_attempt st, rh_output = po_previous out,
    rh_validation_error = bounded_error (po_failure out)\<rparr>"
  obtain next1 w where p: "prepare_next_planned_work x base ?k (pw_history ?k @ [entry]) (pl_attempt st) (world ?s) = (next1, w)"
    by fastforce
  define s1 where "s1 = ?s\<lparr>world := w\<rparr>"
  have f: "f \<noteq> None" using assms(2) by (simp add: semantic_parse_def)
  have o0: "open_record x ?s" by (rule plan_mid_open [OF assms(1)])
  then have o1: "open_record x s1" by (simp add: s1_def open_record_def)
  have quit: "plan_step_ok x (leave reason err (st\<lparr>pl_run := s1\<rparr>))" if "err \<noteq> None" "reason \<noteq> ''succeeded''" for reason err
    using leave_ok [of x "st\<lparr>pl_run := s1\<rparr>"] o1 that by simp
  have go: "plan_step_ok x (if pw_branch n = pw_branch ?k then Inr (st\<lparr>pl_run := s1, pl_work := n\<rparr>)
      else (case enter_branch x base n s1 of
          Inl (err, s2) \<Rightarrow> Inl (err, s2, Some ?k)
        | Inr (n', s2) \<Rightarrow> Inr (st\<lparr>pl_run := s1, pl_work := n', pl_run := s2\<rparr>)))"
    if n: "next1 = Inr (Some n)" and budget: "pl_attempt st < max_attempts (x_policy x)" for n
  proof -
    have "work_ok x ?k" using assms(1) by (simp add: plan_mid_def Let_def)
    note spec = prepare_next_spec [OF p [unfolded n] assms(4) this]
    have again: "cl_retryable (planned_class (x_policy x) ?k f)"
      using spec assms(2) by (auto simp: planned_class_def Let_def)
    have goes: "goes (x_policy x) (attempt_core (last (cr_attempts (run_record ?s)))) (pw_stage n) (pw_branch n)"
      using spec assms(1,2) by (auto simp: plan_mid_def Let_def goes_def planned_class_category semantic_parse_def)
    have "plan_head x (st\<lparr>pl_run := s2, pl_work := n'\<rparr>)"
      if "outcome_part (run_record s2) = outcome_part (run_record ?s)" "cr_attempts (run_record s2) = cr_attempts (run_record ?s)"
        "pw_stage n' = pw_stage n" "pw_branch n' = pw_branch n" "work_ok x n' = work_ok x n" for s2 n'
      using plan_continue [OF assms(1) budget again that(1), of n'] that goes spec by simp
    note head = this
    have r1: "run_record s1 = run_record ?s" by (simp add: s1_def)
    have swap: "plan_head x (st\<lparr>pl_work := n', pl_run := s2\<rparr>) = plan_head x (st\<lparr>pl_run := s2, pl_work := n'\<rparr>)" for s2 n'
      by (simp add: plan_head_def)
    from head [of s1 n] head enter_branch_ok [OF o1 assms(4), where n = n and k = "Some ?k"] show ?thesis
      by (auto simp: plan_step_ok_def r1 swap split: sum.splits)
  qed
  have eq: "advance_plan x base out st =
      (if pl_attempt st \<ge> max_attempts (x_policy x) then leave ''attempts_exhausted'' (po_failure out) st
       else (case next1 of
           Inl err \<Rightarrow> leave ''configuration_error'' (Some err) (st\<lparr>pl_run := s1\<rparr>)
         | Inr None \<Rightarrow> leave ''recovery_exhausted'' (po_failure out) (st\<lparr>pl_run := s1\<rparr>)
         | Inr (Some n) \<Rightarrow> (if pw_branch n = pw_branch ?k then Inr (st\<lparr>pl_run := s1, pl_work := n\<rparr>)
             else (case enter_branch x base n s1 of
                 Inl (err, s2) \<Rightarrow> Inl (err, s2, Some ?k)
               | Inr (n', s2) \<Rightarrow> Inr (st\<lparr>pl_run := s1, pl_work := n', pl_run := s2\<rparr>)))))"
    by (simp only: advance_plan_def Let_def entry_def [symmetric] p prod.case s1_def [symmetric])
  show ?thesis
    using leave_ok [OF o0 f, of "''attempts_exhausted''"] quit f go assms(3)
    by (cases next1) (auto simp: eq split: option.split)
qed

lemma after_attempt_ok:
  assumes "plan_mid x (po_failure out) st" "same_call x base" "po_failure out = None \<Longrightarrow> admitted x (po_result out)"
  shows "plan_step_ok x (after_attempt x base out st)"
proof (cases "po_failure out = None")
  case True
  with planned_success_ok [OF plan_mid_open [OF assms(1)] assms(3)] show ?thesis
    by (simp add: after_attempt_def Let_def)
next
  case False
  obtain late s1 where 1: "check_context (x_env x) (pl_run st) = (late, s1)" by fastforce
  have r: "run_record s1 = run_record (pl_run st)" using check_context_record [of "x_env x" "pl_run st"] 1 by simp
  define st1 where "st1 = st\<lparr>pl_run := s1\<rparr>"
  have mid: "plan_mid x (po_failure out) st1" using assms(1) by (simp add: plan_mid_def st1_def r)
  have w: "pl_work st = pl_work st1" by (simp add: st1_def)
  note open1 = plan_mid_open [OF mid]
  show ?thesis
    using leave_ok [OF open1, of late "stop_reason_for late"]
      leave_ok [OF open1 False, of "stop_reason_for (po_failure out)"] False
      advance_plan_ok [OF mid _ refl assms(2)] retry_transport_ok [OF mid _ False]
    by (auto simp: after_attempt_def Let_def 1 st1_def [symmetric] w stop_reason_for_succeeded)
qed

lemma leave_stops [simp]: "leave reason err st \<noteq> Inr st'"
  by (simp add: leave_def)

lemma planned_success_stops [simp]: "planned_success x r st \<noteq> Inr st'"
  by (simp add: planned_success_def Let_def split: prod.split bool.split)

lemma retry_transport_attempt: "retry_transport x cl f st = Inr st' \<Longrightarrow> pl_attempt st' = pl_attempt st"
  by (auto simp: retry_transport_def Let_def split: prod.splits if_splits)

lemma advance_plan_attempt: "advance_plan x base out st = Inr st' \<Longrightarrow> pl_attempt st' = pl_attempt st"
  by (auto simp: advance_plan_def Let_def split: prod.splits if_splits sum.splits option.splits)

lemma after_attempt_attempt: "after_attempt x base out st = Inr st' \<Longrightarrow> pl_attempt st' = pl_attempt st"
  by (auto simp: after_attempt_def Let_def dest!: retry_transport_attempt advance_plan_attempt
      split: prod.splits if_splits)

lemma plan_turn_attempt:
  assumes "plan_head x st" "plan_turn x base st = Inr st'"
  shows "pl_attempt st' = pl_attempt st + 1"
proof -
  obtain out st2 where 1: "after_attempt x base out st2 = Inr st'"
    and 2: "\<exists>s. plan_attempt x (st\<lparr>pl_run := s, pl_attempt := pl_attempt st + 1\<rparr>) = (out, st2)"
    using assms(2) by (auto simp: plan_turn_def Let_def split: prod.splits if_splits)
  have "work_ok x (pl_work st)" using assms(1) by (simp add: plan_head_def Let_def)
  with 2 have "pl_attempt st2 = pl_attempt st + 1" by (auto dest!: plan_attempt_spec(4))
  with after_attempt_attempt [OF 1] show ?thesis by simp
qed

lemma plan_turn_ok:
  assumes "plan_head x st" "same_call x base"
  shows "plan_step_ok x (plan_turn x base st)"
proof -
  let ?p = "x_policy x"
  define s0 where "s0 = emit_work x (pl_work st) ''run.progress'' (pl_attempt st) False (pl_run st)"
  obtain late s1 where 1: "check_context (x_env x) s0 = (late, s1)" by fastforce
  have "run_record s1 = run_record s0" using check_context_record [of "x_env x" s0] 1 by simp
  then have r1: "run_record s1 = run_record (pl_run st)" by (simp add: s0_def run_frame)
  define st1 where "st1 = st\<lparr>pl_run := s1\<rparr>"
  have h: "plan_head x st1" using assms(1) by (simp add: plan_head_def st1_def r1)
  obtain out st2 where 2: "plan_attempt x (st1\<lparr>pl_attempt := pl_attempt st1 + 1\<rparr>) = (out, st2)" by fastforce
  have wk: "work_ok x (pl_work (st1\<lparr>pl_attempt := pl_attempt st1 + 1\<rparr>))" using h by (simp add: plan_head_def Let_def)
  note spec = plan_attempt_spec [OF 2 wk]
  let ?as = "cr_attempts (run_record (pl_run st1))"
  obtain a where a: "cr_attempts (run_record (pl_run st2)) = ?as @ [a]"
    "attempt_core a = (pl_attempt st1 + 1, cl_retryable (planned_class ?p (pl_work st1) (po_failure out)),
      pw_stage (pl_work st1), pw_branch (pl_work st1), cl_category (planned_class ?p (pl_work st1) (po_failure out)))"
    using spec(2) by auto
  have "follows_plan ?p (?as @ [a])"
    using h a(2) by (simp add: plan_head_def Let_def follows_plan_def plan_path_snoc)
  moreover have "numbered (?as @ [a])"
    using h a(2) numbered_snoc [of ?as a] by (simp add: plan_head_def Let_def attempt_core_def)
  ultimately have mid: "plan_mid x (po_failure out) st2"
    using h a spec(1,3,4) pending_cong [OF spec(1)] wk by (simp add: plan_mid_def plan_head_def Let_def)
  have "plan_step_ok x (after_attempt x base out st2)" by (rule after_attempt_ok [OF mid assms(2) spec(5)])
  moreover have "pl_attempt st1 < max_attempts ?p" using h by (simp add: plan_head_def Let_def)
  ultimately show ?thesis
    using leave_ok [OF plan_head_open [OF h], of late "stop_reason_for late"]
    by (simp add: plan_turn_def Let_def s0_def [symmetric] 1 st1_def [symmetric] 2 stop_reason_for_succeeded)
qed

lemma plan_loop_ok:
  assumes "plan_head x st" "same_call x base"
  shows "\<exists>ex. plan_loop x base st = Some ex \<and> plan_exit_ok x ex"
  using assms(1)
proof (induction "nat (max_attempts (x_policy x) - pl_attempt st)" arbitrary: st rule: less_induct)
  case less
  show ?case
  proof (cases "plan_turn x base st")
    case (Inl ex)
    with plan_turn_ok [OF less.prems assms(2)] show ?thesis
      by (subst plan_loop.simps) (simp add: plan_step_ok_def)
  next
    case (Inr st')
    have h: "plan_head x st'" using plan_turn_ok [OF less.prems assms(2)] Inr by (simp add: plan_step_ok_def)
    have "pl_attempt st < max_attempts (x_policy x)" using less.prems by (simp add: plan_head_def Let_def)
    then have "nat (max_attempts (x_policy x) - pl_attempt st') < nat (max_attempts (x_policy x) - pl_attempt st)"
      using plan_turn_attempt [OF less.prems Inr] by simp
    from less.hyps [OF this h] Inr show ?thesis by (subst plan_loop.simps) simp
  qed
qed

section \<open>The run of a plan\<close>

lemma fresh_open: "fresh s \<Longrightarrow> 1 \<le> max_attempts (x_policy x) \<Longrightarrow> open_record x s"
  by (simp add: fresh_def open_record_def budgeted_def numbered_def follows_plan_def)

lemma open_generation_ok:
  assumes "fresh s" "1 \<le> max_attempts (x_policy x)" "same_call x base"
  shows "case open_generation x base n s of
      Inl (err, s', n') \<Rightarrow> plan_exit_ok x (err, s', Some n')
    | Inr (n', s') \<Rightarrow> fresh s' \<and> pw_stage n' = pw_stage n \<and> pw_branch n' = pw_branch n \<and> work_ok x n' = work_ok x n"
proof -
  define n1 where "n1 = n\<lparr>pw_generation_target := work_target n\<rparr>"
  define s1 where "s1 = map_record (\<lambda>c. c\<lparr>cr_generation_target := pw_generation_target n1\<rparr>) s"
  define n2 where "n2 h = n1\<lparr>pw_generation_hash := h\<rparr>" for h
  define s3 where "s3 h = emit_work x (n2 h) ''run.started'' 0 False
    (map_record (\<lambda>c. c\<lparr>cr_cache := (cr_cache c)\<lparr>cf_operation_hash := h, cf_original_hash := h\<rparr>\<rparr>) s1)" for h
  have n: "pw_stage n1 = pw_stage n" "pw_branch n1 = pw_branch n" "work_ok x n1 = work_ok x n"
    "pw_stage (n2 h) = pw_stage n" "pw_branch (n2 h) = pw_branch n" "work_ok x (n2 h) = work_ok x n" for h
    by (simp_all add: n1_def n2_def work_ok_def)
  have f1: "fresh s1" using assms(1) by (simp add: fresh_def s1_def run_frame pending_def) (simp add: outcome_part_def)
  then have f: "fresh (emit_work x n1 ''run.started'' 0 False s1)" "fresh (s3 h)"
      "fresh (map_record (add_branch_cache b t) (map_record (set_cache_status st) (s3 h)))" for h b t st
    by (simp_all add: fresh_def s3_def run_frame pending_def)
  have miss: "fresh (map_record (add_branch_cache b t) s')"
    if "outcome_part (run_record s') = outcome_part (run_record (s3 h))" "cr_attempts (run_record s') = cr_attempts (run_record (s3 h))"
    for s' h b t
    using f(2) [of h] that by (simp add: fresh_def pending_def run_frame)
  have look: "case planned_lookup x base (n2 h) (s3 h) of Inl (err, s') \<Rightarrow> plan_exit_ok x (err, s', Some (n2 h))
      | Inr s' \<Rightarrow> outcome_part (run_record s') = outcome_part (run_record (s3 h))
          \<and> cr_attempts (run_record s') = cr_attempts (run_record (s3 h))" for h
    by (rule planned_lookup_ok [OF fresh_open [OF f(2) assms(2)] assms(3)])
  have eq: "open_generation x base n s = (if x_cache_mode x = ModeOff then Inr (n1, emit_work x n1 ''run.started'' 0 False s1)
      else (case hash_operation x (pw_prepared n1) of
          Inl err \<Rightarrow> Inl (Some err, s1, n1)
        | Inr h \<Rightarrow> (case (if x_cache_mode x = ModeCache then planned_lookup x base (n2 h) (s3 h)
              else Inr (map_record (set_cache_status ''refresh'') (s3 h))) of
            Inl (err, s4) \<Rightarrow> Inl (err, s4, n2 h)
          | Inr s4 \<Rightarrow> Inr (n2 h, map_record (add_branch_cache ''original'' (pw_generation_target (n2 h))) s4))))"
    by (simp only: open_generation_def Let_def n1_def s1_def n2_def s3_def)
  show ?thesis
  proof (cases "hash_operation x (pw_prepared n1)")
    case (Inl err)
    with n f open_exit [OF fresh_open [OF f1 assms(2)], of "Some err"] show ?thesis by (simp add: eq)
  next
    case (Inr h)
    with n f miss [of _ h] look [of h] show ?thesis by (auto simp: eq split: sum.split sum.splits)
  qed
qed

lemma plan_body_ok:
  assumes "fresh s" "1 \<le> max_attempts (x_policy x)" "same_call x base"
  shows "\<exists>ex. plan_body x base s = Some ex \<and> plan_exit_ok x ex"
proof -
  obtain prep w where 1: "prepare_planned_generation (x_env x) (x_connection x) (x_credential x) base ''original''
      stageOriginalGenerate None (world s) = (prep, w)" by fastforce
  have f1: "fresh (s\<lparr>world := w\<rparr>)" using assms(1) by (simp add: fresh_def)
  show ?thesis
  proof (cases prep)
    case (Inl err)
    with open_exit [OF fresh_open [OF f1 assms(2)], of "Some err" None] 1 show ?thesis by (simp add: plan_body_def)
  next
    case (Inr n)
    with 1 have "prepare_planned_work (x_env x) (x_connection x) (x_credential x) base ''original'' stageOriginalGenerate
        None None (world s) = (Inr n, w)" by (simp add: prepare_planned_generation_def)
    note spec = prepare_planned_work_spec [OF this assms(3)]
    note gen = open_generation_ok [OF f1 assms(2,3), of n]
    show ?thesis
    proof (cases "open_generation x base n (s\<lparr>world := w\<rparr>)")
      case (Inl out)
      with gen Inr 1 show ?thesis by (auto simp: plan_body_def split: prod.splits)
    next
      case (Inr r)
      obtain k s1 where r: "r = (k, s1)" by fastforce
      define st where "st = \<lparr>pl_run = s1, pl_work = k, pl_accumulator = new_provider_accumulator,
        pl_attempt = 0, pl_last_stage = [], pl_last_attempt = 0\<rparr>"
      have k: "fresh s1" "pw_stage k = stageOriginalGenerate" "pw_branch k = ''original''" "work_ok x k"
        using gen spec by (simp_all add: Inr r)
      then have "plan_head x st"
        using assms(2) by (simp add: plan_head_def st_def fresh_def numbered_def follows_plan_def position_def)
      then have loop: "\<exists>ex. plan_loop x base st = Some ex \<and> plan_exit_ok x ex" by (rule plan_loop_ok [OF _ assms(3)])
      have "plan_exit_ok x (Some err, map_record (set_stop_reason ''configuration_error'') s1, Some k)" for err
        using leave_ok [of x st "Some err" "''configuration_error''"] fresh_open [OF k(1) assms(2)]
        by (simp add: leave_def plan_step_ok_def st_def)
      with loop show ?thesis
        using 1 \<open>prep = Inr n\<close> Inr r by (auto simp: plan_body_def st_def [symmetric] split: option.split)
    qed
  qed
qed

end
