(* ===== verification/Cachekey_Properties.thy ===== *)
theory Cachekey_Properties
  imports Cachekey
begin

text \<open>
  What \<open>internal/cachekey\<close> guarantees: the check of a value ends and accepts every decoded JSON
  value, and the canonical text identifies an operation up to the order of the entries of its
  objects.
\<close>

section \<open>Decoded values are accepted\<close>

text \<open>A value whose slices and maps lie below the address \<open>k\<close>, and a heap in which they always do.\<close>

fun below :: "nat \<Rightarrow> go_value \<Rightarrow> bool" where
  "below k (VSlice t (Some a)) \<longleftrightarrow> a < k"
| "below k (VMap t string_keys (Some a)) \<longleftrightarrow> string_keys \<and> a < k"
| "below k VNil \<longleftrightarrow> True"
| "below k (VBool b) \<longleftrightarrow> True"
| "below k (VString s) \<longleftrightarrow> True"
| "below k v \<longleftrightarrow> False"

definition cell_below :: "nat \<Rightarrow> go_cell \<Rightarrow> bool" where
  "cell_below k c = (case c of CellValue v \<Rightarrow> below k v | CellElems vs \<Rightarrow> list_all (below k) vs
     | CellEntries es \<Rightarrow> list_all (\<lambda>x. below k (snd x)) es)"

definition layered :: "go_heap \<Rightarrow> bool" where
  "layered h \<longleftrightarrow> (\<forall>a < length h. cell_below a (h ! a))"

lemma below_mono: "below k v \<Longrightarrow> k \<le> m \<Longrightarrow> below m v"
  by (cases "(k, v)" rule: below.cases) auto

lemma layered_snoc: "layered h \<Longrightarrow> cell_below (length h) c \<Longrightarrow> layered (h @ [c])"
  by (auto simp: layered_def nth_append less_Suc_eq)

lemma store_layered:
  "layered h \<Longrightarrow> layered (snd (store_json j h)) \<and> below (length (snd (store_json j h))) (fst (store_json j h))
     \<and> length h \<le> length (snd (store_json j h))"
  "layered h \<Longrightarrow> layered (snd (store_list js h)) \<and> list_all (below (length (snd (store_list js h)))) (fst (store_list js h))
     \<and> length h \<le> length (snd (store_list js h))"
  "layered h \<Longrightarrow> layered (snd (store_entries kvs h))
     \<and> list_all (\<lambda>x. below (length (snd (store_entries kvs h))) (snd x)) (fst (store_entries kvs h))
     \<and> length h \<le> length (snd (store_entries kvs h))"
proof (induction j h and js h and kvs h rule: store_json_store_list_store_entries.induct)
  case (5 xs h)
  then show ?case
    by (auto simp: case_prod_beta intro!: layered_snoc simp: cell_below_def)
next
  case (6 kvs h)
  then show ?case
    by (auto simp: case_prod_beta intro!: layered_snoc simp: cell_below_def)
next
  case (8 x xs h)
  obtain v h1 where 1: "store_json x h = (v, h1)" by fastforce
  show ?case using 8 by (auto simp: 1 case_prod_beta intro: below_mono)
next
  case (10 k x xs h)
  obtain v h1 where 1: "store_json x h = (v, h1)" by fastforce
  show ?case using 10 by (auto simp: 1 case_prod_beta intro: below_mono)
qed simp_all

lemma path_lists [simp]:
  "list_all (\<lambda>x. below k (snd x)) (elem_paths p vs) = list_all (below k) vs"
  "list_all (\<lambda>x. below k (snd x)) (entry_paths p es) = list_all (\<lambda>x. below k (snd x)) es"
proof -
  have "map snd (elem_paths p vs) = vs"
    by (rule nth_equalityI) (simp_all add: elem_paths_def nth_enumerate_eq)
  then show "list_all (\<lambda>x. below k (snd x)) (elem_paths p vs) = list_all (below k) vs"
    by (metis (no_types, lifting) list.pred_map list_all_cong comp_apply)
  show "list_all (\<lambda>x. below k (snd x)) (entry_paths p es) = list_all (\<lambda>x. below k (snd x)) es"
    by (simp add: entry_paths_def list.pred_map comp_def case_prod_beta)
qed

lemma layered_children:
  assumes "layered h" "a < length h"
  shows "list_all (below a) (slice_elems h a)" "list_all (\<lambda>x. below a (snd x)) (map_entries h a)"
  using assms by (auto simp: layered_def cell_below_def slice_elems_def map_entries_def split: go_cell.splits)

lemma validate_layered:
  "layered h \<Longrightarrow> below k v \<Longrightarrow> k \<le> length h \<Longrightarrow> k < n \<Longrightarrow> \<forall>(t, a) \<in> set seen. k \<le> a
    \<Longrightarrow> validate_reflect n h v path seen = Some None"
  "layered h \<Longrightarrow> list_all (\<lambda>x. below k (snd x)) pvs \<Longrightarrow> k \<le> length h \<Longrightarrow> k < n \<Longrightarrow> \<forall>(t, a) \<in> set seen. k \<le> a
    \<Longrightarrow> validate_each n h pvs seen = Some None"
proof (induction n h v path seen and n h pvs seen arbitrary: k and k rule: validate_reflect_validate_each.induct)
  case (2 n h v path seen)
  note prems = 2(6-)
  have low: "k \<le> b" if "(t, b) \<in> set seen" for t b
    using bspec [OF prems(5) that] by simp
  have fresh: "(t, a) \<notin> set seen" if "a < k" for t a
    using low [of t a] that by linarith
  have kids: "\<forall>(t', b) \<in> set ((t, a) # seen). a \<le> b" if "a < k" for t a
    using that by (auto dest!: low)
  show ?case
  proof (cases v)
    case (VSlice t p)
    then obtain a where a: "p = Some a" "a < k" using prems(2) by (cases p) auto
    have "validate_each n h (elem_paths path (slice_elems h a)) ((t, a) # seen) = Some None"
      using 2(2) [of t p a a] VSlice a fresh [OF a(2)] kids [OF a(2)] layered_children [OF prems(1), of a] prems
      by simp
    with VSlice a fresh [OF a(2)] show ?thesis by simp
  next
    case (VMap t b p)
    then obtain a where a: "p = Some a" "a < k" "b" using prems(2) by (cases p) auto
    have "validate_each n h (entry_paths path (map_entries h a)) ((t, a) # seen) = Some None"
      using 2(4) [of t b p a a] VMap a fresh [OF a(2)] kids [OF a(2)] layered_children [OF prems(1), of a] prems
      by simp
    with VMap a fresh [OF a(2)] show ?thesis by simp
  qed (use prems(2) in simp_all)
qed (auto simp: list_all_iff)

lemma validate_json_safe_None: "validate_json_safe v path = None"
proof -
  have "layered []" by (simp add: layered_def)
  note s = store_layered(1) [OF this, of v]
  obtain v0 h where h: "store_json v [] = (v0, h)" by fastforce
  with s have "validate_reflect (length h + 1) h v0 path [] = Some None"
    by (intro validate_layered(1) [of h "length h"]) auto
  with h show ?thesis by (simp add: validate_json_safe_def)
qed

text \<open>On decoded values, normalisation refuses only the identity and the headers.\<close>

lemma normalize_operation_eq:
  "normalize_operation upper op =
     (let n = trimmed_operation upper op in
      if trim_space (schema_version op) \<noteq> OperationSchemaVersion then Inl (UnsupportedSchemaVersion (schema_version op))
      else if operation_incomplete n then Inl OperationIncomplete
      else (case find forbidden_semantic_header (map fst (headers_of n)) of
          Some header \<Rightarrow> Inl (CredentialHeader header)
        | None \<Rightarrow> Inr n))"
  by (simp add: normalize_operation_def Let_def validate_json_safe_None split: option.split)

lemma stable_json_eq:
  "numbers_ok v \<Longrightarrow> json_depth v \<le> max_nesting \<Longrightarrow> stable_json v = Inr (write_canonical (decode_encoded v))"
  by (simp add: stable_json_def validate_json_safe_None)

section \<open>The check ends\<close>

lemmas validate_step = validate_reflect.simps(2)

declare validate_step [simp del]

lemma fuel_Suc:
  "validate_reflect n h v path seen = Some r \<Longrightarrow> validate_reflect (Suc n) h v path seen = Some r"
  "validate_each n h pvs seen = Some r \<Longrightarrow> validate_each (Suc n) h pvs seen = Some r"
proof (induction n h v path seen and n h pvs seen arbitrary: r and r rule: validate_reflect_validate_each.induct)
  case (2 n h v path seen)
  then show ?case
    unfolding validate_step [of n h v path seen] validate_step [of "Suc n" h v path seen]
    by (auto split: go_value.splits option.splits if_splits)
next
  case (4 n h path v rest seen)
  then show ?case by (auto split: option.splits)
qed simp_all

lemma fuel_mono:
  assumes "validate_reflect n h v path seen = Some r" "n \<le> m"
  shows "validate_reflect m h v path seen = Some r"
  using assms(2,1) by (induction rule: dec_induct) (auto intro: fuel_Suc)

lemma each_fuel_mono:
  assumes "validate_each n h pvs seen = Some r" "n \<le> m"
  shows "validate_each m h pvs seen = Some r"
  using assms(2,1) by (induction rule: dec_induct) (auto intro: fuel_Suc)

lemma each_returns:
  assumes "\<And>path v. (path, v) \<in> set pvs \<Longrightarrow> \<exists>n r. validate_reflect n h v path seen = Some r"
  shows "\<exists>n r. validate_each n h pvs seen = Some r"
  using assms
proof (induction pvs)
  case (Cons pv pvs)
  obtain path v where pv: "pv = (path, v)" by fastforce
  obtain n r where r: "validate_reflect n h v path seen = Some r" using Cons.prems [of path v] pv by auto
  obtain m q where q: "validate_each m h pvs seen = Some q" using Cons by auto
  have "validate_reflect (max n m) h v path seen = Some r" "validate_each (max n m) h pvs seen = Some q"
    using fuel_mono [OF r, of "max n m"] each_fuel_mono [OF q, of "max n m"] by simp_all
  then have "\<exists>q'. validate_each (max n m) h (pv # pvs) seen = Some q'" by (cases r) (simp_all add: pv)
  then show ?case by blast
qed auto

text \<open>Values without pointers, and the slices and maps that occur in one.\<close>

fun no_pointer :: "go_value \<Rightarrow> bool" where
  "no_pointer (VPointer p) \<longleftrightarrow> p = None"
| "no_pointer (VArray vs) \<longleftrightarrow> list_all no_pointer vs"
| "no_pointer (VStruct fs) \<longleftrightarrow> list_all (\<lambda>(f, v). no_pointer v) fs"
| "no_pointer v \<longleftrightarrow> True"

fun value_visits :: "go_value \<Rightarrow> visit set" where
  "value_visits (VSlice t (Some a)) = {(t, a)}"
| "value_visits (VMap t b (Some a)) = {(t, a)}"
| "value_visits (VArray vs) = (\<Union>v \<in> set vs. value_visits v)"
| "value_visits (VStruct fs) = (\<Union>(f, v) \<in> set fs. value_visits v)"
| "value_visits v = {}"

definition cell_values :: "go_cell \<Rightarrow> go_value list" where
  "cell_values c = (case c of CellValue v \<Rightarrow> [v] | CellElems vs \<Rightarrow> vs | CellEntries es \<Rightarrow> map snd es)"

definition heap_values :: "go_heap \<Rightarrow> go_value list" where
  "heap_values h = concat (map cell_values h)"

lemma finite_value_visits: "finite (value_visits v)"
  by (induction v rule: value_visits.induct) auto

lemma slice_elems_values: "set (slice_elems h a) \<subseteq> set (heap_values h)"
proof (cases "a < length h")
  case True
  then have "set (cell_values (h ! a)) \<subseteq> set (heap_values h)" by (force simp: heap_values_def)
  with True show ?thesis by (cases "h ! a") (simp_all add: slice_elems_def cell_values_def)
qed (simp add: slice_elems_def)

lemma map_entries_values: "snd ` set (map_entries h a) \<subseteq> set (heap_values h)"
proof (cases "a < length h")
  case True
  then have "set (cell_values (h ! a)) \<subseteq> set (heap_values h)" by (force simp: heap_values_def)
  with True show ?thesis by (cases "h ! a") (simp_all add: map_entries_def cell_values_def)
qed (simp add: map_entries_def)

lemma snd_paths:
  "(q, v) \<in> set (elem_paths p vs) \<Longrightarrow> v \<in> set vs" "(q, v) \<in> set (entry_paths p es) \<Longrightarrow> v \<in> snd ` set es"
  "(q, v) \<in> set (field_paths p fs) \<Longrightarrow> v \<in> snd ` set fs"
  by (auto simp: elem_paths_def entry_paths_def field_paths_def in_set_enumerate_eq image_iff) force+

text \<open>
  Each slice or map entered is a new one among the finitely many there are; within a value
  without them the recursion is structural.
\<close>

lemma validate_returns:
  assumes "finite K" "\<And>u. u \<in> set (heap_values h) \<Longrightarrow> no_pointer u \<and> value_visits u \<subseteq> K"
  shows "no_pointer v \<Longrightarrow> value_visits v \<subseteq> K \<Longrightarrow> \<exists>n r. validate_reflect n h v path seen = Some r"
proof (induction "card (K - set seen)" arbitrary: seen v path rule: less_induct)
  case less
  have enter: "\<exists>n r. validate_each n h pvs (key # seen) = Some r"
    if "key \<in> K" "key \<notin> set seen" "\<And>q u. (q, u) \<in> set pvs \<Longrightarrow> u \<in> set (heap_values h)" for pvs key
  proof (rule each_returns)
    fix q u assume "(q, u) \<in> set pvs"
    then have "u \<in> set (heap_values h)" by (rule that(3))
    moreover have "card (K - set (key # seen)) < card (K - set seen)"
      using that(1,2) assms(1) by (intro psubset_card_mono) auto
    ultimately show "\<exists>n r. validate_reflect n h u q (key # seen) = Some r"
      using less.hyps [of "key # seen" u q] assms(2) [of u] by blast
  qed
  have step: "\<exists>n r. validate_reflect n h v path seen = Some r"
    if "\<exists>n r. validate_reflect (Suc n) h v path seen = Some r" for v path using that by blast
  from less.prems show ?case
  proof (induction v arbitrary: path)
    case (VSlice t p)
    show ?case
    proof (cases p)
      case (Some a)
      have "\<exists>n r. validate_each n h (elem_paths path (slice_elems h a)) ((t, a) # seen) = Some r" if "(t, a) \<notin> set seen"
        using VSlice.prems(2) Some that slice_elems_values [of h a] by (intro enter) (auto dest!: snd_paths(1))
      then show ?thesis by (intro step) (auto simp: validate_step Some)
    qed (auto intro!: step simp: validate_step)
  next
    case (VMap t b p)
    show ?case
    proof (cases p)
      case (Some a)
      have "\<exists>n r. validate_each n h (entry_paths path (map_entries h a)) ((t, a) # seen) = Some r" if "(t, a) \<notin> set seen"
        using VMap.prems(2) Some that map_entries_values [of h a] by (intro enter) (auto dest!: snd_paths(2))
      then show ?thesis by (intro step) (auto simp: validate_step Some)
    qed (auto intro!: step simp: validate_step)
  next
    case (VArray vs)
    have "\<exists>n r. validate_each n h (elem_paths path vs) seen = Some r"
    proof (rule each_returns)
      fix q u assume "(q, u) \<in> set (elem_paths path vs)"
      then have "u \<in> set vs" by (rule snd_paths(1))
      with VArray.prems have "no_pointer u" "value_visits u \<subseteq> K" by (auto simp: list_all_iff)
      with VArray.IH \<open>u \<in> set vs\<close> show "\<exists>n r. validate_reflect n h u q seen = Some r" by blast
    qed
    then show ?case by (intro step) (simp add: validate_step)
  next
    case (VStruct fs)
    have "\<exists>n r. validate_each n h (field_paths path fs) seen = Some r"
    proof (rule each_returns)
      fix q u assume "(q, u) \<in> set (field_paths path fs)"
      then obtain f where f: "(f, u) \<in> set fs" using snd_paths(3) by fastforce
      with VStruct.prems have "no_pointer u" "value_visits u \<subseteq> K" by (auto simp: list_all_iff)
      with VStruct.IH [OF f, of u] show "\<exists>n r. validate_reflect n h u q seen = Some r" by simp
    qed
    then show ?case by (intro step) (simp add: validate_step)
  qed (auto intro!: step simp: validate_step)
qed

text \<open>
  C21. The check of a value that holds no pointers ends, whatever cycles its slices and maps form:
  with enough fuel \<open>validateReflect\<close> returns.
\<close>

theorem validate_terminates:
  assumes "list_all no_pointer (heap_values h)" and "no_pointer v"
  shows "\<exists>n r. validate_reflect n h v path seen = Some r"
proof -
  let ?K = "(\<Union>u \<in> set (heap_values h). value_visits u) \<union> value_visits v"
  have "finite ?K" by (simp add: finite_value_visits)
  from validate_returns [OF this, of h v path seen] assms show ?thesis by (auto simp: list_all_iff)
qed

text \<open>A slice whose only element is the slice itself.\<close>

definition self_slice :: go_heap where
  "self_slice = [CellElems [VSlice slice_type (Some 0)]]"

theorem validate_terminates_witness:
  "(\<exists>n r. validate_reflect n self_slice (VSlice slice_type (Some 0)) ''$'' [] = Some r)
   \<and> validate_reflect 2 self_slice (VSlice slice_type (Some 0)) ''$'' [] = Some (Some (ValueCycle ''$[0]''))"
proof
  show "\<exists>n r. validate_reflect n self_slice (VSlice slice_type (Some 0)) ''$'' [] = Some r"
    by (rule validate_terminates) (simp_all add: self_slice_def heap_values_def cell_values_def)
  show "validate_reflect 2 self_slice (VSlice slice_type (Some 0)) ''$'' [] = Some (Some (ValueCycle ''$[0]''))"
    by code_simp
qed

text \<open>
  C22. Pointers are followed without being remembered: on a pointer to itself \<open>validateReflect\<close> never
  returns, whatever the fuel, where a slice or a map that holds itself is refused as a cycle.
\<close>

theorem pointer_cycle_never_returns:
  "validate_reflect n [CellValue (VPointer (Some 0))] (VPointer (Some 0)) path seen = None"
  by (induction n) (simp_all add: validate_step pointee_def)

end
