(* ===== verification/Runtime_Claims.thy ===== *)
theory Runtime_Claims
  imports Runtime_Properties Cachekey_Properties
begin

text \<open>
  The guarantees of \<open>Execute\<close>, for every provider, cache, clock and policy: it returns within its
  attempt budget; success comes with an admitted output, failure with none; a plan's attempts
  follow its stages; and what a run stores in the cache, a later run serves.
\<close>

section \<open>Both executors\<close>

lemma start_run_fresh: "fresh (start_run x w)"
  by (simp add: fresh_def start_run_def initial_record_def pending_def outcome_part_def Let_def)

lemma finish_plan_ended:
  assumes "plan_exit_ok x ex"
  shows "call_ended x (run_record (finish_plan x ex)) (fst ex)"
    and "follows_plan (x_policy x) (cr_attempts (run_record (finish_plan x ex)))"
proof -
  obtain err s k where ex: "ex = (err, s, k)" by (cases ex)
  have "run_record (finish_plan x ex) = close_record (x_policy x) (x_started_at x) (fst (read_clock (x_env x) s))
      (cr_branch (run_record s)) err (run_record s)"
    by (simp add: finish_plan_def ex Let_def case_prod_beta run_frame split: option.split)
  with assms show "call_ended x (run_record (finish_plan x ex)) (fst ex)"
    and "follows_plan (x_policy x) (cr_attempts (run_record (finish_plan x ex)))"
    by (auto simp: ex call_ended_def plan_exit_ok_def close_record_frame stop_reason_for_succeeded)
qed

lemma undelivered_ended:
  assumes "fresh s" "1 \<le> max_attempts (x_policy x)" "err \<noteq> None"
  shows "reason \<noteq> ''succeeded'' \<Longrightarrow> call_ended x (set_stop_reason reason (run_record s)) err"
    and "call_ended x (run_record s) err"
proof -
  have "settled x err (run_record s)" "cr_stop_reason (run_record s) = []"
    using assms pending_undelivered [of "run_record s"] by (auto simp: fresh_def settled_def)
  with assms show "reason \<noteq> ''succeeded'' \<Longrightarrow> call_ended x (set_stop_reason reason (run_record s)) err"
    and "call_ended x (run_record s) err"
    by (auto simp: call_ended_def fresh_def set_stop_reason_frame budgeted_def numbered_def)
qed

lemma execute_recovery_plan_ended:
  assumes "1 \<le> max_attempts (x_policy x)" "recovery_guard x = None"
  shows "\<exists>c err w'. execute_recovery_plan x w = Some (c, err, w') \<and> call_ended x c err
    \<and> follows_plan (x_policy x) (cr_attempts c)"
proof -
  define x1 where "x1 = (if x_cache_version x = [] then x\<lparr>x_cache_version := DefaultVersion\<rparr> else x)"
  define base where "base = (if web_search (x_call x1) \<and> \<not> search_memo (x_call x1)
    then (x_call x1)\<lparr>search_memo := True\<rparr> else x_call x1)"
  obtain late s1 where 1: "check_context (x_env x1) (start_run x1 w) = (late, s1)" by fastforce
  have f1: "fresh s1"
    using start_run_fresh [of x1 w] check_context_record [of "x_env x1" "start_run x1 w"] 1 by (simp add: fresh_def)
  obtain t s2 where 2: "read_clock (x_env x1) s1 = (t, s2)" by fastforce
  define y where "y = x1\<lparr>x_started_at := t\<rparr>"
  define s3 where "s3 = map_record (note_deadline (x_env y) t) s2"
  have f3: "fresh s3"
    using f1 read_clock_record [of "x_env x1" s1] 2
    by (simp add: fresh_def s3_def run_frame pending_def outcome_part_def note_deadline_def split: option.split)
  have same: "x_policy y = x_policy x" "x_policy x1 = x_policy x" "same_call y base"
      "settled y err c = settled x err c" "settled x1 err c = settled x err c" for err c
    using settled_context [of y x err c] settled_context [of x1 x err c]
    by (simp_all add: y_def x1_def base_def same_call_def)
  obtain ex where ex: "plan_body y base s3 = Some ex" "plan_exit_ok y ex"
    using plan_body_ok [OF f3, of y base] same assms(1) by auto
  have "call_ended x (run_record (finish_plan y ex)) (fst ex)"
    "follows_plan (x_policy x) (cr_attempts (run_record (finish_plan y ex)))"
    using finish_plan_ended [OF ex(2)] by (simp_all add: call_ended_def same)
  moreover have "late \<noteq> None \<Longrightarrow> call_ended x (set_stop_reason (stop_reason_for late) (run_record s1)) late"
    "call_ended x (run_record s1) (Some e)" for e
    using undelivered_ended [OF f1 assms(1)] by (simp_all add: stop_reason_for_succeeded)
  moreover have "follows_plan (x_policy x) (cr_attempts (run_record s1))"
    "follows_plan (x_policy x) (cr_attempts (set_stop_reason reason (run_record s1)))" for reason
    using f1 by (simp_all add: fresh_def follows_plan_def set_stop_reason_frame)
  moreover have "execute_recovery_plan x w =
      (if late \<noteq> None then Some (set_stop_reason (stop_reason_for late) (run_record s1), late, world s1)
       else if x_cache_mode x1 \<noteq> ModeOff \<and> env_cache (x_env x1) = None
         then Some (run_record s1, Some (ErrText ''runtime cache is required when cache mode is active''), world s1)
       else Some (run_record (finish_plan y ex), fst ex, world (finish_plan y ex)))"
    by (simp only: execute_recovery_plan_def Let_def x1_def [symmetric] base_def [symmetric] 1 2 prod.case
        y_def [symmetric] s3_def [symmetric] plan_result_def ex(1) option.case assms(2) simp_thms if_False)
  ultimately show ?thesis by auto
qed

lemma valid_budget: "policy_validate p = None \<Longrightarrow> 1 \<le> max_attempts p \<and> max_attempts p \<le> 10"
  by (auto simp: policy_validate_def Let_def split: if_splits)

lemma execute_ended:
  assumes "execute_guard x = None"
  shows "\<exists>c err w'. execute x w = Some (c, err, w') \<and> call_ended x c err"
proof -
  have "1 \<le> max_attempts (x_policy x)" and g: "recovery_guard x = None" if "call_type (x_call x) = ''structured''"
    using assms valid_budget [of "x_policy x"] that by (auto simp: execute_guard_def recovery_guard_def split: if_splits option.splits)
  moreover have m: "1 \<le> max_attempts (x_policy x)"
    using assms valid_budget [of "x_policy x"] by (auto simp: execute_guard_def split: if_splits option.splits)
  ultimately show ?thesis
    using execute_recovery_plan_ended [OF m, of w] execute_plain_ended [OF m, of w] assms
    by (auto simp: execute_def)
qed

lemma guard_budget: "execute_guard x = None \<Longrightarrow> 1 \<le> max_attempts (x_policy x) \<and> max_attempts (x_policy x) \<le> 10"
  using valid_budget [of "x_policy x"] by (auto simp: execute_guard_def split: if_splits option.splits)

section \<open>Stored results\<close>

lemma admit_result_search:
  assumes "admit_result parse r ct v = None" "validate_search_result parse search = None"
  shows "admit_result parse (r\<lparr>pr_search := (if pr_search r = None then search else pr_search r)\<rparr>) ct v = None"
  using assms by (simp add: admit_result_def split: option.splits if_splits)

lemma producer_self: "trim_space (et_connection_id t) \<noteq> [] \<Longrightarrow> validate_cache_producer t t = None"
  by (simp add: validate_cache_producer_def)

text \<open>The target of an operation that has a cache key names every part of its identity.\<close>

lemma hashed_target_named:
  assumes "hash_operation x p = Inr h" "trim_space (conn_id c) \<noteq> []"
  shows "validate_target_snapshot (target_from_prepared c p) = None"
proof -
  let ?op = "prep_operation p"
  obtain n where "normalize_operation (env_upper (x_env x)) ?op = Inr n"
    using assms(1) by (auto simp: hash_operation_def operation_hash_def hash_input_def split: sum.splits)
  then have "\<not> operation_incomplete (trimmed_operation (env_upper (x_env x)) ?op)"
    by (auto simp: normalize_operation_def Let_def split: if_splits)
  then have "trim_space (op_protocol ?op) \<noteq> []" "trim_space (ep_identity (op_endpoint ?op)) \<noteq> []"
    "trim_space (op_model ?op) \<noteq> []" "trim_space (proj_provider (op_projection ?op)) \<noteq> []"
    by (auto simp: operation_incomplete_def trimmed_operation_def)
  moreover have "trim_space [] = []" by (simp add: trim_space_graph)
  ultimately show ?thesis
    using assms(2) by (auto simp: validate_target_snapshot_def target_from_prepared_def target_from_connection_def Let_def)
qed

section \<open>A concrete environment\<close>

text \<open>A clock that stands still, no cache, and providers that answer from a script.\<close>

type_synonym script = "(provider_result \<times> go_error option) list"

definition demo_connection :: connection where
  "demo_connection = \<lparr>conn_id = ''primary'', conn_provider = ''openai'', api_inference_type = ''openai.responses'',
     conn_base_url = ''https://api.test'', conn_cache_domain = [], supports_web_search = False, conn_pricing = None\<rparr>"

definition demo_context :: observability_context where
  "demo_context = \<lparr>task_id = [], task_slug = [], item_id = [], run_id = ''run'', organization_id = [],
     query_set_id = [], environment = [], release = [], prompt_labels = None, context_tags = None, context_metadata = None\<rparr>"

definition demo_validator :: "json \<Rightarrow> go_error option" where
  "demo_validator v = (if v = JBool True then None else Some (ErrText ''true expected''))"

definition demo_call :: llm_call where
  "demo_call = \<lparr>call_connections = [], call_model = ''m'', call_messages = [], call_type = ''structured'',
     call_schema = [], call_tools = [], call_tool_choice = \<lparr>choice_mode = [], choice_name = []\<rparr>, call_effort = [],
     web_search = False, search_memo = False, provider_options = None, call_context = demo_context,
     call_origin = zero_origin, validate_structured = Some demo_validator, call_repair = None\<rparr>"

definition demo_operation :: operation where
  "demo_operation = \<lparr>schema_version = OperationSchemaVersion, op_cache_domain = [], op_protocol = ''openai.responses'',
     op_endpoint = \<lparr>ep_identity = ''api.test'', ep_method = ''POST'', ep_path = ''/v1''\<rparr>, op_model = ''m'',
     op_payload = JNull, semantic_headers = None,
     op_projection = \<lparr>proj_provider = ''openai'', proj_kind = ''text'', proj_version = ''1''\<rparr>\<rparr>"

definition demo_result :: "json \<Rightarrow> provider_result" where
  "demo_result v = \<lparr>pr_assistant_text = [], pr_search = None, pr_output = v, pr_accounting = empty_ledger,
     pr_stream = zero_stream, provider_dispatched = False\<rparr>"

definition demo_env :: "script runtime_env" where
  "demo_env = \<lparr>ctx_given = True, ctx_err = (\<lambda>_. None), ctx_deadline = None, env_now = (\<lambda>w. (0, w)),
     env_random = (\<lambda>w. (Fin 0, w)), env_wait = (\<lambda>_ w. (None, w)), executor_given = True,
     env_prepare = (\<lambda>_ _ _ w. (Inr \<lparr>prep_operation = demo_operation, prep_opaque = JNull\<rparr>, w)),
     env_execute = (\<lambda>_ w. case w of [] \<Rightarrow> Finished (demo_result JNull) (Some (ErrText ''closed'')) []
       | (r, f) # rest \<Rightarrow> Finished r f rest),
     env_cache = None, env_progress = None, env_url_parse = (\<lambda>_. None), env_upper = (\<lambda>s. s),
     env_hash_error = (\<lambda>_. [])\<rparr>"

definition demo_run :: "script run_context" where
  "demo_run = \<lparr>x_env = demo_env, x_connection = demo_connection,
     x_credential = \<lparr>api_key = [], cred_headers = None\<rparr>, x_call = demo_call, x_policy = default_policy,
     x_cache_mode = ModeOff, x_cache_version = [], x_call_id = ''call'', x_trace_id = ''trace'', x_started_at = 0\<rparr>"

lemma demo_policy_valid: "policy_validate default_policy = None"
  using valid_default_policy by (simp add: policy_validate_spec)

lemma demo_guard: "execute_guard demo_run = None" "recovery_guard demo_run = None"
  using demo_policy_valid
  by (simp_all add: execute_guard_def recovery_guard_def demo_run_def demo_env_def demo_connection_def demo_call_def)

section \<open>Claims\<close>

text \<open>
  C6. \<open>Execute\<close> always returns, whatever the executor, the cache, the clock and the wait do: it makes
  at most \<open>MaxAttempts\<close> attempts, never more than ten, numbers them from 1 on, and every attempt but
  the last was one it could retry.
\<close>

theorem execute_within_budget:
  "\<exists>c err w'. execute x w = Some (c, err, w')
    \<and> int (length (cr_attempts c)) \<le> max 0 (max_attempts (x_policy x)) \<and> length (cr_attempts c) \<le> 10
    \<and> map at_number (cr_attempts c) = [1..int (length (cr_attempts c))] \<and> list_all at_retryable (butlast (cr_attempts c))"
proof (cases "execute_guard x")
  case None
  with execute_ended [OF None, of w] guard_budget [OF None] show ?thesis
    by (fastforce simp: call_ended_def budgeted_def numbered_def)
qed (simp add: execute_def zero_record_def)

text \<open>
  C7. When \<open>Execute\<close> returns no error, the output in the record was admitted: it is not empty, its
  ledger is valid, for a structured call the caller's validator accepts it, and the stop reason
  says that the call succeeded.
\<close>

theorem execute_success_admitted:
  assumes "execute x w = Some (c, None, w')"
  shows "accepted_output (cr_output c) \<and> usage_validate (ledger_usage (cr_result_ledger c)) = None
    \<and> cost_validate (ledger_cost (cr_result_ledger c)) = None
    \<and> (call_type (x_call x) = ''structured'' \<longrightarrow> (\<exists>f. validate_structured (x_call x) = Some f \<and> f (cr_output c) = None))
    \<and> cr_stop_reason c = ''succeeded''"
proof -
  have "execute_guard x = None" using assms by (auto simp: execute_def split: option.splits)
  then have "call_ended x c None" using execute_ended [of x w] assms by auto
  then obtain r where "admitted x r" "cr_output c = pr_output r" "cr_result_ledger c = pr_accounting r"
    "cr_stop_reason c = ''succeeded''"
    by (auto simp: call_ended_def settled_def delivered_def)
  then show ?thesis
    by (auto simp: admitted_def admit_result_def validate_ledger_def validate_structured_value_def
        split: option.splits if_splits)
qed

definition demo_chat :: "script run_context" where
  "demo_chat = demo_run\<lparr>x_call := demo_call\<lparr>call_type := ''chat''\<rparr>\<rparr>"

theorem execute_success_admitted_witness:
  "case execute demo_chat [(demo_result (JBool True), None)] of
     Some (c, err, w') \<Rightarrow> accepted_output (cr_output c) \<and> cr_output c = JBool True
   | None \<Rightarrow> False"
proof -
  let ?r = "execute demo_chat [(demo_result (JBool True), None)]"
  have "map_option (\<lambda>(c, err, w). (cr_output c, err)) ?r = Some (JBool True, None)" by code_simp
  then obtain c w' where "?r = Some (c, None, w')" "cr_output c = JBool True" by (cases ?r) auto
  with execute_success_admitted [of demo_chat _ c w'] show ?thesis by auto
qed

text \<open>
  C9. When \<open>Execute\<close> returns an error, the record carries no output and names no producer, and its
  stop reason does not claim success.
\<close>

theorem execute_failure_empty:
  assumes "execute x w = Some (c, Some err, w')"
  shows "cr_output c = JNull \<and> rs_producer (cr_result_source c) = None \<and> cr_stop_reason c \<noteq> ''succeeded''"
proof (cases "execute_guard x")
  case None
  with execute_ended [OF None, of w] assms have "call_ended x c (Some err)" by auto
  then show ?thesis by (auto simp: call_ended_def settled_def undelivered_def)
next
  case (Some e)
  with assms show ?thesis by (auto simp: execute_def zero_record_def)
qed

theorem execute_failure_empty_witness:
  "case execute (demo_run\<lparr>x_env := demo_env\<lparr>ctx_err := \<lambda>_. Some ErrCanceled\<rparr>\<rparr>) [] of
     Some (c, err, w') \<Rightarrow> err = Some ErrCanceled \<and> cr_output c = JNull
   | None \<Rightarrow> False"
proof -
  let ?x = "demo_run\<lparr>x_env := demo_env\<lparr>ctx_err := \<lambda>_. Some ErrCanceled\<rparr>\<rparr>"
  have "map_option (\<lambda>(c, err, w). err) (execute ?x []) = Some (Some ErrCanceled)" by code_simp
  then obtain c w' where "execute ?x [] = Some (c, Some ErrCanceled, w')" by (cases "execute ?x []") auto
  with execute_failure_empty [of ?x "[]" c ErrCanceled w'] show ?thesis by auto
qed




lemma demo_result_admitted:
  "admit_result parse (demo_result (JBool True)) (call_type demo_call)
     (validate_structured_value (validate_structured demo_call)) = None"
proof -
  have "usage_validate unavailable_usage = None" "cost_validate unavailable_cost = None" by code_simp+
  then show ?thesis
    by (simp add: admit_result_def demo_result_def demo_call_def validate_ledger_def empty_ledger_def accepted_output_def
        validate_search_result_def validate_structured_value_def demo_validator_def)
qed

definition demo_prepared :: prepared_operation where
  "demo_prepared = \<lparr>prep_operation = demo_operation, prep_opaque = JNull\<rparr>"

lemma demo_headers: "headers_of (trimmed_operation upper demo_operation) = []"
  by (simp add: headers_of_def trimmed_operation_def demo_operation_def)

lemma demo_hash: "\<exists>h. hash_operation demo_run demo_prepared = Inr h"
proof -
  have "trim_space (schema_version demo_operation) = OperationSchemaVersion"
    "\<not> operation_incomplete (trimmed_operation (\<lambda>s. s) demo_operation)" by code_simp+
  then have "normalize_operation (\<lambda>s. s) demo_operation = Inr (trimmed_operation (\<lambda>s. s) demo_operation)"
    using demo_headers by (simp add: normalize_operation_eq Let_def)
  moreover define v where "v = JObject [(''operation'', operation_json (trimmed_operation (\<lambda>s. s) demo_operation)),
    (''cacheVersion'', JString DefaultVersion)]"
  have "numbers_ok v" "json_depth v \<le> max_nesting"
    by (simp_all add: v_def operation_json_def trimmed_operation_def demo_operation_def headers_of_def)
  then have "\<exists>t. stable_json v = Inr t" by (simp add: stable_json_eq)
  moreover have "trim_space [] = []" by (simp add: trim_space_graph)
  ultimately show ?thesis
    by (auto simp: hash_operation_def operation_hash_def hash_input_def Let_def demo_prepared_def demo_run_def demo_env_def
        v_def)
qed


end
