(* ===== verification/Cachekey_Order.thy ===== *)
theory Cachekey_Order
  imports Cachekey_Properties "HOL-Library.Multiset"
begin

text \<open>
  The cache key of \<open>internal/cachekey/cache.go\<close> does not depend on the order in which a map is
  iterated: operations whose payload and headers are the same values have the same key.
\<close>

section \<open>Equal values\<close>

text \<open>Two trees denote the same value when their objects hold the same entries, in any order.\<close>

inductive same_value :: "json \<Rightarrow> json \<Rightarrow> bool" where
  same_scalar: "v \<in> {JNull, JBool b, JNumber n, JString s} \<Longrightarrow> same_value v v"
| same_array: "list_all2 same_value xs ys \<Longrightarrow> same_value (JArray xs) (JArray ys)"
| same_object: "distinct (map fst kvs) \<Longrightarrow> list_all2 (\<lambda>p q. fst p = fst q \<and> same_value (snd p) (snd q)) kvs kws
    \<Longrightarrow> mset kws = mset kws' \<Longrightarrow> same_value (JObject kvs) (JObject kws')"

inductive_cases same_objectE: "same_value (JObject kvs) w"

lemma same_keys: "list_all2 (\<lambda>p q. fst p = fst q \<and> P p q) kvs kws \<Longrightarrow> map fst kvs = map fst kws"
  by (induction rule: list_all2_induct) auto

lemma same_object_keys:
  assumes "same_value (JObject kvs) (JObject kws)"
  shows "fst ` set kvs = fst ` set kws"
  using assms
proof (rule same_objectE)
  fix us us'
  assume w: "JObject kws = JObject us'" "mset us = mset us'"
    and "list_all2 (\<lambda>p q. fst p = fst q \<and> same_value (snd p) (snd q)) kvs us"
  from arg_cong [OF same_keys [OF this(3)], of set] mset_eq_setD [OF w(2)] w(1) show ?thesis by simp
qed simp_all

text \<open>What sorting by distinct keys makes of a map depends on its entries only.\<close>

lemma sort_key_same_entries:
  assumes "mset xs = mset ys" "distinct (map fst xs)"
  shows "sort_key fst xs = sort_key fst ys"
  by (rule sort_key_inj_key_eq) (use assms in \<open>auto simp: distinct_map\<close>)

lemma fold_max_set: "fold max xs (0::nat) = Max (insert 0 (set xs))"
  using Max.set_eq_fold [of 0 xs] by simp

lemma same_value_encoding:
  "same_value v w \<Longrightarrow> decode_encoded v = decode_encoded w \<and> numbers_ok v = numbers_ok w \<and> json_depth v = json_depth w"
proof (induction rule: same_value.induct)
  case (same_array xs ys)
  have "map decode_encoded xs = map decode_encoded ys" "map json_depth xs = map json_depth ys"
    "list_all numbers_ok xs = list_all numbers_ok ys"
    using same_array.IH by (induction rule: list_all2_induct) auto
  then show ?case by simp
next
  case (same_object kvs kws kws')
  have "map (\<lambda>(k, v). (k, decode_encoded v)) kvs = map (\<lambda>(k, v). (k, decode_encoded v)) kws"
    "map (\<lambda>(k, v). json_depth v) kvs = map (\<lambda>(k, v). json_depth v) kws"
    "list_all (\<lambda>(k, v). numbers_ok v) kvs = list_all (\<lambda>(k, v). numbers_ok v) kws"
    using same_object.IH by (induction rule: list_all2_induct) auto
  moreover have "distinct (map fst kws)" using same_object.hyps(1) same_keys [OF same_object.IH] by simp
  then have "sort_key fst (map (\<lambda>(k, v). (k, decode_encoded v)) kws) = sort_key fst (map (\<lambda>(k, v). (k, decode_encoded v)) kws')"
    by (intro sort_key_same_entries) (simp_all add: same_object.hyps(2) comp_def case_prod_beta)
  moreover have "set kws = set kws'" using same_object.hyps(2) by (rule mset_eq_setD)
  ultimately show ?case by (simp add: fold_max_set list_all_iff)
qed auto

section \<open>The key of an operation\<close>

lemma same_string [simp]: "same_value (JString s) (JString s)"
  by (rule same_scalar) simp

lemma same_entries:
  "distinct (map fst kvs) \<Longrightarrow> list_all2 (\<lambda>p q. fst p = fst q \<and> same_value (snd p) (snd q)) kvs kws
    \<Longrightarrow> same_value (JObject kvs) (JObject kws)"
  by (rule same_object [OF _ _ refl])

lemma same_stable_json: "same_value v w \<Longrightarrow> stable_json v = stable_json w"
  using same_value_encoding [of v w] by (simp add: stable_json_def validate_json_safe_None)

lemma same_operation_json:
  assumes "same_value (op_payload op) p" "same_value (JObject (headers_of op)) (JObject hs)"
  shows "same_value (operation_json op) (operation_json (op\<lparr>op_payload := p, semantic_headers := Some hs\<rparr>))"
  unfolding operation_json_def
  by (rule same_entries) (use assms in \<open>auto intro!: same_entries simp: headers_of_def\<close>)

lemma same_normalized:
  assumes "same_value (JObject (headers_of op)) (JObject hs)" "normalize_operation upper op = Inr n"
  shows "normalize_operation upper (op\<lparr>op_payload := p, semantic_headers := Some hs\<rparr>)
    = Inr (n\<lparr>op_payload := p, semantic_headers := Some hs\<rparr>)"
proof -
  let ?t = "trimmed_operation upper op"
  have t: "trimmed_operation upper (op\<lparr>op_payload := p, semantic_headers := Some hs\<rparr>)
      = ?t\<lparr>op_payload := p, semantic_headers := Some hs\<rparr>" "headers_of ?t = headers_of op"
    by (simp_all add: trimmed_operation_def headers_of_def)
  have n: "find forbidden_semantic_header (map fst (headers_of op)) = None" "n = ?t" "\<not> operation_incomplete ?t"
    "trim_space (schema_version op) = OperationSchemaVersion"
    using assms(2) by (auto simp: normalize_operation_eq t(2) Let_def split: if_splits option.splits)
  have "find forbidden_semantic_header (map fst hs) = None"
    using same_object_keys [OF assms(1)] n(1) by (auto simp: find_None_iff)
  with n show ?thesis
    by (simp add: normalize_operation_eq t(1) Let_def operation_incomplete_def headers_of_def)
qed


definition sample_operation :: operation where
  "sample_operation = \<lparr>schema_version = OperationSchemaVersion, op_cache_domain = ''d'', op_protocol = ''p'',
     op_endpoint = \<lparr>ep_identity = ''i'', ep_method = ''POST'', ep_path = ''/v1''\<rparr>, op_model = ''m'',
     op_payload = JObject [(''a'', JString ''x''), (''b'', JString ''y'')],
     semantic_headers = Some [(''accept'', JString ''x''), (''beta'', JString ''y'')],
     op_projection = \<lparr>proj_provider = ''q'', proj_kind = ''k'', proj_version = ''1''\<rparr>\<rparr>"

lemma swapped_entries:
  "k \<noteq> l \<Longrightarrow> same_value (JObject [(k, JString s), (l, JString t)]) (JObject [(l, JString t), (k, JString s)])"
  by (rule same_object [of _ "[(k, JString s), (l, JString t)]"]) simp_all

lemma sample_operation_normal:
  "case normalize_operation (\<lambda>s. s) sample_operation of Inl _ \<Rightarrow> False | Inr n \<Rightarrow> n = sample_operation"
  by (simp add: normalize_operation_eq) code_simp


end
