(* ===== verification/Gateway_Auth.thy ===== *)
theory Gateway_Auth
  imports Go_Prelude
begin

text \<open>
  The bearer credential of the gateway, \<open>internal/gateway/auth/token.go\<close>: which tokens may be
  configured and which \<open>Authorization\<close> values match one.
\<close>

text \<open>
  The loop of \<open>ValidToken\<close> ranges over runes; a byte that is not ASCII is part of a rune above
  \<open>0x7e\<close> or stands for U+FFFD, so the test on bytes is the same.
\<close>

definition token_byte :: "char \<Rightarrow> bool" where
  "token_byte c \<longleftrightarrow> (let n = of_char c :: nat in \<not> (n < 0x21 \<or> n > 0x7e))"

definition valid_token :: "string \<Rightarrow> bool" where
  "valid_token token =
     (if length token < 32 \<or> length token > 512 \<or> trim_space token \<noteq> token then False
      else list_all token_byte token)"

text \<open>\<open>subtle.ConstantTimeCompare\<close> returns 1 exactly on equal byte strings.\<close>

definition match_bearer :: "string list \<Rightarrow> string \<Rightarrow> bool" where
  "match_bearer headers expected =
     (if length headers \<noteq> 1 \<or> \<not> has_prefix (hd headers) ''Bearer '' \<or> count_list (hd headers) CHR '' '' \<noteq> 1 then False
      else let provided = drop (length ''Bearer '') (hd headers) in
        provided \<noteq> [] \<and> trim_space provided = provided \<and> provided = expected)"

lemma token_no_space: "list_all token_byte s \<Longrightarrow> CHR '' '' \<notin> set s"
  by (auto simp: list_all_iff token_byte_def)

lemma has_prefix_append: "has_prefix (p @ s) p" and has_prefixE: "has_prefix s p \<Longrightarrow> \<exists>t. s = p @ t"
  by (auto simp: has_prefix_def) (use strip_prefix_Some in blast)+

text \<open>
  C15. Authentication is exact: for a token that may be configured, a request matches when its only
  \<open>Authorization\<close> value is the scheme, one space and the token, and in no other case.
\<close>

theorem match_bearer_iff:
  assumes "valid_token token"
  shows "match_bearer headers token \<longleftrightarrow> headers = [''Bearer '' @ token]"
proof
  assume m: "match_bearer headers token"
  then obtain v where v: "headers = [v]" by (cases headers) (auto simp: match_bearer_def split: if_splits)
  with m obtain t where "v = ''Bearer '' @ t" using has_prefixE by (fastforce simp: match_bearer_def split: if_splits)
  with m v show "headers = [''Bearer '' @ token]" by (simp add: match_bearer_def Let_def split: if_splits)
next
  assume v: "headers = [''Bearer '' @ token]"
  have "CHR '' '' \<notin> set token" "trim_space token = token" "token \<noteq> []"
    using assms token_no_space by (auto simp: valid_token_def split: if_splits)
  moreover have "has_prefix (''Bearer '' @ token) ''Bearer ''" by (rule has_prefix_append)
  ultimately show "match_bearer headers token" by (simp add: v match_bearer_def count_notin)
qed

theorem match_bearer_witness:
  "match_bearer [''Bearer 0123456789abcdef0123456789abcdef''] ''0123456789abcdef0123456789abcdef''"
proof -
  have "valid_token ''0123456789abcdef0123456789abcdef''" by code_simp
  from match_bearer_iff [OF this, of "[''Bearer 0123456789abcdef0123456789abcdef'']"] show ?thesis by simp
qed

end
