(* ===== verification/Spec2Isabelle.thy ===== *)
theory Spec2Isabelle
  imports Retry_Json Accumulator Stats Schema_Semantics Pool_Properties Runtime_Claims Cachekey_Order Gateway_Auth
begin

text \<open>
  Harden LLM calls language models on behalf of its clients and makes the calls dependable: a call
  is retried, its structured output is checked and repaired along a recovery plan, results are
  cached under an identity of the prepared operation, tokens and costs are accounted for, and the
  calls of batch jobs are admitted by a pool that adapts to the limits of the provider. This
  development models these parts of the Go sources and proves what they promise.

  \<^bold>\<open>The parts and how they interact.\<close> A call enters \<open>Execute\<close> (\<open>internal/runtime\<close>). The provider
  adapter prepares an operation; \<open>internal/cachekey\<close> gives it a key, under which a cached result may
  be found. Otherwise the operation is dispatched; \<open>internal/accounting\<close> normalises, prices and adds
  up what the provider reports; the caller's validator, built on \<open>internal/schema\<close>, accepts or
  refuses a structured output; \<open>internal/retry\<close> classifies a failure and computes the wait before
  the next attempt. With a recovery plan a refused output leads to repairs and to a rerun. For
  batches, the pool of \<open>stateful/batch\<close> grants permits to dispatch attempts, observes how they
  settle, and after a throttle closes until a single probe has succeeded. \<open>internal/stats\<close> sums up
  the traces of finished calls, and \<open>internal/gateway/auth\<close> admits the clients of the gateway.

  \<^bold>\<open>The theories.\<close>

  \<^item> \<open>Go_Prelude\<close>, \<open>Go_Json\<close>, \<open>Go_Float\<close>, \<open>Go_Digest\<close>, \<open>Go_Value\<close>: what the sources use of Go and its
    library. An \<open>int64\<close> is an integer with \<open>wrap64\<close> where it can overflow; an instant is a number of
    nanoseconds; strings are byte strings; \<open>float64\<close> is rounded rational arithmetic with infinities
    and NaN; JSON values are trees; SHA-256 and the UTF-8 operations are computed; \<open>Go_Value\<close> is a
    heap of slices, maps and pointers, in which values can be cyclic.
  \<^item> \<open>Retry\<close>, \<open>Retry_Json\<close>: \<open>internal/retry/retry.go\<close>. Recovery policies, their validation and JSON
    form, the chain of wrapped errors, \<open>Classify\<close> and \<open>Delay\<close>. Validation is characterised by a
    declarative predicate, classification and delays by their exact conditions and bounds, and
    decoding inverts encoding.
  \<^item> \<open>Accounting\<close>, \<open>Accumulator\<close>, \<open>Pricing\<close>: \<open>internal/accounting\<close>. Usage and cost records, their sums,
    the accumulator over the attempts of a call, and itemised usage. Sums are exact where they do
    not overflow and are refused otherwise; the accumulated ledger is valid, and its status says
    which observations it covers.
  \<^item> \<open>Stats\<close>: \<open>internal/stats/stats.go\<close>. A merge keeps the totals valid and counts a call once,
    provided that the cost a trace states is a finite amount, which the code does not check.
  \<^item> \<open>Json_Number\<close>, \<open>Schema\<close>, \<open>Schema_Semantics\<close>: \<open>internal/schema/schema.go\<close>. Output contracts and
    their normalisation, the validation of contracts and values, and the bounded diagnostics. A
    denotational reading of contracts is given, and the validator is shown to decide it; decimal
    numbers are compared by value, whatever their length.
  \<^item> \<open>Cachekey\<close>, \<open>Cachekey_Properties\<close>, \<open>Cachekey_Order\<close>: \<open>internal/cachekey\<close>. Normalisation of an
    operation, refusal of credential headers, the check of encodable values, canonical JSON and the
    key. The check ends on values without pointers and never on a pointer cycle; the key does not
    depend on the order of map entries.
  \<^item> \<open>Controller\<close>, \<open>Transition\<close>, \<open>Pool\<close>, \<open>Pool_Invariant\<close>, \<open>Pool_Permits\<close>, \<open>Pool_Properties\<close>:
    \<open>stateful/batch\<close> (\<open>controller.go\<close>, \<open>budget.go\<close>, \<open>pool_state.go\<close>, \<open>recovery_jitter.go\<close>, the pure
    part of \<open>pool_progress.go\<close> and the signals of \<open>pool_workflow.go\<close>). A controller and a pool are
    records, every method is a function on them, and \<open>pool_reach\<close> is the relation of the states a
    pool can reach by grants, observations, acknowledgements, signals and activity results at
    non-decreasing times. \<open>Transition\<close> has the interfaces: a locale of step relations with an
    invariant, and one of a gate that stays closed over events. They are interpreted on the pool
    for its resource limits, its windows, the identity of its permits and its probe.
  \<^item> \<open>Runtime_Types\<close>, \<open>Runtime\<close>, \<open>Recovery\<close>, \<open>Runtime_Properties\<close>, \<open>Runtime_Claims\<close>:
    \<open>internal/runtime\<close> (\<open>types.go\<close>, \<open>cache.go\<close>, \<open>context.go\<close>, \<open>search.go\<close>, \<open>execute.go\<close>,
    \<open>recovery_execute.go\<close>). \<open>execute\<close> is the whole call; a run is a state with the world, the record
    and the progress variables. It returns within its budget for every environment; what it
    returns as a success was admitted; a failure delivers nothing; the attempts of a plan follow its
    stages; and what a run stores, a later run admits.
  \<^item> \<open>Gateway_Auth\<close>: \<open>internal/gateway/auth/token.go\<close>. Exactly the configured token is admitted.

  \<^bold>\<open>Parameters.\<close> Code outside the sources is an argument of the definitions. A \<open>runtime_env\<close> has the
  context, clock, random source, wait, provider, cache and progress callback as functions on an
  abstract world, about which nothing is assumed; a provider's execution is a finite tree of
  progress reports, so a dispatch that never returns is outside the model. The derivation of
  permit identifiers (\<open>google/uuid\<close>) is a parameter; where identities matter it is assumed
  injective, which a concrete instance satisfies. \<open>url.Parse\<close>, the Unicode tables of
  \<open>strings.ToUpper\<close>, the encoding of a pool snapshot and the texts of cache-key errors are
  parameters without assumptions.

  \<^bold>\<open>Loops and fuel.\<close> The loops of the two executors are partial functions whose value is \<open>None\<close> if
  they do not return, and that they return is proved. \<open>validateReflect\<close> takes fuel: \<open>None\<close> says that
  the recursion is deeper than the fuel. For a value decoded from JSON the number of its heap cells
  plus one is enough (\<open>validate_json_safe_None\<close>). All other functions are total.

  \<^bold>\<open>Not modelled.\<close> The provider adapters, the HTTP gateway and its client library, telemetry, and the
  storage of profiles, runs and artifacts are input and output around the parts above. The ledger,
  the queues and the publication of pool progress are SQL statements, and the batch workflows run on
  Temporal futures and timers; both depend on services whose code is not in the sources. Redaction
  is made of regular expressions and URL parsing on free text. Runs have no observer: its hooks
  receive facts and may replace the context. The capacity studies, the test harnesses and the web
  frontend are not part of the service's core. Of the modelled files, the decoding of JSON text, the
  timer of \<open>retry.Wait\<close> and the JSON views of diagnostics are left out; time zones are not
  represented.
\<close>

end
